(* ===== verification/Go_Runtime.thy ===== *)
theory Go_Runtime
  imports Main "HOL-Library.Word"
begin

text \<open>
  The prelude of the development: Go computations, Go integers and the generic lemmas the
  component theories share.

  A Go call either returns or panics, and it changes the state of the process. A computation
  is therefore a function from the state to an outcome and the new state; sequencing stops at
  the first panic, as the Go statement sequence does, and \<open>recoverc\<close> is the deferred
  \<^verbatim>\<open>recover()\<close>. Signed 64-bit arithmetic (\<^verbatim>\<open>int64\<close>, \<^verbatim>\<open>time.Duration\<close>) is written on
  \<^typ>\<open>int\<close> with the wrap-around \<open>i64\<close> applied wherever the code multiplies or shifts.
\<close>

named_theorems comp_simps \<open>equations that run computations one statement at a time\<close>

section \<open>Outcomes and computations\<close>

datatype panic_val =
    PanicString string   \<comment> \<open>a panic with a string, such as \<^verbatim>\<open>panic("...")\<close>\<close>
  | NilDereference       \<comment> \<open>the run-time error of a nil pointer or nil interface\<close>
  | PanicValue nat       \<comment> \<open>any other value a callee panics with\<close>

datatype 'a outcome = Ret 'a | Panic panic_val

type_synonym ('w, 'a) comp = "'w \<Rightarrow> 'a outcome \<times> 'w"

definition ret :: "'a \<Rightarrow> ('w, 'a) comp" where
  "ret x = (\<lambda>w. (Ret x, w))"

definition panicc :: "panic_val \<Rightarrow> ('w, 'a) comp" where
  "panicc p = (\<lambda>w. (Panic p, w))"

definition getc :: "('w \<Rightarrow> 'a) \<Rightarrow> ('w, 'a) comp" where
  "getc f = (\<lambda>w. (Ret (f w), w))"

definition modifyc :: "('w \<Rightarrow> 'w) \<Rightarrow> ('w, unit) comp" where
  "modifyc f = (\<lambda>w. (Ret (), f w))"

definition bindc :: "('w, 'a) comp \<Rightarrow> ('a \<Rightarrow> ('w, 'b) comp) \<Rightarrow> ('w, 'b) comp" where
  "bindc m f = (\<lambda>w. case m w of (Ret x, w') \<Rightarrow> f x w' | (Panic p, w') \<Rightarrow> (Panic p, w'))"

definition thenc :: "('w, 'a) comp \<Rightarrow> ('w, 'b) comp \<Rightarrow> ('w, 'b) comp" where
  "thenc m k = bindc m (\<lambda>_. k)"

definition recoverc :: "('w, 'a) comp \<Rightarrow> (panic_val \<Rightarrow> ('w, 'a) comp) \<Rightarrow> ('w, 'a) comp" where
  "recoverc m h = (\<lambda>w. case m w of (Ret x, w') \<Rightarrow> (Ret x, w') | (Panic p, w') \<Rightarrow> h p w')"

fun seqc :: "('w, unit) comp list \<Rightarrow> ('w, unit) comp" where
  "seqc [] = ret ()"
| "seqc (m # ms) = thenc m (seqc ms)"

lemma ret_apply [comp_simps]: "ret x w = (Ret x, w)"
  by (simp add: ret_def)

lemma panicc_apply [comp_simps]: "panicc p w = (Panic p, w)"
  by (simp add: panicc_def)

lemma getc_apply [comp_simps]: "getc f w = (Ret (f w), w)"
  by (simp add: getc_def)

lemma modifyc_apply [comp_simps]: "modifyc f w = (Ret (), f w)"
  by (simp add: modifyc_def)

lemma bindc_apply [comp_simps]:
  "bindc m f w = (case m w of (Ret x, w') \<Rightarrow> f x w' | (Panic p, w') \<Rightarrow> (Panic p, w'))"
  by (simp add: bindc_def)

lemma thenc_apply [comp_simps]:
  "thenc m k w = (case m w of (Ret x, w') \<Rightarrow> k w' | (Panic p, w') \<Rightarrow> (Panic p, w'))"
  by (simp add: thenc_def bindc_def)

lemma recoverc_apply [comp_simps]:
  "recoverc m h w = (case m w of (Ret x, w') \<Rightarrow> (Ret x, w') | (Panic p, w') \<Rightarrow> h p w')"
  by (simp add: recoverc_def)

lemma bindc_assoc: "bindc (bindc m f) g = bindc m (\<lambda>x. bindc (f x) g)"
  by (rule ext) (simp add: bindc_def split: prod.splits outcome.splits)

lemma bindc_ret [simp]: "bindc (ret x) f = f x" and ret_bindc [simp]: "bindc m ret = m"
  by (rule ext, simp add: bindc_def ret_def split: prod.splits outcome.splits)+

lemma seqc_append: "seqc (ms @ ns) = thenc (seqc ms) (seqc ns)"
  by (induction ms) (simp_all add: thenc_def bindc_assoc)

text \<open>
  A property of the state that every statement of a sequence keeps is kept by the sequence,
  whether it returns or panics.
\<close>

definition keeps :: "('w \<Rightarrow> bool) \<Rightarrow> ('w, 'a) comp \<Rightarrow> bool" where
  "keeps P m \<longleftrightarrow> (\<forall>w. P w \<longrightarrow> P (snd (m w)))"

lemma keepsD: "keeps P m \<Longrightarrow> P w \<Longrightarrow> P (snd (m w))"
  by (simp add: keeps_def)

lemma keeps_ret [intro]: "keeps P (ret x)"
  by (simp add: keeps_def ret_def)

lemma keeps_bindc [intro]: "keeps P m \<Longrightarrow> (\<And>x. keeps P (f x)) \<Longrightarrow> keeps P (bindc m f)"
  by (fastforce simp: keeps_def bindc_def split: prod.splits outcome.splits)

lemma keeps_thenc [intro]: "keeps P m \<Longrightarrow> keeps P k \<Longrightarrow> keeps P (thenc m k)"
  by (auto simp: thenc_def)

lemma keeps_seqc: "(\<And>m. m \<in> set ms \<Longrightarrow> keeps P m) \<Longrightarrow> keeps P (seqc ms)"
  by (induction ms) auto

section \<open>Signed 64-bit integers\<close>

definition i64 :: "int \<Rightarrow> int" where
  "i64 x = (x + 2 ^ 63) mod 2 ^ 64 - 2 ^ 63"

definition max_int64 :: int where
  "max_int64 = 2 ^ 63 - 1"

lemma i64_range: "- (2 ^ 63) \<le> i64 x \<and> i64 x \<le> max_int64"
proof -
  have "0 \<le> (x + 2 ^ 63) mod 2 ^ 64" and "(x + 2 ^ 63) mod 2 ^ 64 < (2 ^ 64 :: int)"
    by (rule pos_mod_sign, simp, rule pos_mod_bound, simp)
  then show ?thesis by (simp add: i64_def max_int64_def)
qed

lemma i64_id: "- (2 ^ 63) \<le> x \<Longrightarrow> x \<le> max_int64 \<Longrightarrow> i64 x = x"
  by (simp add: i64_def max_int64_def mod_pos_pos_trivial)

lemma i64_nonneg: "0 \<le> x \<Longrightarrow> x \<le> max_int64 \<Longrightarrow> i64 x = x"
  by (rule i64_id) auto

lemma i64_dvd:
  assumes "n \<le> 63" and "2 ^ n dvd x"
  shows "2 ^ n dvd i64 x"
proof -
  have d63: "(2 ^ n :: int) dvd 2 ^ 63" and d64: "(2 ^ n :: int) dvd 2 ^ 64"
    using le_imp_power_dvd [of n 63 "2 :: int"] le_imp_power_dvd [of n 64 "2 :: int"] assms(1)
    by simp_all
  have "2 ^ n dvd x + 2 ^ 63" using assms(2) d63 by (rule dvd_add)
  then have "2 ^ n dvd (x + 2 ^ 63) mod 2 ^ 64" using d64 by (simp add: dvd_mod)
  then show ?thesis unfolding i64_def using d63 by (rule dvd_diff)
qed

text \<open>Go's integer division truncates towards zero; every use in the code has a non-negative
  dividend, but the model keeps the language's rule.\<close>

definition go_div :: "int \<Rightarrow> int \<Rightarrow> int" where
  "go_div a b = sgn a * sgn b * (\<bar>a\<bar> div \<bar>b\<bar>)"

lemma go_div_nonneg: "0 \<le> a \<Longrightarrow> 0 < b \<Longrightarrow> go_div a b = a div b"
  by (cases "a = 0") (simp_all add: go_div_def)

section \<open>Durations, in nanoseconds\<close>

definition version_TLS13 :: "16 word" where
  \<comment> \<open>\<^verbatim>\<open>tls.VersionTLS13\<close>\<close>
  "version_TLS13 = 0x0304"

abbreviation "millisecond \<equiv> (1000000 :: int)"
abbreviation "second \<equiv> (1000000000 :: int)"
abbreviation "minute \<equiv> (60000000000 :: int)"

end
