(* ===== verification/Go_Strings.thy ===== *)
theory Go_Strings
  imports Go_Runtime
begin

text \<open>
  The functions of Go's \<^verbatim>\<open>strings\<close> and \<^verbatim>\<open>net\<close> packages the interceptors call, on byte strings
  (a Go string is a sequence of bytes, a \<^typ>\<open>string\<close> here is a list of 8-bit characters):
  \<^verbatim>\<open>strings.IndexByte\<close>, \<^verbatim>\<open>strings.TrimSpace\<close>, \<^verbatim>\<open>strings.EqualFold\<close>, \<^verbatim>\<open>net.SplitHostPort\<close> and the
  \<^verbatim>\<open>net.JoinHostPort\<close> that the address types use to print themselves.
\<close>

named_theorems byte_simps \<open>searching and cutting byte strings\<close>

section \<open>Searching for a byte\<close>

fun index_byte :: "string \<Rightarrow> char \<Rightarrow> nat option" where
  "index_byte [] c = None"
| "index_byte (x # xs) c = (if x = c then Some 0 else map_option Suc (index_byte xs c))"

definition last_index_byte :: "string \<Rightarrow> char \<Rightarrow> nat option" where
  "last_index_byte s c = map_option (\<lambda>i. length s - Suc i) (index_byte (rev s) c)"

lemma index_byte_None [byte_simps]: "index_byte s c = None \<longleftrightarrow> c \<notin> set s"
  by (induction s) auto

lemma index_byte_split [byte_simps]: "c \<notin> set xs \<Longrightarrow> index_byte (xs @ c # ys) c = Some (length xs)"
  by (induction xs) auto

lemma last_index_byte_split [byte_simps]:
  "c \<notin> set ys \<Longrightarrow> last_index_byte (xs @ c # ys) c = Some (length xs)"
  by (simp add: last_index_byte_def index_byte_split)

lemma last_index_byte_None [byte_simps]: "last_index_byte s c = None \<longleftrightarrow> c \<notin> set s"
  by (simp add: last_index_byte_def index_byte_None)

lemma index_byte_before: "index_byte s c = Some i \<Longrightarrow> c \<notin> set (take i s)"
  by (induction s arbitrary: i) (auto split: if_splits)

section \<open>Trimming white space\<close>

text \<open>The UTF-8 encodings of the code points for which \<^verbatim>\<open>unicode.IsSpace\<close> holds. UTF-8 is
  self-synchronising, so a rune starts (ends) a string exactly when its encoding is a prefix
  (suffix) of it.\<close>

definition space_encodings :: "string list" where
  "space_encodings =
     [[CHR 0x09], [CHR 0x0A], [CHR 0x0B], [CHR 0x0C], [CHR 0x0D], [CHR 0x20],
      [CHR 0xC2, CHR 0x85], [CHR 0xC2, CHR 0xA0], [CHR 0xE1, CHR 0x9A, CHR 0x80]]
     @ map (\<lambda>b. [CHR 0xE2, CHR 0x80, b])
        [CHR 0x80, CHR 0x81, CHR 0x82, CHR 0x83, CHR 0x84, CHR 0x85, CHR 0x86, CHR 0x87,
         CHR 0x88, CHR 0x89, CHR 0x8A, CHR 0xA8, CHR 0xA9, CHR 0xAF]
     @ [[CHR 0xE2, CHR 0x81, CHR 0x9F], [CHR 0xE3, CHR 0x80, CHR 0x80]]"

definition starts_with :: "string \<Rightarrow> string \<Rightarrow> bool" where
  "starts_with s e \<longleftrightarrow> take (length e) s = e"

lemma starts_with_drop: "starts_with s e \<Longrightarrow> e \<noteq> [] \<Longrightarrow> length (drop (length e) s) < length s"
  by (cases s; cases e) (auto simp: starts_with_def)

function trim_front :: "string list \<Rightarrow> string \<Rightarrow> string" where
  "trim_front encs s =
     (case List.find (\<lambda>e. e \<noteq> [] \<and> starts_with s e) encs of
        None \<Rightarrow> s
      | Some e \<Rightarrow> trim_front encs (drop (length e) s))"
  by pat_completeness auto
termination
  by (relation "measure (\<lambda>(encs, s). length s)") (auto simp: find_Some_iff dest: starts_with_drop)

declare trim_front.simps [simp del]

definition trim_space :: "string \<Rightarrow> string" where
  "trim_space s =
     rev (trim_front (map rev space_encodings) (rev (trim_front space_encodings s)))"

lemma trim_front_suffix: "\<exists>p. s = p @ trim_front encs s"
proof (induction encs s rule: trim_front.induct)
  case (1 encs s)
  show ?case
  proof (cases "List.find (\<lambda>e. e \<noteq> [] \<and> starts_with s e) encs")
    case None
    then show ?thesis by (subst trim_front.simps) simp
  next
    case (Some e)
    then obtain p where "drop (length e) s = p @ trim_front encs (drop (length e) s)"
      using "1.IH" by blast
    then have "s = (take (length e) s @ p) @ trim_front encs (drop (length e) s)"
      by (metis append_assoc append_take_drop_id)
    moreover have "trim_front encs s = trim_front encs (drop (length e) s)"
      by (subst trim_front.simps) (simp add: Some)
    ultimately show ?thesis by metis
  qed
qed

lemma trim_front_stops: "e \<in> set encs \<Longrightarrow> e \<noteq> [] \<Longrightarrow> \<not> starts_with (trim_front encs s) e"
proof (induction encs s rule: trim_front.induct)
  case (1 encs s)
  show ?case
  proof (cases "List.find (\<lambda>e. e \<noteq> [] \<and> starts_with s e) encs")
    case None
    then have "\<not> starts_with s e" using "1.prems" by (auto simp: find_None_iff)
    then show ?thesis using None by (subst trim_front.simps) simp
  next
    case (Some e')
    then show ?thesis using "1.IH" "1.prems" by (subst trim_front.simps) simp
  qed
qed

lemma trim_front_id:
  "(\<And>e. e \<in> set encs \<Longrightarrow> e \<noteq> [] \<Longrightarrow> \<not> starts_with s e) \<Longrightarrow> trim_front encs s = s"
  by (subst trim_front.simps) (auto simp: find_Some_iff split: option.splits)

text \<open>A string is trimmed when no space encoding begins or ends it.\<close>

definition trimmed :: "string \<Rightarrow> bool" where
  "trimmed s \<longleftrightarrow> (\<forall>e \<in> set space_encodings. \<not> starts_with s e \<and> \<not> starts_with (rev s) (rev e))"

lemma space_encodings_nonempty: "e \<in> set space_encodings \<Longrightarrow> e \<noteq> []"
  by (auto simp: space_encodings_def)

lemma starts_with_append: "starts_with s e \<Longrightarrow> starts_with (s @ t) e"
  unfolding starts_with_def
  by (metis append_take_drop_id append.assoc append_eq_conv_conj)

lemma trim_space_infix: "\<exists>p q. s = p @ trim_space s @ q"
proof -
  obtain p where p: "s = p @ trim_front space_encodings s" using trim_front_suffix by blast
  obtain q where q: "rev (trim_front space_encodings s) = q @ rev (trim_space s)"
    using trim_front_suffix [of "rev (trim_front space_encodings s)" "map rev space_encodings"]
    by (auto simp: trim_space_def)
  then have "trim_front space_encodings s = trim_space s @ rev q"
    by (metis rev_append rev_rev_ident)
  then show ?thesis using p by (metis)
qed

lemma set_trim_space: "set (trim_space s) \<subseteq> set s"
  using trim_space_infix [of s] by (metis Un_upper1 Un_upper2 order_trans set_append)

lemma trim_space_trimmed: "trimmed (trim_space s)"
  unfolding trimmed_def
proof
  fix e assume e: "e \<in> set space_encodings"
  let ?l = "trim_front space_encodings s"
  obtain q where "rev ?l = q @ rev (trim_space s)"
    using trim_front_suffix [of "rev ?l" "map rev space_encodings"] by (auto simp: trim_space_def)
  then have l: "?l = trim_space s @ rev q" by (metis rev_append rev_rev_ident)
  have "\<not> starts_with ?l e"
    using e by (simp add: trim_front_stops space_encodings_nonempty)
  then have "\<not> starts_with (trim_space s) e"
    using l starts_with_append by metis
  moreover have "\<not> starts_with (rev (trim_space s)) (rev e)"
    using e space_encodings_nonempty [OF e] trim_front_stops [of "rev e" "map rev space_encodings"]
    by (simp add: trim_space_def)
  ultimately show "\<not> starts_with (trim_space s) e \<and> \<not> starts_with (rev (trim_space s)) (rev e)"
    by simp
qed

lemma trim_space_id: "trimmed s \<Longrightarrow> trim_space s = s"
  unfolding trim_space_def trimmed_def
  by (subst trim_front_id, (auto)[1], subst trim_front_id, auto)

lemma trim_space_idem: "trim_space (trim_space s) = trim_space s"
  by (rule trim_space_id [OF trim_space_trimmed])

section \<open>Case-insensitive comparison\<close>

text \<open>
  \<^verbatim>\<open>strings.EqualFold\<close> compares under simple Unicode folding. The code calls it with the literal
  \<^verbatim>\<open>"bearer "\<close> only; none of its characters has a folding partner outside ASCII (among the
  ASCII letters only k and s do), so folding ASCII letters byte by byte is the same function.
\<close>

definition ascii_lower :: "char \<Rightarrow> char" where
  "ascii_lower c = (if (65 :: nat) \<le> of_char c \<and> of_char c \<le> (90 :: nat) then char_of (of_char c + 32 :: nat) else c)"

definition equal_fold :: "string \<Rightarrow> string \<Rightarrow> bool" where
  "equal_fold s t \<longleftrightarrow> map ascii_lower s = map ascii_lower t"

section \<open>Host and port\<close>

definition split_check :: "string \<Rightarrow> string \<Rightarrow> nat \<Rightarrow> nat \<Rightarrow> nat \<Rightarrow> (string \<times> string) option" where
  "split_check hp host j k i =
     (if index_byte (drop j hp) (CHR ''['') \<noteq> None then None
      else if index_byte (drop k hp) (CHR '']'') \<noteq> None then None
      else Some (host, drop (Suc i) hp))"

definition split_host_port :: "string \<Rightarrow> (string \<times> string) option" where
  "split_host_port hp =
     (case last_index_byte hp (CHR '':'') of
        None \<Rightarrow> None
      | Some i \<Rightarrow>
          if hp ! 0 = CHR ''['' then
            (case index_byte hp (CHR '']'') of
               None \<Rightarrow> None
             | Some e \<Rightarrow>
                 if Suc e = i then split_check hp (take (e - 1) (drop 1 hp)) 1 (Suc e) i
                 else None)
          else if index_byte (take i hp) (CHR '':'') \<noteq> None then None
          else split_check hp (take i hp) 0 0 i)"

definition join_host_port :: "string \<Rightarrow> string \<Rightarrow> string" where
  "join_host_port host port =
     (if index_byte host (CHR '':'') \<noteq> None then ''['' @ host @ '']:'' @ port
      else host @ '':'' @ port)"

definition port_text :: "string \<Rightarrow> bool" where
  "port_text p \<longleftrightarrow> CHR '':'' \<notin> set p \<and> CHR ''['' \<notin> set p \<and> CHR '']'' \<notin> set p"

definition host_text :: "string \<Rightarrow> bool" where
  "host_text h \<longleftrightarrow> CHR ''['' \<notin> set h \<and> CHR '']'' \<notin> set h"

lemma split_join_plain:
  assumes "host_text h" "port_text p" "CHR '':'' \<notin> set h"
  shows "split_host_port (h @ '':'' @ p) = Some (h, p)"
proof -
  have "last_index_byte (h @ CHR '':'' # p) (CHR '':'') = Some (length h)"
    using assms(2) by (simp add: last_index_byte_split port_text_def)
  moreover have "(h @ CHR '':'' # p) ! 0 \<noteq> CHR ''[''"
    using assms(1) by (cases h) (auto simp: host_text_def)
  ultimately show ?thesis
    using assms by (simp add: split_host_port_def split_check_def byte_simps host_text_def port_text_def)
qed

lemma split_join_bracketed:
  assumes "host_text h" "port_text p"
  shows "split_host_port (''['' @ h @ '']:'' @ p) = Some (h, p)"
proof -
  let ?hp = "(CHR ''['' # h) @ CHR '']'' # CHR '':'' # p"
  have "last_index_byte ((CHR ''['' # h @ [CHR '']'']) @ CHR '':'' # p) (CHR '':'') = Some (Suc (Suc (length h)))"
    using assms(2) by (subst last_index_byte_split) (simp_all add: port_text_def)
  moreover have "index_byte ?hp (CHR '']'') = Some (Suc (length h))"
    using assms(1) by (subst index_byte_split) (simp_all add: host_text_def)
  ultimately show ?thesis
    using assms by (simp add: split_host_port_def split_check_def byte_simps host_text_def port_text_def)
qed

lemma split_join_host_port:
  "host_text h \<Longrightarrow> port_text p \<Longrightarrow> split_host_port (join_host_port h p) = Some (h, p)"
  by (simp add: join_host_port_def index_byte_None split_join_plain [simplified]
      split_join_bracketed [simplified])

end
