(* ===== verification/Grpc_Types.thy ===== *)
theory Grpc_Types
  imports Go_Strings
begin

text \<open>
  What the program sees of the grpc library and of \<^verbatim>\<open>context\<close>: status codes, error values,
  request contexts, server streams, and the record \<open>grpc_api\<close> of the library functions the code
  calls. The library is not part of the repository, so its functions are parameters; what the
  code relies on of their documented behaviour is stated as predicates (\<open>status_laws\<close>,
  \<open>md_laws\<close>) that theorems take as hypotheses. Metadata is an abstract type \<open>'md\<close> with the
  operations of \<^verbatim>\<open>metadata.MD\<close> in that record.
\<close>

section \<open>Status codes and errors\<close>

datatype code =
    OK | Canceled | Unknown | InvalidArgument | DeadlineExceeded | NotFound | AlreadyExists
  | PermissionDenied | ResourceExhausted | FailedPrecondition | Aborted | OutOfRange
  | Unimplemented | Internal | Unavailable | DataLoss | Unauthenticated | CodeNumber nat

datatype ctx_err = CtxCanceled | CtxDeadlineExceeded

text \<open>
  A non-nil Go error: one made by \<^verbatim>\<open>status.Error(code, msg)\<close>, one made by \<^verbatim>\<open>fmt.Errorf\<close> with a
  constant text or wrapping another with \<^verbatim>\<open>%w\<close>, the error of a finished context, or an error of
  code outside the repository, known by an identity and the text its \<^verbatim>\<open>Error\<close> method returns. A nil
  error is \<^const>\<open>None\<close>.
\<close>

datatype goerror =
    StatusError code string
  | ErrorText string
  | WrapError string goerror
  | ContextError ctx_err
  | ForeignError nat string

type_synonym 'a fallible = "'a \<times> goerror option"

section \<open>Contexts\<close>

datatype ctx_key = RequestIDKey | TokenKey | OtherKey nat

datatype ctx_val = StringValue string | OtherValue nat

text \<open>
  A context, by what the code reads of it: incoming and outgoing metadata, the peer
  (\<^term>\<open>Some None\<close> is a peer whose address is nil; an address is its \<^verbatim>\<open>String()\<close>), the values
  stored under keys, its deadline, and the instant and error with which it is going to finish,
  if it ever does.
\<close>

record 'md ctx =
  incoming_md :: "'md option"
  outgoing_md :: "'md option"
  peer_addr :: "string option option"
  ctx_values :: "ctx_key \<Rightarrow> ctx_val option"
  ctx_deadline :: "int option"
  done_at :: "(int \<times> ctx_err) option"

definition with_value :: "'md ctx \<Rightarrow> ctx_key \<Rightarrow> ctx_val \<Rightarrow> 'md ctx" where
  "with_value c k v = c\<lparr>ctx_values := (ctx_values c)(k := Some v)\<rparr>"

definition string_value :: "'md ctx \<Rightarrow> ctx_key \<Rightarrow> string option" where
  \<comment> \<open>the comma-ok assertion \<^verbatim>\<open>ctx.Value(key).(string)\<close>\<close>
  "string_value c k = (case ctx_values c k of Some (StringValue s) \<Rightarrow> Some s | _ \<Rightarrow> None)"

definition earlier :: "(int \<times> ctx_err) option \<Rightarrow> int \<times> ctx_err \<Rightarrow> int \<times> ctx_err" where
  "earlier d e = (case d of None \<Rightarrow> e | Some d' \<Rightarrow> if fst d' \<le> fst e then d' else e)"

text \<open>\<^verbatim>\<open>context.WithTimeout\<close> at time \<open>now\<close>: a parent deadline that comes first is kept.\<close>

definition with_timeout :: "'md ctx \<Rightarrow> int \<Rightarrow> int \<Rightarrow> 'md ctx" where
  "with_timeout c now d =
     (case ctx_deadline c of
        Some t \<Rightarrow> if t < now + d then c
                  else c\<lparr>ctx_deadline := Some (now + d),
                         done_at := Some (earlier (done_at c) (now + d, CtxDeadlineExceeded))\<rparr>
      | None \<Rightarrow> c\<lparr>ctx_deadline := Some (now + d),
                  done_at := Some (earlier (done_at c) (now + d, CtxDeadlineExceeded))\<rparr>)"

lemma ctx_value_simps [simp]:
  "incoming_md (with_value c k v) = incoming_md c"
  "outgoing_md (with_value c k v) = outgoing_md c"
  "peer_addr (with_value c k v) = peer_addr c"
  "ctx_deadline (with_value c k v) = ctx_deadline c"
  "done_at (with_value c k v) = done_at c"
  "string_value (with_value c k (StringValue s)) k = Some s"
  "k' \<noteq> k \<Longrightarrow> string_value (with_value c k v) k' = string_value c k'"
  by (simp_all add: with_value_def string_value_def)

section \<open>The library's functions\<close>

record 'md grpc_api =
  from_error :: "goerror option \<Rightarrow> (code \<times> string) \<times> bool"  \<comment> \<open>\<^verbatim>\<open>status.FromError\<close>\<close>
  status_text :: "code \<Rightarrow> string \<Rightarrow> string"                 \<comment> \<open>\<^verbatim>\<open>Error()\<close> of a status error\<close>
  code_text :: "code \<Rightarrow> string"                              \<comment> \<open>\<^verbatim>\<open>codes.Code.String\<close>\<close>
  md_new :: 'md                                               \<comment> \<open>\<^verbatim>\<open>metadata.New(nil)\<close>\<close>
  md_get :: "'md \<Rightarrow> string \<Rightarrow> string list"
  md_copy :: "'md \<Rightarrow> 'md"
  md_set :: "'md \<Rightarrow> string \<Rightarrow> string list \<Rightarrow> 'md"

definition status_code :: "('md, 'b) grpc_api_scheme \<Rightarrow> goerror option \<Rightarrow> code" where
  \<comment> \<open>\<^verbatim>\<open>status.Code\<close>, the code of \<^verbatim>\<open>status.FromError\<close>\<close>
  "status_code G e = fst (fst (from_error G e))"

text \<open>The documentation of \<^verbatim>\<open>status.FromError\<close>: a nil error has code OK and a status error gives
  back what it was made of.\<close>

definition status_laws :: "('md, 'b) grpc_api_scheme \<Rightarrow> bool" where
  "status_laws G \<longleftrightarrow>
     status_code G None = OK \<and>
     (\<forall>c m. from_error G (Some (StatusError c m)) = ((c, m), True))"

text \<open>The documentation of \<^verbatim>\<open>metadata.MD\<close>, for the lower-case keys the code uses.\<close>

definition md_laws :: "('md, 'b) grpc_api_scheme \<Rightarrow> bool" where
  "md_laws G \<longleftrightarrow>
     (\<forall>k. md_get G (md_new G) k = []) \<and>
     (\<forall>m k. md_get G (md_copy G m) k = md_get G m k) \<and>
     (\<forall>m k vs k'. md_get G (md_set G m k vs) k' = (if k' = k then vs else md_get G m k'))"

lemma md_laws_get:
  assumes "md_laws G"
  shows "md_get G (md_new G) k = []"
    and "md_get G (md_copy G m) k = md_get G m k"
    and "md_get G (md_set G m k vs) k' = (if k' = k then vs else md_get G m k')"
  using assms by (auto simp: md_laws_def)

fun ctx_err_text :: "ctx_err \<Rightarrow> string" where
  "ctx_err_text CtxCanceled = ''context canceled''"
| "ctx_err_text CtxDeadlineExceeded = ''context deadline exceeded''"

fun error_text :: "('md, 'b) grpc_api_scheme \<Rightarrow> goerror \<Rightarrow> string" where
  "error_text G (StatusError c m) = status_text G c m"
| "error_text G (ErrorText s) = s"
| "error_text G (WrapError s e) = s @ error_text G e"
| "error_text G (ContextError e) = ctx_err_text e"
| "error_text G (ForeignError i s) = s"

section \<open>Server streams\<close>

text \<open>The streams a stream interceptor can hand on: the transport's, or a
  \<^verbatim>\<open>wrappedServerStream\<close>, which embeds a stream and overrides its context.\<close>

datatype 'md server_stream =
    TransportStream nat "'md ctx"
  | WrappedServerStream "'md server_stream" "'md ctx"

fun Context :: "'md server_stream \<Rightarrow> 'md ctx" where
  "Context (TransportStream i c) = c"
| "Context (WrappedServerStream ss c) = c"

fun transport_of :: "'md server_stream \<Rightarrow> nat" where
  \<comment> \<open>every other method of a wrapped stream is the embedded stream's\<close>
  "transport_of (TransportStream i c) = i"
| "transport_of (WrappedServerStream ss c) = transport_of ss"

section \<open>A concrete library, to instantiate the parameters in witnesses\<close>

definition sample_from_error :: "goerror option \<Rightarrow> (code \<times> string) \<times> bool" where
  "sample_from_error e =
     (case e of None \<Rightarrow> ((OK, []), True)
      | Some (StatusError c m) \<Rightarrow> ((c, m), True)
      | _ \<Rightarrow> ((Unknown, ''unknown''), False))"

definition sample_api :: "(string \<Rightarrow> string list) grpc_api" where
  "sample_api = \<lparr>from_error = sample_from_error, status_text = (\<lambda>c m. m), code_text = (\<lambda>c. ''code''),
     md_new = (\<lambda>k. []), md_get = (\<lambda>m. m), md_copy = (\<lambda>m. m), md_set = (\<lambda>m k vs. m(k := vs))\<rparr>"

definition sample_ctx :: "(string \<Rightarrow> string list) ctx" where
  "sample_ctx = \<lparr>incoming_md = None, outgoing_md = None, peer_addr = None,
     ctx_values = (\<lambda>k. None), ctx_deadline = None, done_at = None\<rparr>"

lemma sample_api_laws: "status_laws sample_api" "md_laws sample_api"
  by (simp_all add: status_laws_def md_laws_def status_code_def sample_api_def sample_from_error_def)

end
