(* ===== verification/Logging_Pkg.thy ===== *)
theory Logging_Pkg
  imports Grpc_Types
begin

text \<open>
  The package \<^verbatim>\<open>internal/logging\<close>: the \<^verbatim>\<open>Handler\<close> interface, the process-wide default handler
  (\<^verbatim>\<open>Default\<close>, \<^verbatim>\<open>SetDefault\<close>), the nil-safe \<^verbatim>\<open>Resolve\<close> and the slog-backed handler; and the part
  of the process state every component shares: the default handler, the calls made on
  handlers in order, the clock, the scheduler's choices and the entropy source.
\<close>

section \<open>Levels and handlers\<close>

datatype level = LevelDebug | LevelInfo | LevelWarn | LevelError

fun severity :: "level \<Rightarrow> int" where
  \<comment> \<open>the numeric levels of \<^verbatim>\<open>log/slog\<close>\<close>
  "severity LevelDebug = -4"
| "severity LevelInfo = 0"
| "severity LevelWarn = 4"
| "severity LevelError = 8"

lemma severity_inject: "severity a = severity b \<Longrightarrow> a = b"
  by (cases a; cases b) auto

instantiation level :: linorder
begin

definition less_eq_level :: "level \<Rightarrow> level \<Rightarrow> bool" where
  "less_eq_level a b \<longleftrightarrow> severity a \<le> severity b"

definition less_level :: "level \<Rightarrow> level \<Rightarrow> bool" where
  "less_level a b \<longleftrightarrow> severity a < severity b"

instance
  by standard (auto simp: less_eq_level_def less_level_def intro: severity_inject)

end

datatype log_arg =
    ArgString string | ArgInt int | ArgDuration int | ArgError goerror
  | ArgPanic panic_val | ArgStack

datatype log_handler = SlogHandler | UserHandler nat

datatype log_sink = ToSlog | ToUser nat

record log_record =
  log_sink :: log_sink
  log_level :: level
  log_msg :: string
  log_args :: "log_arg list"

text \<open>
  The state shared by every component. The clock is in nanoseconds. \<open>sched\<close> holds the
  scheduler's future choices, a wake-up delay and a coin for each \<^verbatim>\<open>select\<close>; \<open>entropy\<close> and
  \<open>rand_src\<close> are what \<^verbatim>\<open>crypto/rand\<close> and \<^verbatim>\<open>math/rand/v2\<close> are going to deliver. Theorems hold for all
  of their values. \<open>headers_set\<close> and \<open>sent_msgs\<close> are what the library has been given to send, and \<open>objects\<close>
  are the response messages that the generated client lets the library fill in.
\<close>

record process =
  default_handler :: log_handler
  log_trace :: "log_record list"
  now :: int
  sched :: "nat \<Rightarrow> nat \<times> bool"
  entropy :: "nat \<Rightarrow> 8 word"
  rand_src :: "nat \<Rightarrow> int"
  headers_set :: "(string \<times> string) list list"
  objects :: "string list"                   \<comment> \<open>message objects by address\<close>
  sent_msgs :: "(nat \<times> string) list"        \<comment> \<open>messages streams have accepted, with the stream\<close>

section \<open>The package's functions\<close>

definition Default :: "('a process_scheme, log_handler) comp" where
  "Default = getc default_handler"

definition SetDefault :: "log_handler option \<Rightarrow> ('a process_scheme, unit) comp" where
  "SetDefault h =
     (case h of
        None \<Rightarrow> panicc (PanicString ''logging: SetDefault called with nil Handler'')
      | Some h' \<Rightarrow> modifyc (default_handler_update (\<lambda>_. h')))"

definition Resolve :: "log_handler option \<Rightarrow> ('a process_scheme, log_handler) comp" where
  "Resolve l = (case l of Some h \<Rightarrow> ret h | None \<Rightarrow> Default)"

definition emit :: "log_sink \<Rightarrow> level \<Rightarrow> string \<Rightarrow> log_arg list \<Rightarrow> ('a process_scheme, unit) comp" where
  "emit s lv msg args = modifyc (log_trace_update (\<lambda>t. t @ [\<lparr>log_sink = s, log_level = lv, log_msg = msg, log_args = args\<rparr>]))"

definition slog_debug :: "string \<Rightarrow> log_arg list \<Rightarrow> ('a process_scheme, unit) comp" where
  "slog_debug msg args = emit ToSlog LevelDebug msg args"

definition slog_info :: "string \<Rightarrow> log_arg list \<Rightarrow> ('a process_scheme, unit) comp" where
  "slog_info msg args = emit ToSlog LevelInfo msg args"

definition slog_warn :: "string \<Rightarrow> log_arg list \<Rightarrow> ('a process_scheme, unit) comp" where
  "slog_warn msg args = emit ToSlog LevelWarn msg args"

definition slog_error :: "string \<Rightarrow> log_arg list \<Rightarrow> ('a process_scheme, unit) comp" where
  "slog_error msg args = emit ToSlog LevelError msg args"

text \<open>A call of a method of a \<^verbatim>\<open>Handler\<close> value: the slog-backed handler's own methods, or a call of
  the user's implementation, of which the call itself is recorded.\<close>

fun log_call :: "log_handler \<Rightarrow> level \<Rightarrow> string \<Rightarrow> log_arg list \<Rightarrow> ('a process_scheme, unit) comp" where
  "log_call SlogHandler LevelDebug = slog_debug"
| "log_call SlogHandler LevelInfo = slog_info"
| "log_call SlogHandler LevelWarn = slog_warn"
| "log_call SlogHandler LevelError = slog_error"
| "log_call (UserHandler i) lv = emit (ToUser i) lv"

fun sink_of :: "log_handler \<Rightarrow> log_sink" where
  "sink_of SlogHandler = ToSlog"
| "sink_of (UserHandler i) = ToUser i"

lemma log_call_apply [comp_simps]:
  "log_call h lv msg args w =
     (Ret (), w\<lparr>log_trace := log_trace w @ [\<lparr>log_sink = sink_of h, log_level = lv, log_msg = msg, log_args = args\<rparr>]\<rparr>)"
  by (cases h; cases lv)
    (simp_all add: emit_def slog_debug_def slog_info_def slog_warn_def slog_error_def comp_simps)

lemma seqc_log_calls:
  "seqc (map (\<lambda>x. log_call l lv msg (f x)) xs) w =
     (Ret (), w\<lparr>log_trace := log_trace w @ map (\<lambda>x. \<lparr>log_sink = sink_of l, log_level = lv, log_msg = msg, log_args = f x\<rparr>) xs\<rparr>)"
  by (induction xs arbitrary: w) (simp_all add: comp_simps)

definition resolved :: "log_handler option \<Rightarrow> 'a process_scheme \<Rightarrow> log_handler" where
  "resolved l w = (case l of Some h \<Rightarrow> h | None \<Rightarrow> default_handler w)"

lemma Resolve_apply [comp_simps]: "Resolve l w = (Ret (resolved l w), w)"
  by (simp add: Resolve_def Default_def resolved_def comp_simps split: option.splits)

section \<open>Time and selects\<close>

definition time_now :: "('a process_scheme, int) comp" where
  "time_now = getc now"

text \<open>
  A \<^verbatim>\<open>select\<close> between a timer of duration \<open>d\<close> and a context's \<^verbatim>\<open>Done\<close> channel: the goroutine wakes
  some delay after the first of them is ready, and where both are ready by then the choice is
  the scheduler's. The result is \<^const>\<open>True\<close> when the timer's branch is taken.
\<close>

definition select_timer_done :: "int \<Rightarrow> int option \<Rightarrow> ('a process_scheme, bool) comp" where
  "select_timer_done d td = (\<lambda>w.
     let delay = int (fst (sched w 0)); coin = snd (sched w 0);
         fire = now w + max 0 d;
         first = (case td of None \<Rightarrow> fire | Some t \<Rightarrow> min fire t);
         wake = max (now w) first + delay;
         timer_ready = (fire \<le> wake);
         done_ready = (case td of None \<Rightarrow> False | Some t \<Rightarrow> t \<le> wake);
         taken = (if timer_ready \<and> done_ready then coin else timer_ready)
     in (Ret taken, w\<lparr>now := wake, sched := (\<lambda>i. sched w (Suc i))\<rparr>))"

lemma select_timer_fired:
  "select_timer_done d td w = (Ret True, w') \<Longrightarrow> now w + max 0 d \<le> now w'"
  by (cases td) (auto simp: select_timer_done_def Let_def split: if_splits)

lemma select_timer_cancelled:
  "select_timer_done d td w = (Ret False, w') \<Longrightarrow> \<exists>t. td = Some t \<and> t \<le> now w'"
  by (cases td) (auto simp: select_timer_done_def Let_def split: if_splits)

lemma select_timer_done_only_clock:
  "select_timer_done d td w = (o', w') \<Longrightarrow>
     \<exists>t s. w' = w\<lparr>now := t, sched := s\<rparr> \<and> now w \<le> t \<and> (\<exists>b. o' = Ret b)"
  by (auto simp: select_timer_done_def Let_def)

lemma select_timer_never_done: "select_timer_done d None w = (o', w') \<Longrightarrow> o' = Ret True"
  by (auto simp: select_timer_done_def Let_def)

section \<open>Properties of the package\<close>

lemma SetDefault_Default:
  "snd (SetDefault (Some h) w) = w' \<Longrightarrow> Default w' = (Ret h, w')"
  by (auto simp: SetDefault_def Default_def comp_simps)

lemma SetDefault_nil_keeps: "snd (SetDefault None w) = w"
  by (simp add: SetDefault_def comp_simps)

end
