(* ===== verification/Keyed_Service.thy ===== *)
theory Keyed_Service
  imports Main
begin

text \<open>
  The interface between a rate limiter and the interceptors that consult it: a service that
  answers requests for keys. The contract \<open>keyed_service\<close> says that what a key is answered
  depends on a view of the state that only its own requests change; \<open>evicting_service\<close> extends
  it with an eviction of keys that have been idle.
\<close>

section \<open>Runs\<close>

fun decisions :: "('s \<Rightarrow> 'k \<Rightarrow> 't \<Rightarrow> bool \<times> 's) \<Rightarrow> 's \<Rightarrow> ('k \<times> 't) list \<Rightarrow> ('k \<times> bool) list" where
  "decisions serve s [] = []"
| "decisions serve s ((k, t) # rs) =
     (k, fst (serve s k t)) # decisions serve (snd (serve s k t)) rs"

fun solo :: "('v \<Rightarrow> 't \<Rightarrow> bool \<times> 'v) \<Rightarrow> 'v \<Rightarrow> 't list \<Rightarrow> bool list" where
  "solo vserve v [] = []"
| "solo vserve v (t # ts) = fst (vserve v t) # solo vserve (snd (vserve v t)) ts"

definition answers :: "'k \<Rightarrow> ('k \<times> bool) list \<Rightarrow> bool list" where
  "answers k ds = map snd (filter (\<lambda>d. fst d = k) ds)"

definition requests :: "'k \<Rightarrow> ('k \<times> 't) list \<Rightarrow> 't list" where
  "requests k rs = map snd (filter (\<lambda>r. fst r = k) rs)"

lemma answers_simps [simp]:
  "answers k [] = []" "answers k ((k', b) # ds) = (if k' = k then b # answers k ds else answers k ds)"
  by (simp_all add: answers_def)

lemma requests_simps [simp]:
  "requests k [] = []" "requests k ((k', t) # rs) = (if k' = k then t # requests k rs else requests k rs)"
  by (simp_all add: requests_def)

datatype ('k, 't, 'x) service_event = Request 'k 't | Evict 't 'x

fun event_time :: "('k, 't, 'x) service_event \<Rightarrow> 't" where
  "event_time (Request k t) = t"
| "event_time (Evict t x) = t"

fun ordered_from :: "'t :: linorder \<Rightarrow> ('k, 't, 'x) service_event list \<Rightarrow> bool" where
  "ordered_from t0 [] = True"
| "ordered_from t0 (e # es) = (t0 \<le> event_time e \<and> ordered_from (event_time e) es)"

fun event_decisions ::
  "('s \<Rightarrow> 'k \<Rightarrow> 't \<Rightarrow> bool \<times> 's) \<Rightarrow> ('s \<Rightarrow> 't \<Rightarrow> 'x \<Rightarrow> 's) \<Rightarrow> 's \<Rightarrow> ('k, 't, 'x) service_event list \<Rightarrow> ('k \<times> bool) list" where
  "event_decisions serve evict s [] = []"
| "event_decisions serve evict s (Request k t # es) =
     (k, fst (serve s k t)) # event_decisions serve evict (snd (serve s k t)) es"
| "event_decisions serve evict s (Evict t x # es) = event_decisions serve evict (evict s t x) es"

section \<open>Services that keep keys apart\<close>

locale keyed_service =
  fixes serve :: "'s \<Rightarrow> 'k \<Rightarrow> 't \<Rightarrow> bool \<times> 's"
    and view :: "'s \<Rightarrow> 'k \<Rightarrow> 'v"
    and vserve :: "'v \<Rightarrow> 't \<Rightarrow> bool \<times> 'v"
    and inv :: "'s \<Rightarrow> bool"
  assumes inv_serve: "inv s \<Longrightarrow> inv (snd (serve s k t))"
    and own_answer: "inv s \<Longrightarrow> fst (serve s k t) = fst (vserve (view s k) t)"
    and own_view: "inv s \<Longrightarrow> view (snd (serve s k t)) k = snd (vserve (view s k) t)"
    and other_view: "inv s \<Longrightarrow> k' \<noteq> k \<Longrightarrow> view (snd (serve s k t)) k' = view s k'"
begin

lemmas serve_laws = inv_serve own_answer own_view other_view

lemma isolation:
  "inv s \<Longrightarrow> answers k (decisions serve s rs) = solo vserve (view s k) (requests k rs)"
proof (induction rs arbitrary: s)
  case Nil
  show ?case by simp
next
  case (Cons r rs)
  obtain k' t where r: "r = (k', t)" by (cases r)
  have IH: "answers k (decisions serve (snd (serve s k' t)) rs)
              = solo vserve (view (snd (serve s k' t)) k) (requests k rs)"
    by (rule Cons.IH) (rule inv_serve [OF Cons.prems])
  show ?case
    by (cases "k' = k") (use IH Cons.prems in \<open>simp_all add: r serve_laws\<close>)
qed

end

section \<open>Services that evict idle keys\<close>

locale evicting_service = keyed_service serve view vserve inv
  for serve :: "'s \<Rightarrow> 'k \<Rightarrow> 't :: linorder \<Rightarrow> bool \<times> 's"
    and view :: "'s \<Rightarrow> 'k \<Rightarrow> 'v" and vserve :: "'v \<Rightarrow> 't \<Rightarrow> bool \<times> 'v" and inv :: "'s \<Rightarrow> bool" +
  fixes evict :: "'s \<Rightarrow> 't \<Rightarrow> 'x \<Rightarrow> 's"
    and upto :: "'t \<Rightarrow> 's \<Rightarrow> bool"
    and fresh :: 'v
    and stale :: "'v \<Rightarrow> 't \<Rightarrow> bool"
  assumes upto_serve: "inv s \<Longrightarrow> upto t0 s \<Longrightarrow> t0 \<le> t \<Longrightarrow> upto t (snd (serve s k t))"
    and upto_evict: "inv s \<Longrightarrow> upto t0 s \<Longrightarrow> t0 \<le> t \<Longrightarrow> upto t (evict s t x)"
    and inv_evict: "inv s \<Longrightarrow> inv (evict s t x)"
    and evict_view: "inv s \<Longrightarrow> upto t0 s \<Longrightarrow> t0 \<le> t \<Longrightarrow>
          view (evict s t x) k = view s k \<or> view (evict s t x) k = fresh \<and> stale (view s k) t"
begin

lemma eviction_transparent:
  assumes forgets: "\<And>v t ts. stale v t \<Longrightarrow> \<forall>t' \<in> set ts. t \<le> t' \<Longrightarrow> solo vserve v ts = solo vserve fresh ts"
  shows "inv s \<Longrightarrow> upto t0 s \<Longrightarrow> inv a \<Longrightarrow> ordered_from t0 es \<Longrightarrow>
     (\<And>k ts. \<forall>t \<in> set ts. t0 \<le> t \<Longrightarrow> solo vserve (view a k) ts = solo vserve (view s k) ts) \<Longrightarrow>
     event_decisions serve evict s es = event_decisions serve (\<lambda>s t x. s) a es"
proof (induction es arbitrary: s a t0)
  case Nil
  show ?case by simp
next
  case (Cons e es)
  note same = Cons.prems(5)
  show ?case
  proof (cases e)
    case (Request k t)
    with Cons.prems(4) have t: "t0 \<le> t" and later: "ordered_from t es" by simp_all
    have head: "fst (vserve (view a k) t) = fst (vserve (view s k) t)"
      using same [of "[t]" k] t by simp
    have tail: "solo vserve (view (snd (serve a k t)) k') ts = solo vserve (view (snd (serve s k t)) k') ts"
      if ts: "\<forall>t' \<in> set ts. t \<le> t'" for k' ts
    proof (cases "k' = k")
      case True
      have "\<forall>t' \<in> set (t # ts). t0 \<le> t'" using t ts by auto
      then show ?thesis
        using same [of "t # ts" k] Cons.prems(1,3) True by (simp add: serve_laws)
    next
      case False
      have "\<forall>t' \<in> set ts. t0 \<le> t'" using t ts by auto
      then show ?thesis using same [of ts k'] Cons.prems(1,3) False by (simp add: serve_laws)
    qed
    have "event_decisions serve evict (snd (serve s k t)) es
        = event_decisions serve (\<lambda>s t x. s) (snd (serve a k t)) es"
      using Cons.prems t by (intro Cons.IH [of _ t] later inv_serve upto_serve tail) auto
    then show ?thesis using head Cons.prems(1,3) by (simp add: Request serve_laws)
  next
    case (Evict t x)
    with Cons.prems(4) have t: "t0 \<le> t" and later: "ordered_from t es" by simp_all
    have "solo vserve (view a k) ts = solo vserve (view (evict s t x) k) ts"
      if ts: "\<forall>t' \<in> set ts. t \<le> t'" for k ts
    proof -
      have "\<forall>t' \<in> set ts. t0 \<le> t'" using t ts by auto
      then have "solo vserve (view a k) ts = solo vserve (view s k) ts" by (rule same)
      then show ?thesis
        using evict_view [OF Cons.prems(1,2) t, of x k] forgets [OF _ ts] by auto
    qed
    then show ?thesis
      using Cons.prems t
      by (simp add: Evict) (intro Cons.IH [of _ t] later inv_evict upto_evict, auto)
  qed
qed

end

end
