(* ===== verification/Rate_Limiter.thy ===== *)
theory Rate_Limiter
  imports Complex_Main Go_Runtime Keyed_Service
begin

text \<open>
  \<^verbatim>\<open>MemoryRateLimiter\<close> of \<^verbatim>\<open>internal/server/interceptor/rate_limit.go\<close>: the map from peer keys to
  token buckets (\<^verbatim>\<open>peerLimiters\<close>), \<^verbatim>\<open>Allow\<close>, \<^verbatim>\<open>getLimiter\<close>, \<^verbatim>\<open>cleanup\<close>, \<^verbatim>\<open>Stop\<close> and the constructor.

  A bucket is a \<^verbatim>\<open>*rate.Limiter\<close> of \<^verbatim>\<open>golang.org/x/time/rate\<close>, which is not part of the repository.
  It is represented by what determines its answers: the limit and burst it was made with and
  the instants of the \<^verbatim>\<open>Allow\<close> calls made on it so far. Its decision is the parameter \<open>f\<close>, a
  function of these and the instant of the call.

  The locale \<open>keyed_service\<close> is the contract of a per-key service; the last section
  interprets it on the model of \<^verbatim>\<open>Allow\<close>.
\<close>

section \<open>Data\<close>

text \<open>A \<^verbatim>\<open>float64\<close>, as far as comparisons with zero go: a comparison with NaN is false.\<close>

datatype float64 = Finite rat | PosInf | NegInf | NaN

fun flt_pos :: "float64 \<Rightarrow> bool" where
  \<comment> \<open>\<^verbatim>\<open>x > 0\<close>\<close>
  "flt_pos (Finite x) = (x > 0)"
| "flt_pos PosInf = True"
| "flt_pos NegInf = False"
| "flt_pos NaN = False"

fun flt_le0 :: "float64 \<Rightarrow> bool" where
  \<comment> \<open>\<^verbatim>\<open>x <= 0\<close>\<close>
  "flt_le0 (Finite x) = (x \<le> 0)"
| "flt_le0 PosInf = False"
| "flt_le0 NegInf = True"
| "flt_le0 NaN = False"

type_synonym bucket_fn = "float64 \<Rightarrow> int \<Rightarrow> int list \<Rightarrow> int \<Rightarrow> bool"

record bucket =
  bucket_rate :: float64
  bucket_burst :: int
  bucket_calls :: "int list"

record limiter_entry =
  limiter :: nat     \<comment> \<open>the pointer to the bucket, an index of the heap\<close>
  last_seen :: int

record peer_limiters =
  entries :: "string \<Rightarrow> limiter_entry option"

datatype cleanup_loop = NoLoop | Spawned | Looping | LoopExited | LoopCrashed

record mem_limiter =
  limiters :: peer_limiters
  ml_rate :: float64
  ml_burst :: int
  ml_ttl :: int
  stop_closed :: bool       \<comment> \<open>the channel \<^verbatim>\<open>cleanupStop\<close> has been closed\<close>
  stop_once :: bool         \<comment> \<open>\<^verbatim>\<open>stopOnce\<close> has run\<close>
  loop :: cleanup_loop      \<comment> \<open>the goroutine started by the constructor\<close>
  heap :: "bucket list"     \<comment> \<open>the buckets allocated so far, by pointer\<close>

section \<open>Operations\<close>

definition NewMemoryRateLimiter :: "float64 \<Rightarrow> int \<Rightarrow> int \<Rightarrow> mem_limiter" where
  "NewMemoryRateLimiter rps burst ttl =
     (let ttl' = (if ttl \<le> 0 then 10 * minute else ttl)
      in \<lparr>limiters = \<lparr>entries = (\<lambda>k. None)\<rparr>, ml_rate = rps, ml_burst = burst, ml_ttl = ttl',
          stop_closed = False, stop_once = False,
          loop = (if flt_pos rps then Spawned else NoLoop), heap = []\<rparr>)"

text \<open>\<^verbatim>\<open>getLimiter\<close> at instant \<open>t\<close>: the pointer of the key's bucket, the table and the heap after.\<close>

definition getLimiter ::
  "int \<Rightarrow> string \<Rightarrow> float64 \<Rightarrow> int \<Rightarrow> peer_limiters \<Rightarrow> bucket list \<Rightarrow> nat \<times> peer_limiters \<times> bucket list" where
  "getLimiter t key r burst p h =
     (case entries p key of
        Some e \<Rightarrow> (limiter e, p\<lparr>entries := (entries p)(key := Some (e\<lparr>last_seen := t\<rparr>))\<rparr>, h)
      | None \<Rightarrow>
          (let ptr = length h;
               h' = h @ [\<lparr>bucket_rate = r, bucket_burst = burst, bucket_calls = []\<rparr>]
           in (ptr, p\<lparr>entries := (entries p)(key := Some \<lparr>limiter = ptr, last_seen = t\<rparr>)\<rparr>, h')))"

text \<open>\<^verbatim>\<open>limiter.Allow()\<close> on the bucket a pointer refers to.\<close>

definition bucket_allow :: "bucket_fn \<Rightarrow> int \<Rightarrow> nat \<Rightarrow> bucket list \<Rightarrow> bool \<times> bucket list" where
  "bucket_allow f t ptr h =
     (let b = h ! ptr
      in (f (bucket_rate b) (bucket_burst b) (bucket_calls b) t,
          h[ptr := b\<lparr>bucket_calls := bucket_calls b @ [t]\<rparr>]))"

definition mem_allow :: "bucket_fn \<Rightarrow> mem_limiter \<Rightarrow> string \<Rightarrow> int \<Rightarrow> bool \<times> mem_limiter" where
  "mem_allow f m key t =
     (if flt_le0 (ml_rate m) then (True, m)
      else
        (case getLimiter t key (ml_rate m) (ml_burst m) (limiters m) (heap m) of (ptr, p, h) \<Rightarrow>
           (case bucket_allow f t ptr h of (b, h') \<Rightarrow> (b, m\<lparr>limiters := p, heap := h'\<rparr>))))"

text \<open>\<^verbatim>\<open>Stop\<close>: the outer option is the run-time panic of closing a closed channel.\<close>

definition mem_stop :: "mem_limiter \<Rightarrow> mem_limiter option" where
  "mem_stop m =
     (if stop_once m then Some m
      else if stop_closed m then None
      else Some (m\<lparr>stop_once := True, stop_closed := True\<rparr>))"

text \<open>
  \<^verbatim>\<open>cleanup\<close> at instant \<open>t\<close>. Go ranges over a map in an unspecified order, here the list \<open>ks\<close>,
  and the body may delete the key it is at.
\<close>

fun cleanup_range :: "int \<Rightarrow> string list \<Rightarrow> (string \<Rightarrow> limiter_entry option) \<Rightarrow> (string \<Rightarrow> limiter_entry option)" where
  "cleanup_range cutoff [] es = es"
| "cleanup_range cutoff (k # ks) es =
     cleanup_range cutoff ks
       (case es k of
          Some e \<Rightarrow> if last_seen e < cutoff then es(k := None) else es
        | None \<Rightarrow> es)"

definition cleanup :: "int \<Rightarrow> int \<Rightarrow> string list \<Rightarrow> peer_limiters \<Rightarrow> peer_limiters" where
  "cleanup t ttl ks p = p\<lparr>entries := cleanup_range (t - ttl) ks (entries p)\<rparr>"

definition mem_cleanup :: "int \<Rightarrow> string list \<Rightarrow> mem_limiter \<Rightarrow> mem_limiter" where
  \<comment> \<open>the branch of the cleanup loop taken when the ticker fires\<close>
  "mem_cleanup t ks m = m\<lparr>limiters := cleanup t (ml_ttl m) ks (limiters m)\<rparr>"

definition ticker_interval :: "mem_limiter \<Rightarrow> int" where
  \<comment> \<open>the argument of \<^verbatim>\<open>time.NewTicker\<close>, which panics unless it is positive\<close>
  "ticker_interval m = go_div (ml_ttl m) 2"

section \<open>The cleanup\<close>

lemma cleanup_range_apply:
  "cleanup_range c ks es k =
     (case es k of Some e \<Rightarrow> if k \<in> set ks \<and> last_seen e < c then None else Some e | None \<Rightarrow> None)"
  by (induction ks arbitrary: es) (auto split: option.splits)

section \<open>The constructor, the ticker and \<^verbatim>\<open>Stop\<close>\<close>

text \<open>The background loop is started exactly when \<^verbatim>\<open>Allow\<close> is going to keep buckets, except
  for a NaN rate, which keeps buckets that nothing ever reclaims; a stopped limiter can be
  stopped again without closing the channel twice.\<close>

theorem cleanup_loop_started:
  "(loop (NewMemoryRateLimiter rps burst ttl) = Spawned)
     = (rps \<noteq> NaN \<and> (\<exists>f key t. snd (mem_allow f (NewMemoryRateLimiter rps burst ttl) key t)
                              \<noteq> NewMemoryRateLimiter rps burst ttl))"
proof -
  let ?m = "NewMemoryRateLimiter rps burst ttl"
  have same: "snd (mem_allow f ?m key t) = ?m" if "flt_le0 rps" for f key t
    using that by (simp add: mem_allow_def NewMemoryRateLimiter_def Let_def)
  have new: "heap (snd (mem_allow f ?m key t)) \<noteq> heap ?m" if "\<not> flt_le0 rps" for f key t
    using that by (simp add: mem_allow_def NewMemoryRateLimiter_def getLimiter_def bucket_allow_def Let_def)
  have "(\<exists>f key t. snd (mem_allow f ?m key t) \<noteq> ?m) = (\<not> flt_le0 rps)"
    using same new by (metis (full_types))
  then show ?thesis
    by (cases rps) (auto simp: NewMemoryRateLimiter_def Let_def)
qed

text \<open>The interval handed to \<^verbatim>\<open>time.NewTicker\<close> is positive for every TTL but one nanosecond,
  where half of it is zero and the ticker panics.\<close>

lemma ticker_interval_positive:
  "0 < ticker_interval (NewMemoryRateLimiter rps burst ttl) \<longleftrightarrow> ttl \<noteq> 1"
proof -
  have "0 < ml_ttl (NewMemoryRateLimiter rps burst ttl)"
    by (simp add: NewMemoryRateLimiter_def Let_def)
  then have "ticker_interval (NewMemoryRateLimiter rps burst ttl) = ml_ttl (NewMemoryRateLimiter rps burst ttl) div 2"
    by (simp add: ticker_interval_def go_div_nonneg)
  then show ?thesis by (auto simp: NewMemoryRateLimiter_def Let_def)
qed

lemma mem_stop_idem:
  assumes "stop_once m = stop_closed m"
  obtains m' where "mem_stop m = Some m'" "mem_stop m' = Some m'" "stop_closed m'" "stop_once m' = stop_closed m'"
  using assms by (cases "stop_once m") (auto simp: mem_stop_def)

section \<open>The loop reclaims memory\<close>

text \<open>The state after \<open>n\<close> ticks of a loop that started at \<open>t0\<close>; \<open>ord i\<close> is the order of the
  \<open>i\<close>th iteration over the map.\<close>

fun after_ticks :: "int \<Rightarrow> (nat \<Rightarrow> string list) \<Rightarrow> nat \<Rightarrow> mem_limiter \<Rightarrow> mem_limiter" where
  "after_ticks t0 ord 0 m = m"
| "after_ticks t0 ord (Suc n) m =
     mem_cleanup (t0 + int (Suc n) * ticker_interval m) (ord (Suc n)) (after_ticks t0 ord n m)"

lemma after_ticks_ttl [simp]: "ml_ttl (after_ticks t0 ord n m) = ml_ttl m"
  by (induction n) (simp_all add: mem_cleanup_def)

lemma after_ticks_entries:
  assumes cover: "\<And>i. {k. entries (limiters m) k \<noteq> None} \<subseteq> set (ord i)" and pos: "0 \<le> ticker_interval m"
  shows "entries (limiters (after_ticks t0 ord n m)) k =
    (case entries (limiters m) k of
       Some e \<Rightarrow> if n = 0 \<or> t0 + int n * ticker_interval m - ml_ttl m \<le> last_seen e then Some e else None
     | None \<Rightarrow> None)"
proof (induction n)
  case 0
  show ?case by (simp split: option.splits)
next
  case (Suc n)
  have mono: "int n * ticker_interval m \<le> int (Suc n) * ticker_interval m"
    using pos by (intro mult_right_mono) auto
  have "k \<in> set (ord (Suc n))" if "entries (limiters m) k = Some e" for e
    using cover [of "Suc n"] that by auto
  then show ?case
    using Suc mono by (auto simp: mem_cleanup_def cleanup_def cleanup_range_apply split: option.splits)
qed

text \<open>With the ticker at half the TTL, an entry last seen at \<open>s\<close> is kept until \<open>s\<close> plus the TTL
  and is gone by \<open>s\<close> plus one and a half TTL.\<close>

theorem reclaimed_within:
  assumes ttl: "1 < ml_ttl m"
    and cover: "\<And>i. {k. entries (limiters m) k \<noteq> None} \<subseteq> set (ord i)"
    and e: "entries (limiters m) k = Some e" and started: "t0 \<le> last_seen e"
    and n: "n = nat ((T - t0) div ticker_interval m)"  \<comment> \<open>the ticks up to instant \<open>T\<close>\<close>
  shows "(T \<le> last_seen e + ml_ttl m \<longrightarrow> entries (limiters (after_ticks t0 ord n m)) k = Some e) \<and>
         (last_seen e + 3 * ml_ttl m div 2 \<le> T \<longrightarrow> entries (limiters (after_ticks t0 ord n m)) k = None)"
proof -
  let ?g = "ticker_interval m"
  have g: "?g = ml_ttl m div 2" using ttl by (simp add: ticker_interval_def go_div_nonneg)
  then have pos: "0 < ?g" using ttl by simp
  have step: "entries (limiters (after_ticks t0 ord n m)) k =
      (if n = 0 \<or> t0 + int n * ?g - ml_ttl m \<le> last_seen e then Some e else None)"
    using after_ticks_entries [OF cover less_imp_le [OF pos]] e by simp
  have prod: "int n * ?g = T - t0 - (T - t0) mod ?g" if "t0 \<le> T"
    using that pos by (simp add: n pos_imp_zdiv_nonneg_iff minus_mod_eq_div_mult)
  have low: "int n * ?g \<le> T - t0" if "t0 \<le> T"
    using prod [OF that] pos_mod_sign [OF pos, of "T - t0"] by linarith
  have high: "T - t0 - ?g < int n * ?g" if "t0 \<le> T"
    using prod [OF that] pos_mod_bound [OF pos, of "T - t0"] by linarith
  show ?thesis
  proof (intro conjI impI)
    assume T: "T \<le> last_seen e + ml_ttl m"
    show "entries (limiters (after_ticks t0 ord n m)) k = Some e"
    proof (cases "t0 \<le> T")
      case True
      then show ?thesis using step e T low by auto
    next
      case False
      then have "(T - t0) div ?g < 0" using pos by (intro div_neg_pos_less0) auto
      then have "n = 0" by (simp add: n)
      then show ?thesis using e by simp
    qed
  next
    assume T: "last_seen e + 3 * ml_ttl m div 2 \<le> T"
    have half: "3 * ml_ttl m div 2 = ml_ttl m + ?g" using g by presburger
    have le: "t0 \<le> T" and gap: "last_seen e + ml_ttl m + ?g \<le> T"
      using T started half ttl pos by auto
    have "n \<noteq> 0" using high [OF le] gap started ttl pos by (intro notI) simp
    then show "entries (limiters (after_ticks t0 ord n m)) k = None"
      using step e high [OF le] gap by simp
  qed
qed

theorem reclaimed_within_witness:
  "entries (limiters (after_ticks 0 (\<lambda>i. [''a'']) 3
      ((NewMemoryRateLimiter (Finite 1) 1 10)\<lparr>limiters := \<lparr>entries = [''a'' \<mapsto> \<lparr>limiter = 0, last_seen = 0\<rparr>]\<rparr>\<rparr>))) ''a'' = None"
proof -
  let ?m = "(NewMemoryRateLimiter (Finite 1) 1 10)\<lparr>limiters := \<lparr>entries = [''a'' \<mapsto> \<lparr>limiter = 0, last_seen = 0\<rparr>]\<rparr>\<rparr>"
  have m: "ml_ttl ?m = 10" "ticker_interval ?m = 5"
    by (simp_all add: NewMemoryRateLimiter_def ticker_interval_def go_div_def)
  show ?thesis
    using reclaimed_within [of ?m "\<lambda>i. [''a'']" "''a''" "\<lparr>limiter = 0, last_seen = 0\<rparr>" 0 3 15]
    by (simp add: m split: if_splits)
qed

section \<open>Keys are kept apart\<close>

definition bucket_view :: "mem_limiter \<Rightarrow> string \<Rightarrow> int list" where
  \<comment> \<open>the calls the key's bucket has seen; a key without an entry is about to get a new bucket\<close>
  "bucket_view m k =
     (case entries (limiters m) k of None \<Rightarrow> [] | Some e \<Rightarrow> bucket_calls (heap m ! limiter e))"

definition bucket_serve :: "bucket_fn \<Rightarrow> float64 \<Rightarrow> int \<Rightarrow> int list \<Rightarrow> int \<Rightarrow> bool \<times> int list" where
  \<comment> \<open>one bucket on its own\<close>
  "bucket_serve f r b cs t = (f r b cs t, cs @ [t])"

definition limiter_inv :: "float64 \<Rightarrow> int \<Rightarrow> int \<Rightarrow> mem_limiter \<Rightarrow> bool" where
  "limiter_inv r b ttl m \<longleftrightarrow>
     ml_rate m = r \<and> ml_burst m = b \<and> ml_ttl m = ttl \<and> \<not> flt_le0 r \<and>
     (\<forall>k e. entries (limiters m) k = Some e \<longrightarrow>
        limiter e < length (heap m) \<and>
        bucket_rate (heap m ! limiter e) = r \<and> bucket_burst (heap m ! limiter e) = b) \<and>
     (\<forall>k e k' e'. entries (limiters m) k = Some e \<longrightarrow> entries (limiters m) k' = Some e' \<longrightarrow>
        limiter e = limiter e' \<longrightarrow> k = k')"

definition seen_upto :: "int \<Rightarrow> mem_limiter \<Rightarrow> bool" where
  "seen_upto T m \<longleftrightarrow>
     (\<forall>k e. entries (limiters m) k = Some e \<longrightarrow>
        last_seen e \<le> T \<and> (\<forall>c \<in> set (bucket_calls (heap m ! limiter e)). c \<le> last_seen e))"

definition idle_since :: "int \<Rightarrow> int list \<Rightarrow> int \<Rightarrow> bool" where
  "idle_since ttl cs t \<longleftrightarrow> (\<forall>c \<in> set cs. c + ttl < t)"

lemma limiter_inv_entry:
  assumes "limiter_inv r b ttl m" "entries (limiters m) k = Some e"
  shows "limiter e < length (heap m)" "bucket_rate (heap m ! limiter e) = r"
    and "bucket_burst (heap m ! limiter e) = b"
  using assms by (auto simp: limiter_inv_def)

lemma limiter_inv_sep:
  "limiter_inv r b ttl m \<Longrightarrow> entries (limiters m) k = Some e \<Longrightarrow> entries (limiters m) k' = Some e' \<Longrightarrow>
     k \<noteq> k' \<Longrightarrow> limiter e \<noteq> limiter e'"
  by (auto simp: limiter_inv_def)

text \<open>The two cases of an \<^verbatim>\<open>Allow\<close>: the key has an entry, or it gets one.\<close>

lemma mem_allow_known:
  assumes "limiter_inv r b ttl m" "entries (limiters m) k = Some e"
  shows "mem_allow f m k t =
     (f r b (bucket_calls (heap m ! limiter e)) t,
      m\<lparr>limiters := \<lparr>entries = (entries (limiters m))(k := Some (e\<lparr>last_seen := t\<rparr>))\<rparr>,
        heap := (heap m)[limiter e := (heap m ! limiter e)\<lparr>bucket_calls := bucket_calls (heap m ! limiter e) @ [t]\<rparr>]\<rparr>)"
  using assms
  by (auto simp: mem_allow_def getLimiter_def bucket_allow_def Let_def limiter_inv_def)

lemma mem_allow_fresh:
  assumes "limiter_inv r b ttl m" "entries (limiters m) k = None"
  shows "mem_allow f m k t =
     (f r b [] t,
      m\<lparr>limiters := \<lparr>entries = (entries (limiters m))(k := Some \<lparr>limiter = length (heap m), last_seen = t\<rparr>)\<rparr>,
        heap := heap m @ [\<lparr>bucket_rate = r, bucket_burst = b, bucket_calls = [t]\<rparr>]\<rparr>)"
  using assms
  by (auto simp: mem_allow_def getLimiter_def bucket_allow_def Let_def limiter_inv_def list_update_append)

lemma limiter_invI:
  assumes "ml_rate m = r" "ml_burst m = b" "ml_ttl m = ttl" "\<not> flt_le0 r"
    and "\<And>k e. entries (limiters m) k = Some e \<Longrightarrow> limiter e < length (heap m) \<and>
           bucket_rate (heap m ! limiter e) = r \<and> bucket_burst (heap m ! limiter e) = b"
    and "\<And>k e k' e'. entries (limiters m) k = Some e \<Longrightarrow> entries (limiters m) k' = Some e' \<Longrightarrow>
           k \<noteq> k' \<Longrightarrow> limiter e \<noteq> limiter e'"
  shows "limiter_inv r b ttl m"
  unfolding limiter_inv_def using assms by blast

lemma mem_allow_inv:
  assumes inv: "limiter_inv r b ttl m"
  shows "limiter_inv r b ttl (snd (mem_allow f m k t))"
proof (cases "entries (limiters m) k")
  case None
  note old = limiter_inv_entry [OF inv]
  have ne: "limiter e \<noteq> length (heap m)" if "entries (limiters m) k' = Some e" for k' e
    using old(1) [OF that] by simp
  show ?thesis
    unfolding mem_allow_fresh [OF inv None] using inv
    by (intro limiter_invI)
      (auto simp: limiter_inv_def nth_append less_SucI old dest: ne ne [THEN not_sym]
        limiter_inv_sep [OF inv] split: if_splits)
next
  case (Some e)
  note old = limiter_inv_entry [OF inv]
  show ?thesis
    unfolding mem_allow_known [OF inv Some] using inv
    by (intro limiter_invI)
      (auto simp: limiter_inv_def nth_list_update old old [OF Some] dest: limiter_inv_sep [OF inv]
        limiter_inv_sep [OF inv Some] split: if_splits)
qed

lemma mem_allow_answer:
  assumes inv: "limiter_inv r b ttl m"
  shows "fst (mem_allow f m k t) = fst (bucket_serve f r b (bucket_view m k) t)"
  by (cases "entries (limiters m) k")
    (simp_all add: mem_allow_fresh [OF inv] mem_allow_known [OF inv] bucket_serve_def bucket_view_def)

lemma mem_allow_view:
  assumes inv: "limiter_inv r b ttl m"
  shows "bucket_view (snd (mem_allow f m k t)) k' =
     (if k' = k then snd (bucket_serve f r b (bucket_view m k) t) else bucket_view m k')"
proof (cases "entries (limiters m) k")
  case None
  then show ?thesis using limiter_inv_entry(1) [OF inv]
    by (auto simp: mem_allow_fresh [OF inv None] bucket_serve_def bucket_view_def nth_append split: option.splits)
next
  case (Some e)
  then show ?thesis using limiter_inv_entry(1) [OF inv Some] limiter_inv_sep [OF inv Some]
    by (auto simp: mem_allow_known [OF inv Some] bucket_serve_def bucket_view_def nth_list_update split: option.splits)
qed

lemma mem_allow_upto:
  assumes inv: "limiter_inv r b ttl m" and upto: "seen_upto t0 m" and t: "t0 \<le> t"
  shows "seen_upto t (snd (mem_allow f m k t))"
proof (cases "entries (limiters m) k")
  case None
  show ?thesis using upto t limiter_inv_entry(1) [OF inv]
    unfolding mem_allow_fresh [OF inv None] seen_upto_def
    by (auto simp: nth_append split: if_splits intro: order_trans)
next
  case (Some e)
  have old: "c \<le> t" if "c \<in> set (bucket_calls (heap m ! limiter e))" for c
    using upto Some that t unfolding seen_upto_def by (meson order_trans)
  show ?thesis using upto t Some old limiter_inv_sep [OF inv Some] limiter_inv_entry(1) [OF inv]
    unfolding mem_allow_known [OF inv Some] seen_upto_def
    by (auto simp: nth_list_update split: if_splits intro: order_trans)
qed

lemma mem_cleanup_entries:
  "entries (limiters (mem_cleanup t ks m)) k = Some e \<Longrightarrow> entries (limiters m) k = Some e"
  "heap (mem_cleanup t ks m) = heap m"
  by (auto simp: mem_cleanup_def cleanup_def cleanup_range_apply split: option.splits if_splits)

lemma mem_cleanup_inv: "limiter_inv r b ttl m \<Longrightarrow> limiter_inv r b ttl (mem_cleanup t ks m)"
  using mem_cleanup_entries [of t ks m]
  by (simp add: limiter_inv_def) (auto simp: mem_cleanup_def)

lemma mem_cleanup_view:
  assumes "limiter_inv r b ttl m" "seen_upto t0 m" "t0 \<le> t"
  shows "bucket_view (mem_cleanup t ks m) k = bucket_view m k \<or>
         bucket_view (mem_cleanup t ks m) k = [] \<and> idle_since ttl (bucket_view m k) t"
proof (cases "entries (limiters m) k")
  case None
  then show ?thesis
    by (simp add: bucket_view_def mem_cleanup_def cleanup_def cleanup_range_apply)
next
  case (Some e)
  show ?thesis
  proof (cases "k \<in> set ks \<and> last_seen e < t - ml_ttl m")
    case True
    have "\<forall>c \<in> set (bucket_calls (heap m ! limiter e)). c \<le> last_seen e"
      using assms(2) Some by (simp add: seen_upto_def)
    moreover have "ml_ttl m = ttl" using assms(1) by (simp add: limiter_inv_def)
    ultimately show ?thesis using Some True
      by (fastforce simp: bucket_view_def mem_cleanup_def cleanup_def cleanup_range_apply idle_since_def)
  next
    case False
    then show ?thesis using Some
      by (auto simp: bucket_view_def mem_cleanup_def cleanup_def cleanup_range_apply)
  qed
qed

interpretation mem: evicting_service "mem_allow f" bucket_view "bucket_serve f r b" "limiter_inv r b ttl"
    "\<lambda>m t ks. mem_cleanup t ks m" seen_upto "[]" "idle_since ttl" for f r b ttl
proof unfold_locales
  show "seen_upto t (mem_cleanup t ks m)" if "seen_upto t0 m" "t0 \<le> t" for t0 t :: int and m ks
    using that mem_cleanup_entries [of t ks m] by (fastforce simp: seen_upto_def)
qed (simp_all add: mem_allow_inv mem_allow_answer mem_allow_view mem_allow_upto mem_cleanup_inv mem_cleanup_view)

lemma new_limiter_inv:
  "\<not> flt_le0 rps \<Longrightarrow> limiter_inv rps burst (ml_ttl (NewMemoryRateLimiter rps burst ttl)) (NewMemoryRateLimiter rps burst ttl)"
  "seen_upto t0 (NewMemoryRateLimiter rps burst ttl)"
  "bucket_view (NewMemoryRateLimiter rps burst ttl) k = []"
  by (simp_all add: limiter_inv_def seen_upto_def bucket_view_def NewMemoryRateLimiter_def Let_def)

lemma unlimited_decisions:
  "flt_le0 (ml_rate m) \<Longrightarrow> answers k (decisions (mem_allow f) m rs) = map (\<lambda>t. True) (requests k rs)"
  by (induction rs) (auto simp: mem_allow_def)

lemma limiter_answers:
  "answers key (decisions (mem_allow f) (NewMemoryRateLimiter rps burst ttl) rs) =
     (if flt_le0 rps then map (\<lambda>t. True) (requests key rs)
      else solo (bucket_serve f rps burst) [] (requests key rs))"
proof (cases "flt_le0 rps")
  case True
  then show ?thesis by (simp add: unlimited_decisions NewMemoryRateLimiter_def Let_def)
next
  case False
  then show ?thesis
    using mem.isolation [OF new_limiter_inv(1) [OF False], of key f] by (simp add: new_limiter_inv)
qed

text \<open>C14. Evicting idle entries does not change any answer, provided a bucket that has been idle
  for the TTL answers like a new one (as a token bucket that has refilled does): at ordered
  instants, requests interleaved with cleanups in any iteration order get the answers they
  would get if nothing were ever evicted.\<close>

theorem cleanup_transparent:
  assumes refills: "\<And>cs t ts. idle_since (ml_ttl (NewMemoryRateLimiter rps burst ttl)) cs t \<Longrightarrow>
      \<forall>t' \<in> set ts. t \<le> t' \<Longrightarrow> solo (bucket_serve f rps burst) cs ts = solo (bucket_serve f rps burst) [] ts"
    and limited: "\<not> flt_le0 rps" and ordered: "ordered_from t0 es"
  shows "event_decisions (mem_allow f) (\<lambda>m t ks. mem_cleanup t ks m) (NewMemoryRateLimiter rps burst ttl) es
       = event_decisions (mem_allow f) (\<lambda>m t ks. m) (NewMemoryRateLimiter rps burst ttl) es"
  by (rule mem.eviction_transparent
        [OF refills new_limiter_inv(1) [OF limited] new_limiter_inv(2) new_limiter_inv(1) [OF limited] ordered refl])

text \<open>An instance of the bucket parameter: at most \<open>burst\<close> calls in any window of length \<open>W\<close>.\<close>

definition window_fn :: "int \<Rightarrow> bucket_fn" where
  "window_fn W r b cs t = (int (length (filter (\<lambda>c. t \<le> c + W) cs)) < b)"

lemma window_refills:
  "idle_since W cs t \<Longrightarrow> \<forall>t' \<in> set ts. t \<le> t' \<Longrightarrow>
     solo (bucket_serve (window_fn W) r b) (cs @ vs) ts = solo (bucket_serve (window_fn W) r b) vs ts"
proof (induction ts arbitrary: vs)
  case Nil
  show ?case by simp
next
  case (Cons t' ts)
  have "filter (\<lambda>c. t' \<le> c + W) cs = []"
    using Cons.prems by (fastforce simp: idle_since_def filter_empty_conv)
  then show ?case
    using Cons.IH [of "vs @ [t']"] Cons.prems by (simp add: bucket_serve_def window_fn_def)
qed

theorem cleanup_transparent_witness:
  "event_decisions (mem_allow (window_fn 10)) (\<lambda>m t ks. mem_cleanup t ks m) (NewMemoryRateLimiter (Finite 1) 1 10)
       [Request ''a'' 0, Evict 20 [''a''], Request ''a'' 21]
     = event_decisions (mem_allow (window_fn 10)) (\<lambda>m t ks. m) (NewMemoryRateLimiter (Finite 1) 1 10)
       [Request ''a'' 0, Evict 20 [''a''], Request ''a'' 21]"
proof (rule cleanup_transparent [where ?t0.0 = 0])
  show "solo (bucket_serve (window_fn 10) (Finite 1) 1) cs ts = solo (bucket_serve (window_fn 10) (Finite 1) 1) [] ts"
    if "idle_since (ml_ttl (NewMemoryRateLimiter (Finite 1) 1 10)) cs t" "\<forall>t' \<in> set ts. t \<le> t'" for cs t ts
    using window_refills [of 10 cs t ts "Finite 1" 1 "[]"] that by (simp add: NewMemoryRateLimiter_def)
qed simp_all

end
