(* ===== verification/Rate_Limiter_Concurrency.thy ===== *)
theory Rate_Limiter_Concurrency
  imports Rate_Limiter
begin

text \<open>
  \<^verbatim>\<open>MemoryRateLimiter\<close> under concurrent use. \<^verbatim>\<open>Allow\<close> is two atomic steps: \<^verbatim>\<open>getLimiter\<close> under the
  table's mutex, then \<^verbatim>\<open>limiter.Allow()\<close> under the bucket's own; between them other requests,
  ticks of the cleanup loop and \<^verbatim>\<open>Stop\<close> may run, and the table may have forgotten the bucket a
  request still holds. The states are those of the limiter, the clock, the requests in flight
  and a log of the decisions taken, newest first.
\<close>

record rl_sys =
  ml :: mem_limiter
  clock :: int
  flight :: "nat \<Rightarrow> (string \<times> nat) option"       \<comment> \<open>per goroutine: the key and the bucket it was given\<close>
  taken :: "(string \<times> nat \<times> int \<times> bool) list"   \<comment> \<open>key, bucket, instant, decision\<close>

definition rl_start :: "float64 \<Rightarrow> int \<Rightarrow> int \<Rightarrow> int \<Rightarrow> rl_sys" where
  "rl_start rps burst ttl t0 =
     \<lparr>ml = NewMemoryRateLimiter rps burst ttl, clock = t0, flight = (\<lambda>i. None), taken = []\<rparr>"

inductive rl_step :: "bucket_fn \<Rightarrow> rl_sys \<Rightarrow> rl_sys \<Rightarrow> bool" for f where
  time_passes: "clock s \<le> t \<Longrightarrow> rl_step f s (s\<lparr>clock := t\<rparr>)"
| lookup: "flight s i = None \<Longrightarrow> \<not> flt_le0 (ml_rate (ml s)) \<Longrightarrow>
     getLimiter (clock s) key (ml_rate (ml s)) (ml_burst (ml s)) (limiters (ml s)) (heap (ml s)) = (ptr, p, h) \<Longrightarrow>
     rl_step f s (s\<lparr>ml := (ml s)\<lparr>limiters := p, heap := h\<rparr>, flight := (flight s)(i := Some (key, ptr))\<rparr>)"
| decide: "flight s i = Some (key, ptr) \<Longrightarrow>
     bucket_allow f (clock s) ptr (heap (ml s)) = (b, h) \<Longrightarrow>
     rl_step f s (s\<lparr>ml := (ml s)\<lparr>heap := h\<rparr>, flight := (flight s)(i := None),
                    taken := (key, ptr, clock s, b) # taken s\<rparr>)"
| loop_starts: "loop (ml s) = Spawned \<Longrightarrow>
     rl_step f s (s\<lparr>ml := (ml s)\<lparr>loop := (if 0 < ticker_interval (ml s) then Looping else LoopCrashed)\<rparr>\<rparr>)"
| loop_ticks: "loop (ml s) = Looping \<Longrightarrow> {k. entries (limiters (ml s)) k \<noteq> None} \<subseteq> set ks \<Longrightarrow>
     rl_step f s (s\<lparr>ml := mem_cleanup (clock s) ks (ml s)\<rparr>)"
| loop_exits: "loop (ml s) = Looping \<Longrightarrow> stop_closed (ml s) \<Longrightarrow>
     rl_step f s (s\<lparr>ml := (ml s)\<lparr>loop := LoopExited\<rparr>\<rparr>)"
| stops: "mem_stop (ml s) = Some m \<Longrightarrow> rl_step f s (s\<lparr>ml := m\<rparr>)"

inductive rl_reachable :: "bucket_fn \<Rightarrow> rl_sys \<Rightarrow> rl_sys \<Rightarrow> bool" for f s0 where
  rl_init: "rl_reachable f s0 s0"
| rl_more: "rl_reachable f s0 s \<Longrightarrow> rl_step f s s' \<Longrightarrow> rl_reachable f s0 s'"

inductive_cases rl_stepE: "rl_step f s s'"

section \<open>The decisions are those of per-key buckets\<close>

definition calls_on :: "nat \<Rightarrow> (string \<times> nat \<times> int \<times> bool) list \<Rightarrow> int list" where
  \<comment> \<open>the instants of the decisions taken on a bucket, oldest first\<close>
  "calls_on ptr ds = rev (map (\<lambda>d. fst (snd (snd d))) (filter (\<lambda>d. fst (snd d) = ptr) ds))"

fun bucket_decided :: "bucket_fn \<Rightarrow> float64 \<Rightarrow> int \<Rightarrow> (string \<times> nat \<times> int \<times> bool) list \<Rightarrow> bool" where
  \<comment> \<open>each decision is the bucket's answer after the earlier decisions on the same bucket\<close>
  "bucket_decided f r b [] = True"
| "bucket_decided f r b ((key, ptr, t, ok) # ds) =
     (ok = f r b (calls_on ptr ds) t \<and> bucket_decided f r b ds)"

lemma calls_on_simps [simp]:
  "calls_on ptr [] = []"
  "calls_on ptr ((key, ptr', t, ok) # ds) = (if ptr' = ptr then calls_on ptr ds @ [t] else calls_on ptr ds)"
  by (simp_all add: calls_on_def)

text \<open>Who uses a bucket: the key whose entry points to it, those holding it, those logged.\<close>

definition users :: "rl_sys \<Rightarrow> (string \<times> nat) set" where
  "users s = {(k, limiter e) | k e. entries (limiters (ml s)) k = Some e}
           \<union> {kp. \<exists>i. flight s i = Some kp} \<union> (\<lambda>d. (fst d, fst (snd d))) ` set (taken s)"

definition owned :: "(string \<times> nat) set \<Rightarrow> bucket list \<Rightarrow> bool" where
  "owned U h \<longleftrightarrow>
     (\<forall>k p. (k, p) \<in> U \<longrightarrow> p < length h) \<and>
     (\<forall>k k' p. (k, p) \<in> U \<longrightarrow> (k', p) \<in> U \<longrightarrow> k = k')"

definition accounted :: "float64 \<Rightarrow> int \<Rightarrow> bucket list \<Rightarrow> (string \<times> nat \<times> int \<times> bool) list \<Rightarrow> bool" where
  "accounted r b h ds \<longleftrightarrow>
     (\<forall>p < length h. h ! p = \<lparr>bucket_rate = r, bucket_burst = b, bucket_calls = calls_on p ds\<rparr>)"

definition rl_inv :: "bucket_fn \<Rightarrow> float64 \<Rightarrow> int \<Rightarrow> rl_sys \<Rightarrow> bool" where
  "rl_inv f r b s \<longleftrightarrow>
     ml_rate (ml s) = r \<and> ml_burst (ml s) = b \<and>
     owned (users s) (heap (ml s)) \<and> accounted r b (heap (ml s)) (taken s) \<and>
     bucket_decided f r b (taken s)"

lemma owned_subset: "owned U h \<Longrightarrow> U' \<subseteq> U \<Longrightarrow> length h \<le> length h' \<Longrightarrow> owned U' h'"
  unfolding owned_def by (meson less_le_trans subsetD)

lemma owned_fresh:
  assumes "owned U h"
  shows "owned (insert (k, length h) U) (h @ [x])"
  using assms unfolding owned_def by (auto simp: less_SucI)

lemma accounted_new:
  assumes "accounted r b h ds" "\<And>d. d \<in> set ds \<Longrightarrow> fst (snd d) < length h"
  shows "accounted r b (h @ [\<lparr>bucket_rate = r, bucket_burst = b, bucket_calls = []\<rparr>]) ds"
proof -
  have "filter (\<lambda>d. fst (snd d) = length h) ds = []"
    using assms(2) by (fastforce simp: filter_empty_conv)
  then show ?thesis using assms(1) by (auto simp: accounted_def nth_append calls_on_def less_Suc_eq)
qed

lemma accounted_call:
  assumes "accounted r b h ds" "ptr < length h"
  shows "accounted r b (h[ptr := (h ! ptr)\<lparr>bucket_calls := bucket_calls (h ! ptr) @ [t]\<rparr>]) ((key, ptr, t, ok) # ds)"
  using assms by (auto simp: accounted_def nth_list_update)

lemma users_taken: "d \<in> set (taken s) \<Longrightarrow> (fst d, fst (snd d)) \<in> users s"
  by (auto simp: users_def)

lemma rl_inv_start: "rl_inv f rps burst (rl_start rps burst ttl t0)"
  by (simp add: rl_inv_def rl_start_def users_def owned_def accounted_def NewMemoryRateLimiter_def Let_def)

lemma rl_inv_cong:
  assumes "rl_inv f r b s" "ml_rate (ml s') = ml_rate (ml s)" "ml_burst (ml s') = ml_burst (ml s)"
    and "heap (ml s') = heap (ml s)" "taken s' = taken s" "users s' \<subseteq> users s"
  shows "rl_inv f r b s'"
  using assms unfolding rl_inv_def by (auto intro: owned_subset)

lemma lookup_known:
  assumes inv: "rl_inv f r b s" and e: "entries (limiters (ml s)) key = Some e"
    and got: "getLimiter t key r b (limiters (ml s)) (heap (ml s)) = (ptr, p, h)"
  shows "rl_inv f r b (s\<lparr>ml := (ml s)\<lparr>limiters := p, heap := h\<rparr>, flight := (flight s)(i := Some (key, ptr))\<rparr>)"
proof (rule rl_inv_cong [OF inv])
  show "users (s\<lparr>ml := (ml s)\<lparr>limiters := p, heap := h\<rparr>, flight := (flight s)(i := Some (key, ptr))\<rparr>) \<subseteq> users s"
    using got e unfolding users_def getLimiter_def by (auto split: if_splits)
qed (use got e in \<open>auto simp: getLimiter_def\<close>)

lemma lookup_fresh:
  assumes inv: "rl_inv f r b s" and e: "entries (limiters (ml s)) key = None"
    and got: "getLimiter t key r b (limiters (ml s)) (heap (ml s)) = (ptr, p, h)"
  shows "rl_inv f r b (s\<lparr>ml := (ml s)\<lparr>limiters := p, heap := h\<rparr>, flight := (flight s)(i := Some (key, ptr))\<rparr>)"
    (is "rl_inv f r b ?s'")
proof -
  let ?h = "heap (ml s)"
  have new: "ptr = length ?h" "h = ?h @ [\<lparr>bucket_rate = r, bucket_burst = b, bucket_calls = []\<rparr>]"
    and p: "entries p = (entries (limiters (ml s)))(key := Some \<lparr>limiter = length ?h, last_seen = t\<rparr>)"
    using got e by (auto simp: getLimiter_def Let_def)
  have own: "owned (users s) ?h" and acc: "accounted r b ?h (taken s)"
    using inv by (simp_all add: rl_inv_def)
  have "users ?s' \<subseteq> insert (key, length ?h) (users s)"
    by (auto simp: users_def new p split: if_splits)
  then have "owned (users ?s') h"
    using owned_subset [OF owned_fresh [OF own, of key "\<lparr>bucket_rate = r, bucket_burst = b, bucket_calls = []\<rparr>"],
        of "users ?s'" h] by (simp add: new)
  moreover have "accounted r b h (taken s)"
    unfolding new(2)
  proof (rule accounted_new [OF acc])
    fix d assume "d \<in> set (taken s)"
    then show "fst (snd d) < length ?h" using own users_taken unfolding owned_def by blast
  qed
  ultimately show ?thesis using inv by (simp add: rl_inv_def)
qed

lemma decide_inv:
  assumes inv: "rl_inv f r b s" and fl: "flight s i = Some (key, ptr)"
    and al: "bucket_allow f (clock s) ptr (heap (ml s)) = (ok, h)"
  shows "rl_inv f r b (s\<lparr>ml := (ml s)\<lparr>heap := h\<rparr>, flight := (flight s)(i := None),
                          taken := (key, ptr, clock s, ok) # taken s\<rparr>)" (is "rl_inv f r b ?s'")
proof -
  have used: "(key, ptr) \<in> users s" using fl by (auto simp: users_def)
  have own: "owned (users s) (heap (ml s))" and acc: "accounted r b (heap (ml s)) (taken s)"
    using inv by (simp_all add: rl_inv_def)
  then have ptr: "ptr < length (heap (ml s))" using used by (auto simp: owned_def)
  have "users ?s' \<subseteq> users s" using used by (auto simp: users_def split: if_splits)
  then have "owned (users ?s') h"
    using owned_subset [OF own] al by (auto simp: bucket_allow_def Let_def)
  moreover have "accounted r b h (taken ?s')"
    using accounted_call [OF acc ptr] al by (auto simp: bucket_allow_def Let_def)
  moreover have "ok = f r b (calls_on ptr (taken s)) (clock s)"
    using al acc ptr by (auto simp: bucket_allow_def Let_def accounted_def)
  ultimately show ?thesis using inv by (simp add: rl_inv_def)
qed

lemma rl_step_inv: "rl_step f s s' \<Longrightarrow> rl_inv f r b s \<Longrightarrow> rl_inv f r b s'"
proof (induction rule: rl_step.induct)
  case (lookup s i key ptr p h)
  then have "ml_rate (ml s) = r" "ml_burst (ml s) = b" by (simp_all add: rl_inv_def)
  then show ?case
    using lookup lookup_known lookup_fresh by (cases "entries (limiters (ml s)) key") metis+
next
  case (decide s i key ptr ok h)
  then show ?case by (intro decide_inv)
next
  case (loop_ticks s ks)
  show ?case
    by (rule rl_inv_cong [OF loop_ticks(3)])
      (use mem_cleanup_entries [of "clock s" ks "ml s"] in \<open>auto simp: users_def mem_cleanup_def\<close>)
next
  case (stops s m)
  show ?case
    by (rule rl_inv_cong [OF stops(2)]) (use stops(1) in \<open>auto simp: users_def mem_stop_def split: if_splits\<close>)
qed (auto elim!: rl_inv_cong simp: users_def)

lemma rl_reachable_inv: "rl_reachable f (rl_start rps burst ttl t0) s \<Longrightarrow> rl_inv f rps burst s"
  by (induction rule: rl_reachable.induct) (auto intro: rl_inv_start rl_step_inv)

text \<open>C13. However requests, cleanup ticks, stops and the passing of time interleave: every
  decision taken so far is the answer of one bucket to the earlier calls on that bucket, and
  all calls on a bucket were made for one and the same peer.\<close>

theorem concurrent_isolation:
  assumes "rl_reachable f (rl_start rps burst ttl t0) s"
  shows "bucket_decided f rps burst (taken s) \<and>
         (\<forall>d d'. {d, d'} \<subseteq> set (taken s) \<and> fst (snd d) = fst (snd d') \<longrightarrow> fst d = fst d')"
proof -
  have inv: "rl_inv f rps burst s" using assms by (rule rl_reachable_inv)
  have "fst d = fst d'"
    if "d \<in> set (taken s)" "d' \<in> set (taken s)" "fst (snd d) = fst (snd d')" for d d'
    using inv users_taken [OF that(1)] users_taken [OF that(2)] that(3)
    by (auto simp: rl_inv_def owned_def)
  then show ?thesis using inv by (auto simp: rl_inv_def)
qed

lemma sample_run:
  obtains s where "rl_reachable (window_fn 10) (rl_start (Finite 1) 1 10 0) s"
    and "taken s = [(''a'', 0, 0, True)]"
proof -
  let ?s0 = "rl_start (Finite 1) 1 10 0"
  let ?p = "\<lparr>entries = [''a'' \<mapsto> \<lparr>limiter = 0, last_seen = 0\<rparr>]\<rparr>"
  let ?h = "[\<lparr>bucket_rate = Finite 1, bucket_burst = 1, bucket_calls = []\<rparr>]"
  let ?s1 = "?s0\<lparr>ml := (ml ?s0)\<lparr>limiters := ?p, heap := ?h\<rparr>, flight := (flight ?s0)(0 := Some (''a'', 0))\<rparr>"
  let ?h2 = "[\<lparr>bucket_rate = Finite 1, bucket_burst = 1, bucket_calls = [0]\<rparr>]"
  let ?s2 = "?s1\<lparr>ml := (ml ?s1)\<lparr>heap := ?h2\<rparr>, flight := (flight ?s1)(0 := None),
                 taken := (''a'', 0, clock ?s1, True) # taken ?s1\<rparr>"
  have "rl_step (window_fn 10) ?s0 ?s1"
    by (rule lookup) (simp_all add: rl_start_def NewMemoryRateLimiter_def getLimiter_def)
  moreover have "rl_step (window_fn 10) ?s1 ?s2"
    by (rule decide) (simp_all add: rl_start_def bucket_allow_def window_fn_def)
  ultimately have "rl_reachable (window_fn 10) ?s0 ?s2"
    by (meson rl_init rl_more)
  then show ?thesis by (rule that) (simp add: rl_start_def)
qed

theorem concurrent_isolation_witness:
  "\<exists>s :: rl_sys. taken s = [(''a'', 0, 0, True)] \<and> bucket_decided (window_fn 10) (Finite 1) 1 (taken s)"
proof -
  obtain s where s: "rl_reachable (window_fn 10) (rl_start (Finite 1) 1 10 0) s"
    and t: "taken s = [(''a'', 0, 0, True)]" by (rule sample_run)
  show ?thesis using t conjunct1 [OF concurrent_isolation [OF s]] by (intro exI [of _ s] conjI)
qed

section \<open>The loop and \<^verbatim>\<open>Stop\<close>\<close>

definition loop_inv :: "mem_limiter \<Rightarrow> bool" where
  "loop_inv m \<longleftrightarrow>
     stop_once m = stop_closed m \<and> (loop m \<noteq> NoLoop \<longleftrightarrow> flt_pos (ml_rate m)) \<and>
     (loop m = LoopExited \<longrightarrow> stop_closed m) \<and>
     (loop m \<in> {Looping, LoopExited} \<longrightarrow> 0 < ticker_interval m) \<and>
     (loop m = LoopCrashed \<longrightarrow> ticker_interval m \<le> 0)"

lemma loop_inv_cong:
  "loop_inv m \<Longrightarrow> stop_once m' = stop_once m \<Longrightarrow> stop_closed m' = stop_closed m \<Longrightarrow> loop m' = loop m \<Longrightarrow>
     ml_rate m' = ml_rate m \<Longrightarrow> ml_ttl m' = ml_ttl m \<Longrightarrow> loop_inv m'"
  by (simp add: loop_inv_def ticker_interval_def)

lemma rl_step_loop_inv: "rl_step f s s' \<Longrightarrow> loop_inv (ml s) \<Longrightarrow> loop_inv (ml s')"
proof (induction rule: rl_step.induct)
  case (stops s m)
  then show ?case by (auto simp: loop_inv_def mem_stop_def ticker_interval_def split: if_splits)
next
  case (loop_ticks s ks)
  then show ?case by (auto intro: loop_inv_cong simp: mem_cleanup_def)
qed (auto simp: loop_inv_def ticker_interval_def)

lemma rl_step_fixed: "rl_step f s s' \<Longrightarrow> ml_ttl (ml s') = ml_ttl (ml s) \<and> ml_rate (ml s') = ml_rate (ml s)"
  by (induction rule: rl_step.induct) (auto simp: mem_cleanup_def mem_stop_def split: if_splits)

lemma rl_reachable_loop_inv:
  "rl_reachable f s0 s \<Longrightarrow> loop_inv (ml s0) \<Longrightarrow>
     loop_inv (ml s) \<and> ml_ttl (ml s) = ml_ttl (ml s0) \<and> ml_rate (ml s) = ml_rate (ml s0)"
  by (induction rule: rl_reachable.induct) (auto dest: rl_step_loop_inv rl_step_fixed)

lemma loop_inv_new: "loop_inv (NewMemoryRateLimiter rps burst ttl)"
  by (auto simp: loop_inv_def NewMemoryRateLimiter_def Let_def)



end
