(* ===== verification/Middleware.thy ===== *)
theory Middleware
  imports Go_Runtime
begin

text \<open>
  The contract interceptors share, on the server and on the client, for unary and stream RPCs alike. An
  interceptor is given the arguments of the call, the method name and the handler. A
  \<open>middleware\<close> calls its handler at most once: in a given state it either answers itself,
  whatever the handler would do, or makes one call with arguments it has chosen and computes
  its answer from the outcome. A \<open>forwarder\<close> always makes the call and, when the handler
  returns, returns the same result. A \<open>conduit\<close> answers itself or makes the call, and then ends as
  the handler ends, in a panic too. Nesting preserves the first and the last.
\<close>

section \<open>Interceptors\<close>

text \<open>The common shape of both: the two arguments of a handler as a pair.\<close>

definition paired ::
  "('a \<Rightarrow> 'b \<Rightarrow> 'i \<Rightarrow> ('a \<Rightarrow> 'b \<Rightarrow> ('w, 'r) comp) \<Rightarrow> ('w, 'r) comp)
     \<Rightarrow> 'a \<times> 'b \<Rightarrow> 'i \<Rightarrow> ('a \<times> 'b \<Rightarrow> ('w, 'r) comp) \<Rightarrow> ('w, 'r) comp" where
  "paired I = (\<lambda>(a, b) i h. I a b i (\<lambda>a' b'. h (a', b')))"

lemma paired_apply [simp]: "paired I (a, b) i h = I a b i (\<lambda>a' b'. h (a', b'))"
  by (simp add: paired_def)

section \<open>The contracts\<close>

locale middleware =
  fixes I :: "'a \<Rightarrow> 'i \<Rightarrow> ('a \<Rightarrow> ('w, 'r) comp) \<Rightarrow> ('w, 'r) comp"
  assumes at_most_once:
    "(\<exists>answer. \<forall>h. I a i h w = answer) \<or> (\<exists>a' w' post. \<forall>h. I a i h w = post (h a' w'))"
begin

lemma inner_matters_once:
  \<comment> \<open>two handlers that agree on every call agree under the interceptor\<close>
  "(\<And>a' w'. h a' w' = h' a' w') \<Longrightarrow> I a i h w = I a i h' w"
proof -
  assume "\<And>a' w'. h a' w' = h' a' w'"
  then have "h = h'" by (intro ext)
  then show ?thesis by simp
qed

lemma nest_once:
  assumes "middleware J"
  shows "(\<exists>answer. \<forall>h. I a i (\<lambda>a'. J a' i h) w = answer) \<or>
         (\<exists>a' w' post. \<forall>h. I a i (\<lambda>a'. J a' i h) w = post (h a' w'))"
proof (cases "\<exists>answer. \<forall>h. I a i h w = answer")
  case True
  then show ?thesis by blast
next
  case False
  then obtain a1 w1 post where I: "\<And>h. I a i h w = post (h a1 w1)"
    using at_most_once [of a i w] by blast
  from middleware.at_most_once [OF assms, of a1 i w1] show ?thesis
  proof
    assume "\<exists>answer. \<forall>h. J a1 i h w1 = answer"
    then obtain answer where "\<And>h. J a1 i h w1 = answer" by blast
    then have "I a i (\<lambda>a'. J a' i h) w = post answer" for h by (simp add: I)
    then show ?thesis by blast
  next
    assume "\<exists>a' w' post. \<forall>h. J a1 i h w1 = post (h a' w')"
    then obtain a2 w2 post2 where J: "\<And>h. J a1 i h w1 = post2 (h a2 w2)" by blast
    have "I a i (\<lambda>a'. J a' i h) w = (post \<circ> post2) (h a2 w2)" for h by (simp add: I J)
    then show ?thesis by blast
  qed
qed

end

locale forwarder =
  fixes I :: "'a \<Rightarrow> 'i \<Rightarrow> ('a \<Rightarrow> ('w, 'r) comp) \<Rightarrow> ('w, 'r) comp"
  assumes forwards:
    "\<exists>a' w' post. (\<forall>h. I a i h w = post (h a' w')) \<and> (\<forall>r w''. fst (post (Ret r, w'')) = Ret r)"

sublocale forwarder \<subseteq> middleware
proof
  fix a i w
  show "(\<exists>answer. \<forall>h. I a i h w = answer) \<or> (\<exists>a' w' post. \<forall>h. I a i h w = post (h a' w'))"
    using forwards [of a i w] by blast
qed

context forwarder begin

lemma transparent:
  assumes "\<And>a' w'. \<exists>w''. h a' w' = (Ret r, w'')"
  shows "fst (I a i h w) = Ret r"
proof -
  obtain a' w' post where I: "\<And>h. I a i h w = post (h a' w')"
    and post: "\<And>r w''. fst (post (Ret r, w'')) = Ret r"
    using forwards [of a i w] by blast
  obtain w'' where "h a' w' = (Ret r, w'')" using assms by blast
  then show ?thesis by (simp add: I post)
qed

end

locale conduit =
  fixes I :: "'a \<Rightarrow> 'i \<Rightarrow> ('a \<Rightarrow> ('w, 'r) comp) \<Rightarrow> ('w, 'r) comp"
  assumes conducts:
    "(\<exists>answer. \<forall>h. I a i h w = answer) \<or>
     (\<exists>a' w' post. (\<forall>h. I a i h w = post (h a' w')) \<and> (\<forall>out w''. fst (post (out, w'')) = out))"

sublocale conduit \<subseteq> middleware
proof
  fix a i w
  show "(\<exists>answer. \<forall>h. I a i h w = answer) \<or> (\<exists>a' w' post. \<forall>h. I a i h w = post (h a' w'))"
    using conducts [of a i w] by blast
qed

context conduit begin

lemma nest_conducts:
  assumes "conduit J"
  shows "(\<exists>answer. \<forall>h. I a i (\<lambda>a'. J a' i h) w = answer) \<or>
         (\<exists>a' w' post. (\<forall>h. I a i (\<lambda>a'. J a' i h) w = post (h a' w')) \<and> (\<forall>out w''. fst (post (out, w'')) = out))"
proof (cases "\<exists>answer. \<forall>h. I a i h w = answer")
  case True
  then show ?thesis by blast
next
  case False
  then obtain a1 w1 post where I: "\<And>h. I a i h w = post (h a1 w1)" "\<And>out w''. fst (post (out, w'')) = out"
    using conducts [of a i w] by blast
  from conduit.conducts [OF assms, of a1 i w1] show ?thesis
  proof
    assume "\<exists>answer. \<forall>h. J a1 i h w1 = answer"
    then obtain answer where "\<And>h. J a1 i h w1 = answer" by blast
    then have "I a i (\<lambda>a'. J a' i h) w = post answer" for h by (simp add: I)
    then show ?thesis by blast
  next
    assume "\<exists>a' w' post. (\<forall>h. J a1 i h w1 = post (h a' w')) \<and> (\<forall>out w''. fst (post (out, w'')) = out)"
    then obtain a2 w2 post2 where J: "\<And>h. J a1 i h w1 = post2 (h a2 w2)" "\<And>out w''. fst (post2 (out, w'')) = out" by blast
    have "fst (post (post2 (out, w''))) = out" for out w'' by (cases "post2 (out, w'')") (metis I(2) J(2) fst_conv)
    then have "(\<forall>h. I a i (\<lambda>a'. J a' i h) w = (post \<circ> post2) (h a2 w2)) \<and> (\<forall>out w''. fst ((post \<circ> post2) (out, w'')) = out)"
      by (simp add: I(1) J(1))
    then show ?thesis by blast
  qed
qed

end

section \<open>Nesting\<close>

text \<open>Interceptors nested in the order of a list, the first outermost, around a handler.\<close>

fun nest :: "('a \<Rightarrow> 'i \<Rightarrow> ('a \<Rightarrow> ('w, 'r) comp) \<Rightarrow> ('w, 'r) comp) list
    \<Rightarrow> 'a \<Rightarrow> 'i \<Rightarrow> ('a \<Rightarrow> ('w, 'r) comp) \<Rightarrow> ('w, 'r) comp" where
  "nest [] a i h = h a"
| "nest (I # Is) a i h = I a i (\<lambda>a'. nest Is a' i h)"

lemma middleware_nest: "(\<And>I. I \<in> set Is \<Longrightarrow> middleware I) \<Longrightarrow> middleware (nest Is)"
proof (induction Is)
  case Nil
  have "\<exists>a' w' post. \<forall>h. nest [] a i h w = post (h a' w')" for a :: 'a and i :: 'b and w :: 'c
    by (intro exI [of _ a] exI [of _ w] exI [of _ id]) simp
  then show ?case by unfold_locales blast
next
  case (Cons J Js)
  then have J: "middleware J" and Js: "middleware (nest Js)" by simp_all
  show ?case
  proof (rule middleware.intro)
    fix a i w
    show "(\<exists>answer. \<forall>h. nest (J # Js) a i h w = answer) \<or>
          (\<exists>a' w' post. \<forall>h. nest (J # Js) a i h w = post (h a' w'))"
      using middleware.nest_once [OF J Js, of a i w] by simp
  qed
qed

lemma conduit_nest: "(\<And>I. I \<in> set Is \<Longrightarrow> conduit I) \<Longrightarrow> conduit (nest Is)"
proof (induction Is)
  case Nil
  have "\<exists>a' w' post. (\<forall>h. nest [] a i h w = post (h a' w')) \<and> (\<forall>out w''. fst (post (out, w'')) = out)"
    for a :: 'a and i :: 'b and w :: 'c
    by (intro exI [of _ a] exI [of _ w] exI [of _ id]) simp
  then show ?case by unfold_locales blast
next
  case (Cons J Js)
  then have J: "conduit J" and Js: "conduit (nest Js)" by simp_all
  show ?case
  proof (rule conduit.intro)
    fix a i w
    show "(\<exists>answer. \<forall>h. nest (J # Js) a i h w = answer) \<or>
          (\<exists>a' w' post. (\<forall>h. nest (J # Js) a i h w = post (h a' w')) \<and> (\<forall>out w''. fst (post (out, w'')) = out))"
      using conduit.nest_conducts [OF J Js, of a i w] by simp
  qed
qed

end
