(* ===== verification/Server_Config.thy ===== *)
theory Server_Config
  imports Logging_Pkg Rate_Limiter_Concurrency Middleware
begin

text \<open>
  \<^verbatim>\<open>internal/server/interceptor/config.go\<close>: the package-level configuration of the server
  interceptors, its functional options, \<^verbatim>\<open>Configure\<close> and the snapshots \<^verbatim>\<open>getConfig\<close> takes; and the
  state of a server process, which adds this configuration and the rate limiters to the shared
  process state.

  The two method sets are Go maps, which a struct copy aliases: the configuration holds
  references, the maps are in the state. Function and interface values the user supplies (an
  \<^verbatim>\<open>AuthFunc\<close>, a \<^verbatim>\<open>RateLimiter\<close>) are identities whose implementations are parameters, in the
  record \<open>srv_env\<close>.
\<close>

section \<open>The state of a server process\<close>

datatype rate_limiter = MemoryLimiter nat | UserLimiter nat

record srv_config =
  cfg_logger :: "log_handler option"
  authFunc :: "nat option"
  excludedMethods :: nat
  demotedMethods :: nat
  rateLimiter :: "rate_limiter option"
  trustProxy :: bool

record server_world = process +
  defaultConfig :: srv_config
  method_maps :: "nat \<Rightarrow> string set"
  mem_limiters :: "mem_limiter list"
  stop_calls :: "nat list"      \<comment> \<open>the user limiters whose \<^verbatim>\<open>Stop\<close> has been called, in order\<close>

type_synonym 'a scomp = "(server_world, 'a) comp"

text \<open>What the process is built from besides this repository: the grpc library, the token
  bucket's decision function, the user's authentication functions and rate limiters, and
  which of the latter have a \<^verbatim>\<open>Stop\<close> method.\<close>

record 'md srv_env = "'md grpc_api" +
  bucket_answer :: bucket_fn
  auth_impl :: "nat \<Rightarrow> 'md ctx \<Rightarrow> string \<Rightarrow> 'md ctx fallible scomp"
  limiter_impl :: "nat \<Rightarrow> 'md ctx \<Rightarrow> string \<Rightarrow> bool fallible scomp"
  limiter_stoppable :: "nat \<Rightarrow> bool"

definition initial_config :: srv_config where
  "initial_config = \<lparr>cfg_logger = None, authFunc = None, excludedMethods = 0, demotedMethods = 1,
     rateLimiter = None, trustProxy = False\<rparr>"

definition defaultDemotedMethods :: "string set" where
  "defaultDemotedMethods =
     {''/grpc.reflection.v1.ServerReflection/ServerReflectionInfo'',
      ''/grpc.reflection.v1alpha.ServerReflection/ServerReflectionInfo''}"

definition initial_maps :: "nat \<Rightarrow> string set" where
  "initial_maps = (\<lambda>r. if r = 1 then defaultDemotedMethods else {})"

section \<open>Handlers and interceptors\<close>

type_synonym ('md, 'req, 'resp) unary_handler = "'md ctx \<Rightarrow> 'req \<Rightarrow> 'resp option fallible scomp"

type_synonym ('md, 'req, 'resp) unary_interceptor =
  "'md ctx \<Rightarrow> 'req \<Rightarrow> string \<Rightarrow> ('md, 'req, 'resp) unary_handler \<Rightarrow> 'resp option fallible scomp"

type_synonym ('md, 'srv) stream_handler = "'srv \<Rightarrow> 'md server_stream \<Rightarrow> goerror option scomp"

type_synonym ('md, 'srv) stream_interceptor =
  "'srv \<Rightarrow> 'md server_stream \<Rightarrow> string \<Rightarrow> ('md, 'srv) stream_handler \<Rightarrow> goerror option scomp"

section \<open>Snapshots\<close>

definition getConfig :: "srv_config scomp" where
  "getConfig = getc defaultConfig"

definition isDemoted :: "srv_config \<Rightarrow> string \<Rightarrow> bool scomp" where
  "isDemoted c m = getc (\<lambda>w. m \<in> method_maps w (demotedMethods c))"

definition isExcluded :: "srv_config \<Rightarrow> string \<Rightarrow> bool scomp" where
  \<comment> \<open>the lookup \<^verbatim>\<open>cfg.excludedMethods[info.FullMethod]\<close>\<close>
  "isExcluded c m = getc (\<lambda>w. m \<in> method_maps w (excludedMethods c))"

lemma config_reads [comp_simps]:
  "getConfig w = (Ret (defaultConfig w), w)"
  "isDemoted c m w = (Ret (m \<in> method_maps w (demotedMethods c)), w)"
  "isExcluded c m w = (Ret (m \<in> method_maps w (excludedMethods c)), w)"
  by (simp_all add: getConfig_def isDemoted_def isExcluded_def comp_simps)

section \<open>Rate limiter values\<close>

text \<open>A method call on a \<^verbatim>\<open>*MemoryRateLimiter\<close>; a pointer outside the heap is nil.\<close>

definition with_limiter :: "nat \<Rightarrow> (mem_limiter \<Rightarrow> 'a scomp) \<Rightarrow> 'a scomp" where
  "with_limiter p f = (\<lambda>w. if p < length (mem_limiters w) then f (mem_limiters w ! p) w
                          else (Panic NilDereference, w))"

definition set_limiter :: "nat \<Rightarrow> mem_limiter \<Rightarrow> unit scomp" where
  "set_limiter p m = modifyc (\<lambda>w. w\<lparr>mem_limiters := (mem_limiters w)[p := m]\<rparr>)"

fun allow_limiter :: "'md srv_env \<Rightarrow> rate_limiter \<Rightarrow> 'md ctx \<Rightarrow> string \<Rightarrow> bool fallible scomp" where
  "allow_limiter E (MemoryLimiter p) c key =
     with_limiter p (\<lambda>m. bindc time_now (\<lambda>t.
       case mem_allow (bucket_answer E) m key t of
         (b, m') \<Rightarrow> thenc (set_limiter p m') (ret (b, None))))"
| "allow_limiter E (UserLimiter i) c key = limiter_impl E i c key"

fun stopPreviousLimiter :: "'md srv_env \<Rightarrow> rate_limiter option \<Rightarrow> unit scomp" where
  "stopPreviousLimiter E None = ret ()"
| "stopPreviousLimiter E (Some (MemoryLimiter p)) =
     with_limiter p (\<lambda>m. case mem_stop m of
         None \<Rightarrow> panicc (PanicString ''close of closed channel'')
       | Some m' \<Rightarrow> set_limiter p m')"
| "stopPreviousLimiter E (Some (UserLimiter i)) =
     (if limiter_stoppable E i then modifyc (\<lambda>w. w\<lparr>stop_calls := stop_calls w @ [i]\<rparr>) else ret ())"

section \<open>Options\<close>

definition set_config :: "(srv_config \<Rightarrow> srv_config) \<Rightarrow> unit scomp" where
  "set_config f = modifyc (\<lambda>w. w\<lparr>defaultConfig := f (defaultConfig w)\<rparr>)"

definition WithLogger :: "log_handler option \<Rightarrow> unit scomp" where
  "WithLogger l = set_config (cfg_logger_update (\<lambda>_. l))"

definition WithAuthFunc :: "nat option \<Rightarrow> unit scomp" where
  "WithAuthFunc fn = set_config (authFunc_update (\<lambda>_. fn))"

fun add_methods :: "string list \<Rightarrow> string set \<Rightarrow> string set" where
  \<comment> \<open>the loop shared by the two method options\<close>
  "add_methods [] M = M"
| "add_methods (m # ms) M = add_methods ms (if m \<noteq> [] then insert m M else M)"

definition update_map :: "nat \<Rightarrow> (string set \<Rightarrow> string set) \<Rightarrow> unit scomp" where
  "update_map r f = modifyc (\<lambda>w. w\<lparr>method_maps := (method_maps w)(r := f (method_maps w r))\<rparr>)"

definition WithExcludedMethods :: "string list \<Rightarrow> unit scomp" where
  "WithExcludedMethods ms =
     bindc (getc defaultConfig) (\<lambda>c. update_map (excludedMethods c) (add_methods ms))"

definition WithDemotedMethods :: "string list \<Rightarrow> unit scomp" where
  "WithDemotedMethods ms =
     bindc (getc defaultConfig) (\<lambda>c. update_map (demotedMethods c) (add_methods ms))"

definition WithRateLimiter :: "'md srv_env \<Rightarrow> rate_limiter option \<Rightarrow> unit scomp" where
  "WithRateLimiter E l =
     bindc (getc defaultConfig) (\<lambda>c.
       thenc (stopPreviousLimiter E (rateLimiter c)) (set_config (rateLimiter_update (\<lambda>_. l))))"

definition new_limiter :: "float64 \<Rightarrow> int \<Rightarrow> int \<Rightarrow> nat scomp" where
  \<comment> \<open>\<^verbatim>\<open>NewMemoryRateLimiter\<close>, returning the pointer\<close>
  "new_limiter rps burst ttl =
     (\<lambda>w. (Ret (length (mem_limiters w)),
           w\<lparr>mem_limiters := mem_limiters w @ [NewMemoryRateLimiter rps burst ttl]\<rparr>))"

definition WithRateLimit :: "'md srv_env \<Rightarrow> float64 \<Rightarrow> int \<Rightarrow> unit scomp" where
  "WithRateLimit E rps burst =
     bindc (getc defaultConfig) (\<lambda>c.
       thenc (stopPreviousLimiter E (rateLimiter c))
         (bindc (new_limiter rps burst (10 * minute)) (\<lambda>p.
           set_config (rateLimiter_update (\<lambda>_. Some (MemoryLimiter p))))))"

definition WithTrustProxy :: "bool \<Rightarrow> unit scomp" where
  "WithTrustProxy trust = set_config (trustProxy_update (\<lambda>_. trust))"

definition Configure :: "unit scomp list \<Rightarrow> unit scomp" where
  "Configure opts = seqc opts"

lemmas option_defs = WithLogger_def WithAuthFunc_def WithExcludedMethods_def WithDemotedMethods_def
  WithRateLimiter_def WithRateLimit_def WithTrustProxy_def set_config_def update_map_def
  new_limiter_def with_limiter_def set_limiter_def

lemma simple_options [comp_simps]:
  "WithLogger l w = (Ret (), w\<lparr>defaultConfig := (defaultConfig w)\<lparr>cfg_logger := l\<rparr>\<rparr>)"
  "WithAuthFunc fn w = (Ret (), w\<lparr>defaultConfig := (defaultConfig w)\<lparr>authFunc := fn\<rparr>\<rparr>)"
  "WithTrustProxy b w = (Ret (), w\<lparr>defaultConfig := (defaultConfig w)\<lparr>trustProxy := b\<rparr>\<rparr>)"
  "WithExcludedMethods ms w = (Ret (), w\<lparr>method_maps := (method_maps w)(excludedMethods (defaultConfig w) :=
      add_methods ms (method_maps w (excludedMethods (defaultConfig w))))\<rparr>)"
  "WithDemotedMethods ms w = (Ret (), w\<lparr>method_maps := (method_maps w)(demotedMethods (defaultConfig w) :=
      add_methods ms (method_maps w (demotedMethods (defaultConfig w))))\<rparr>)"
  by (simp_all add: option_defs comp_simps)

lemma Configure_apply [comp_simps]:
  "Configure [] w = (Ret (), w)"
  "Configure (opt # opts) w = (case opt w of (Ret x, w') \<Rightarrow> Configure opts w' | (Panic p, w') \<Rightarrow> (Panic p, w'))"
  unfolding Configure_def by (simp_all add: comp_simps)

section \<open>A process at start-up, for witnesses\<close>

definition sample_world :: server_world where
  "sample_world = \<lparr>default_handler = SlogHandler, log_trace = [], now = 0, sched = (\<lambda>i. (0, True)),
     entropy = (\<lambda>i. 0), rand_src = (\<lambda>i. 0), headers_set = [], objects = [], sent_msgs = [], defaultConfig = initial_config,
     method_maps = initial_maps, mem_limiters = [], stop_calls = []\<rparr>"

section \<open>Method sets\<close>

lemma add_methods_eq: "add_methods ms M = M \<union> {m \<in> set ms. m \<noteq> []}"
  by (induction ms arbitrary: M) auto

section \<open>Replacing the rate limiter\<close>

inductive package_option :: "'md srv_env \<Rightarrow> unit scomp \<Rightarrow> bool" for E where
  opt_logger: "package_option E (WithLogger l)"
| opt_auth: "package_option E (WithAuthFunc fn)"
| opt_excluded: "package_option E (WithExcludedMethods ms)"
| opt_demoted: "package_option E (WithDemotedMethods ms)"
| opt_limiter: "package_option E (WithRateLimiter E l)"
| opt_limit: "package_option E (WithRateLimit E rps burst)"
| opt_proxy: "package_option E (WithTrustProxy b)"

text \<open>Every in-memory limiter but the configured one has been told to stop.\<close>

definition leak_free :: "server_world \<Rightarrow> bool" where
  "leak_free w \<longleftrightarrow>
     (\<forall>p < length (mem_limiters w). stop_once (mem_limiters w ! p) = stop_closed (mem_limiters w ! p) \<and>
        (rateLimiter (defaultConfig w) = Some (MemoryLimiter p) \<or> stop_closed (mem_limiters w ! p)))"

lemma stop_previous_run:
  assumes "leak_free w" "stopPreviousLimiter E (rateLimiter (defaultConfig w)) w = (r, w')"
  shows "defaultConfig w' = defaultConfig w" "length (mem_limiters w') = length (mem_limiters w)"
    and "r = Ret () \<Longrightarrow> p < length (mem_limiters w) \<Longrightarrow>
           stop_once (mem_limiters w' ! p) \<and> stop_closed (mem_limiters w' ! p)"
    and "r \<noteq> Ret () \<Longrightarrow> w' = w"
  using assms
  by (cases "(E, rateLimiter (defaultConfig w))" rule: stopPreviousLimiter.cases;
      force simp: leak_free_def with_limiter_def set_limiter_def mem_stop_def comp_simps nth_list_update
        split: if_splits option.splits)+

lemma stop_previous_config:
  "stopPreviousLimiter E l w = (r, w') \<Longrightarrow> defaultConfig w' = defaultConfig w"
  by (cases "(E, l)" rule: stopPreviousLimiter.cases)
    (auto simp: with_limiter_def set_limiter_def mem_stop_def comp_simps split: if_splits option.splits)

lemma WithRateLimit_fresh:
  assumes "WithRateLimit E rps burst w0 = (Ret (), w)"
  shows "\<exists>p. rateLimiter (defaultConfig w) = Some (MemoryLimiter p) \<and> p < length (mem_limiters w) \<and>
           mem_limiters w ! p = NewMemoryRateLimiter rps burst (10 * minute) \<and>
           trustProxy (defaultConfig w) = trustProxy (defaultConfig w0)"
proof -
  obtain r1 w1 where run: "stopPreviousLimiter E (rateLimiter (defaultConfig w0)) w0 = (r1, w1)" by fastforce
  then show ?thesis
    using assms stop_previous_config [OF run]
    by (cases r1) (auto simp: WithRateLimit_def set_config_def new_limiter_def comp_simps nth_append)
qed

lemma keeps_leak_free_same:
  "(\<And>w. \<exists>w'. opt w = (Ret (), w') \<and> mem_limiters w' = mem_limiters w \<and>
      rateLimiter (defaultConfig w') = rateLimiter (defaultConfig w)) \<Longrightarrow> keeps leak_free opt"
  unfolding keeps_def leak_free_def by (metis snd_conv)

lemma keeps_leak_free_replace:
  assumes "leak_free w"
  shows "leak_free (snd (WithRateLimiter E l w))" and "leak_free (snd (WithRateLimit E rps burst w))"
proof -
  obtain r w1 where run: "stopPreviousLimiter E (rateLimiter (defaultConfig w)) w = (r, w1)" by fastforce
  note stop = stop_previous_run [OF assms run]
  show "leak_free (snd (WithRateLimiter E l w))" "leak_free (snd (WithRateLimit E rps burst w))"
    by (cases r; use stop run assms in \<open>auto simp: leak_free_def WithRateLimiter_def WithRateLimit_def
        set_config_def new_limiter_def comp_simps nth_append NewMemoryRateLimiter_def Let_def less_Suc_eq\<close>)+
qed

lemma package_option_leak_free: "package_option E opt \<Longrightarrow> keeps leak_free opt"
proof (induction rule: package_option.induct)
  case (opt_limiter l)
  show ?case by (simp add: keeps_def keeps_leak_free_replace)
next
  case (opt_limit rps burst)
  show ?case by (simp add: keeps_def keeps_leak_free_replace)
qed (rule keeps_leak_free_same; simp add: simple_options)+


text \<open>The parameters of witnesses.\<close>

definition sample_env :: "(string \<Rightarrow> string list) srv_env" where
  "sample_env = \<lparr>from_error = sample_from_error, status_text = (\<lambda>c m. m), code_text = (\<lambda>c. ''code''),
     md_new = (\<lambda>k. []), md_get = (\<lambda>m. m), md_copy = (\<lambda>m. m), md_set = (\<lambda>m k vs. m(k := vs)),
     bucket_answer = window_fn second,
     auth_impl = (\<lambda>i c t. if t = ''good'' then ret (with_value c (OtherKey i) (StringValue t), None)
                          else ret (c, Some (ForeignError i t))),
     limiter_impl = (\<lambda>i c k. ret (i = 0, if i = 2 then Some (ForeignError 2 ''down'') else None)),
     limiter_stoppable = (\<lambda>i. i = 0)\<rparr>"

lemma sample_env_laws: "status_laws sample_env" "md_laws sample_env"
  by (simp_all add: status_laws_def md_laws_def status_code_def sample_env_def sample_from_error_def)


text \<open>Configuring the limiter that is already in force stops it: afterwards the limiter in
  force is one whose cleanup loop has been told to end, so its table only grows.\<close>

theorem reapplied_limiter_stopped:
  assumes "rateLimiter (defaultConfig w) = Some (MemoryLimiter p)" "p < length (mem_limiters w)" "leak_free w"
  shows "\<exists>w'. Configure [WithRateLimiter E (Some (MemoryLimiter p))] w = (Ret (), w') \<and>
           rateLimiter (defaultConfig w') = Some (MemoryLimiter p) \<and> stop_closed (mem_limiters w' ! p)"
proof -
  obtain r w1 where run: "stopPreviousLimiter E (rateLimiter (defaultConfig w)) w = (r, w1)" by fastforce
  have "r = Ret ()"
    using run assms by (auto simp: leak_free_def with_limiter_def set_limiter_def mem_stop_def comp_simps
        split: if_splits option.splits)
  then show ?thesis
    using run assms stop_previous_run(3) [OF assms(3) run, of p]
    by (simp add: WithRateLimiter_def set_config_def comp_simps)
qed

theorem reapplied_limiter_stopped_witness:
  "\<exists>w'. Configure [WithRateLimiter sample_env (Some (MemoryLimiter 0))]
      (snd (WithRateLimit sample_env (Finite 1) 1 sample_world)) = (Ret (), w') \<and>
    rateLimiter (defaultConfig w') = Some (MemoryLimiter 0) \<and> stop_closed (mem_limiters w' ! 0)"
  by (rule reapplied_limiter_stopped)
    (simp_all add: sample_world_def initial_config_def WithRateLimit_def set_config_def new_limiter_def
      leak_free_def NewMemoryRateLimiter_def Let_def comp_simps)

end
