(* ===== verification/Go_Json.thy ===== *)
theory Go_Json
  imports Main
begin

text \<open>
  \<^verbatim>\<open>encoding/json.Valid\<close> of the Go standard library, which the option \<^verbatim>\<open>WithDefaultServiceConfig\<close>
  asks before it accepts a configuration: a recogniser for one JSON value between white space,
  on bytes. As in Go, a string may hold any byte from 0x20 up, and nesting is limited to 10000.

  A recogniser returns what is left of the input. The fuel of \<open>json_value\<close> bounds the number of
  nested and successive values, at most two calls for each byte they consume, and \<open>json_valid\<close> gives that much.
\<close>

definition json_space :: "char \<Rightarrow> bool" where
  "json_space c \<longleftrightarrow> c \<in> {CHR '' '', CHR 0x09, CHR 0x0A, CHR 0x0D}"

definition skip_space :: "string \<Rightarrow> string" where
  "skip_space s = dropWhile json_space s"

definition json_digit :: "char \<Rightarrow> bool" where
  "json_digit c \<longleftrightarrow> c \<in> set ''0123456789''"

definition json_hex :: "char \<Rightarrow> bool" where
  "json_hex c \<longleftrightarrow> c \<in> set ''0123456789abcdefABCDEF''"

fun json_string :: "string \<Rightarrow> string option" where
  \<comment> \<open>after the opening quote\<close>
  "json_string [] = None"
| "json_string (c # s) =
     (if c = CHR 0x22 then Some s
      else if c = CHR 0x5C then
        (case s of
           [] \<Rightarrow> None
         | e # t \<Rightarrow>
             if e \<in> set ''/bfnrt'' \<or> e = CHR 0x22 \<or> e = CHR 0x5C then json_string t
             else if e = CHR ''u'' then
               (case t of
                  a # b # c # d # u \<Rightarrow> if list_all json_hex [a, b, c, d] then json_string u else None
                | _ \<Rightarrow> None)
             else None)
      else if (of_char c :: nat) < 0x20 then None
      else json_string s)"

definition json_digits :: "string \<Rightarrow> string option" where
  \<comment> \<open>one or more digits\<close>
  "json_digits s = (case s of c # t \<Rightarrow> if json_digit c then Some (dropWhile json_digit t) else None | [] \<Rightarrow> None)"

definition json_integer :: "string \<Rightarrow> string option" where
  "json_integer s =
     (case s of
        c # t \<Rightarrow> if c = CHR ''0'' then Some t else json_digits s
      | [] \<Rightarrow> None)"

definition json_fraction :: "string \<Rightarrow> string option" where
  "json_fraction s = (case s of c # t \<Rightarrow> if c = CHR ''.'' then json_digits t else Some s | [] \<Rightarrow> Some s)"

definition json_exponent :: "string \<Rightarrow> string option" where
  "json_exponent s =
     (case s of
        c # t \<Rightarrow>
          if c \<in> set ''eE'' then
            (case t of
               d # u \<Rightarrow> if d \<in> set ''+-'' then json_digits u else json_digits t
             | [] \<Rightarrow> None)
          else Some s
      | [] \<Rightarrow> Some s)"

definition json_number :: "string \<Rightarrow> string option" where
  "json_number s =
     Option.bind (json_integer (case s of c # t \<Rightarrow> if c = CHR ''-'' then t else s | [] \<Rightarrow> s))
       (\<lambda>r. Option.bind (json_fraction r) json_exponent)"

definition literal :: "string \<Rightarrow> string \<Rightarrow> string option" where
  "literal w s = (if take (length w) s = w then Some (drop (length w) s) else None)"

text \<open>A value, the rest of an array after a value, and the members of an object, with the fuel and
  the nesting depth still allowed.\<close>

fun json_value :: "nat \<Rightarrow> int \<Rightarrow> string \<Rightarrow> string option"
  and json_elements :: "nat \<Rightarrow> int \<Rightarrow> string \<Rightarrow> string option"
  and json_members :: "nat \<Rightarrow> int \<Rightarrow> string \<Rightarrow> string option" where
  "json_value 0 d s = None"
| "json_value (Suc n) d s =
     (case skip_space s of
        [] \<Rightarrow> None
      | c # t \<Rightarrow>
          if c = CHR ''{'' then
            (if d \<le> 0 then None
             else (case skip_space t of
                     e # u \<Rightarrow> if e = CHR ''}'' then Some u else json_members n (d - 1) t
                   | [] \<Rightarrow> None))
          else if c = CHR ''['' then
            (if d \<le> 0 then None
             else (case skip_space t of
                     e # u \<Rightarrow> if e = CHR '']'' then Some u else json_elements n (d - 1) t
                   | [] \<Rightarrow> None))
          else if c = CHR 0x22 then json_string t
          else if c = CHR ''t'' then literal ''rue'' t
          else if c = CHR ''f'' then literal ''alse'' t
          else if c = CHR ''n'' then literal ''ull'' t
          else json_number (c # t))"
| "json_elements 0 d s = None"
| "json_elements (Suc n) d s =
     (case json_value n d s of
        None \<Rightarrow> None
      | Some r \<Rightarrow>
          (case skip_space r of
             c # t \<Rightarrow> if c = CHR '','' then json_elements n d t else if c = CHR '']'' then Some t else None
           | [] \<Rightarrow> None))"
| "json_members 0 d s = None"
| "json_members (Suc n) d s =
     (case skip_space s of
        [] \<Rightarrow> None
      | q # t \<Rightarrow>
          if q = CHR 0x22 then
            (case json_string t of
               None \<Rightarrow> None
             | Some r \<Rightarrow>
                 (case skip_space r of
                    c # u \<Rightarrow>
                      if c = CHR '':'' then
                        (case json_value n d u of
                           None \<Rightarrow> None
                         | Some v \<Rightarrow>
                             (case skip_space v of
                                e # x \<Rightarrow> if e = CHR '','' then json_members n d x
                                         else if e = CHR ''}'' then Some x else None
                              | [] \<Rightarrow> None))
                      else None
                  | [] \<Rightarrow> None))
          else None)"

definition json_valid :: "string \<Rightarrow> bool" where
  "json_valid s =
     (case json_value (2 * length s + 2) 10000 s of None \<Rightarrow> False | Some r \<Rightarrow> skip_space r = [])"

section \<open>Samples\<close>

lemma json_samples:
  "json_valid ''{ }''" "\<not> json_valid ''{''" "\<not> json_valid []" "json_valid ''[-0.5e+3]''" "\<not> json_valid ''{} {}''"
  by code_simp+

end
