(* ===== verification/Server.thy ===== *)
theory Server
  imports Server_Config Go_Json
begin

text \<open>
  \<^verbatim>\<open>internal/server/option.go\<close> and the construction half of \<^verbatim>\<open>internal/server/server.go\<close>: the
  \<^verbatim>\<open>Server\<close> object, its functional options, \<^verbatim>\<open>New\<close>, \<^verbatim>\<open>RegisterService\<close>, \<^verbatim>\<open>buildOptions\<close> and
  \<^verbatim>\<open>setupServer\<close>. \<^verbatim>\<open>Run\<close> is in the theory \<open>Server_Run\<close>.

  Interceptors, service registrars and raw options are values the object only stores and hands
  on, of types \<open>'ui\<close>, \<open>'si\<close> and \<open>nat\<close>. Files, certificates and listeners are outside the program:
  the record \<open>host_env\<close> says what reading them gives.
\<close>

section \<open>Data\<close>

record tls_config =
  tls_certificate :: nat
  client_auth :: bool                 \<comment> \<open>\<^verbatim>\<open>RequireAndVerifyClientCert\<close>\<close>
  client_cas :: "string option"       \<comment> \<open>the PEM text the pool was made of\<close>
  min_version :: "16 word"

record host_env =
  load_key_pair :: "string \<Rightarrow> string \<Rightarrow> goerror + nat"   \<comment> \<open>\<^verbatim>\<open>tls.LoadX509KeyPair\<close>\<close>
  read_file :: "string \<Rightarrow> goerror + string"                \<comment> \<open>\<^verbatim>\<open>os.ReadFile\<close>\<close>
  pem_has_certs :: "string \<Rightarrow> bool"                        \<comment> \<open>\<^verbatim>\<open>AppendCertsFromPEM\<close>\<close>

datatype ('ui, 'si) grpc_option =
    Creds tls_config
  | ChainUnary "'ui list"
  | ChainStream "'si list"
  | KeepaliveParams nat
  | KeepaliveEnforcementPolicy nat
  | MaxRecvMsgSize int
  | MaxSendMsgSize int
  | MaxConcurrentStreams "32 word"
  | RawOption nat

datatype health_call = SetServing string | HealthShutdown

record ('ui, 'si) server =
  port :: string
  reflection :: bool
  tlsConfig :: "tls_config option"
  srv_logger :: log_handler
  unaryInterceptors :: "'ui list"
  streamInterceptors :: "'si list"
  registrars :: "nat list"
  grpcOpts :: "('ui, 'si) grpc_option list"
  listener :: "nat option"
  healthSrv :: "health_call list option"   \<comment> \<open>the calls made on the health server\<close>
  serviceConfig :: string
  configErr :: "goerror option"

type_synonym ('ui, 'si) server_option = "('ui, 'si) server \<Rightarrow> ('ui, 'si) server scomp"

section \<open>Options\<close>

definition pure_opt :: "('s \<Rightarrow> 's) \<Rightarrow> 's \<Rightarrow> ('w, 's) comp" where
  "pure_opt f s = ret (f s)"

definition WithPort :: "string \<Rightarrow> ('ui, 'si) server_option" where
  "WithPort p = pure_opt (port_update (\<lambda>_. p))"

definition WithReflection :: "('ui, 'si) server_option" where
  "WithReflection = pure_opt (reflection_update (\<lambda>_. True))"

definition tls_failed :: "goerror \<Rightarrow> ('ui, 'si) server \<Rightarrow> ('ui, 'si) server" where
  "tls_failed e s = s\<lparr>configErr := Some e, tlsConfig := None\<rparr>"

definition WithTLS :: "host_env \<Rightarrow> string \<Rightarrow> string \<Rightarrow> ('ui, 'si) server_option" where
  "WithTLS H certFile keyFile = pure_opt (\<lambda>s.
     case load_key_pair H certFile keyFile of
       Inl err \<Rightarrow> tls_failed (WrapError ''failed to load TLS certificate: '' err) s
     | Inr cert \<Rightarrow> s\<lparr>configErr := None,
         tlsConfig := Some \<lparr>tls_certificate = cert, client_auth = False, client_cas = None, min_version = version_TLS13\<rparr>\<rparr>)"

definition WithMutualTLS :: "host_env \<Rightarrow> string \<Rightarrow> string \<Rightarrow> string \<Rightarrow> ('ui, 'si) server_option" where
  "WithMutualTLS H certFile keyFile caCertFile = pure_opt (\<lambda>s.
     case load_key_pair H certFile keyFile of
       Inl err \<Rightarrow> tls_failed (WrapError ''failed to load TLS certificate: '' err) s
     | Inr cert \<Rightarrow>
         (case read_file H caCertFile of
            Inl err \<Rightarrow> tls_failed (WrapError ''failed to read CA certificate: '' err) s
          | Inr caCert \<Rightarrow>
              if \<not> pem_has_certs H caCert
              then tls_failed (ErrorText (''failed to parse CA certificate from '' @ caCertFile)) s
              else s\<lparr>configErr := None,
                tlsConfig := Some \<lparr>tls_certificate = cert, client_auth = True, client_cas = Some caCert,
                  min_version = version_TLS13\<rparr>\<rparr>))"

definition WithUnaryInterceptors :: "'ui list \<Rightarrow> ('ui, 'si) server_option" where
  "WithUnaryInterceptors is = pure_opt (unaryInterceptors_update (\<lambda>xs. xs @ is))"

definition WithStreamInterceptors :: "'si list \<Rightarrow> ('ui, 'si) server_option" where
  "WithStreamInterceptors is = pure_opt (streamInterceptors_update (\<lambda>xs. xs @ is))"

definition WithGrpcOptions :: "('ui, 'si) grpc_option list \<Rightarrow> ('ui, 'si) server_option" where
  "WithGrpcOptions opts = pure_opt (grpcOpts_update (\<lambda>xs. xs @ opts))"

definition WithKeepalive :: "nat \<Rightarrow> nat \<Rightarrow> ('ui, 'si) server_option" where
  "WithKeepalive params policy =
     pure_opt (grpcOpts_update (\<lambda>xs. xs @ [KeepaliveParams params, KeepaliveEnforcementPolicy policy]))"

definition WithMaxMsgSize :: "int \<Rightarrow> ('ui, 'si) server_option" where
  "WithMaxMsgSize n = pure_opt (grpcOpts_update (\<lambda>xs. xs @ [MaxRecvMsgSize n, MaxSendMsgSize n]))"

definition WithMaxConcurrentStreams :: "32 word \<Rightarrow> ('ui, 'si) server_option" where
  "WithMaxConcurrentStreams n = pure_opt (grpcOpts_update (\<lambda>xs. xs @ [MaxConcurrentStreams n]))"

definition WithListener :: "nat option \<Rightarrow> ('ui, 'si) server_option" where
  "WithListener lis = pure_opt (listener_update (\<lambda>_. lis))"

definition WithDefaultServiceConfig :: "string \<Rightarrow> ('ui, 'si) server_option" where
  "WithDefaultServiceConfig json = pure_opt (\<lambda>s.
     if json = [] then s
     else if \<not> json_valid json then s\<lparr>configErr := Some (ErrorText (''invalid service config JSON: '' @ json))\<rparr>
     else s\<lparr>configErr := None, serviceConfig := json\<rparr>)"

text \<open>The options that configure the interceptor package; \<^verbatim>\<open>WithLogger\<close> also sets the server's own.\<close>

definition delegated :: "unit scomp \<Rightarrow> ('ui, 'si) server_option" where
  "delegated opt s = thenc (Configure [opt]) (ret s)"

definition server_WithLogger :: "log_handler option \<Rightarrow> ('ui, 'si) server_option" where
  "server_WithLogger l s =
     bindc (Resolve l) (\<lambda>h. thenc (Configure [WithLogger l]) (ret (s\<lparr>srv_logger := h\<rparr>)))"

definition server_WithAuthFunc :: "nat option \<Rightarrow> ('ui, 'si) server_option" where
  "server_WithAuthFunc fn = delegated (WithAuthFunc fn)"

definition server_WithExcludedMethods :: "string list \<Rightarrow> ('ui, 'si) server_option" where
  "server_WithExcludedMethods ms = delegated (WithExcludedMethods ms)"

definition server_WithDemotedMethods :: "string list \<Rightarrow> ('ui, 'si) server_option" where
  "server_WithDemotedMethods ms = delegated (WithDemotedMethods ms)"

definition server_WithRateLimit :: "'md srv_env \<Rightarrow> float64 \<Rightarrow> int \<Rightarrow> ('ui, 'si) server_option" where
  "server_WithRateLimit E rps burst = delegated (WithRateLimit E rps burst)"

definition server_WithRateLimiter :: "'md srv_env \<Rightarrow> rate_limiter option \<Rightarrow> ('ui, 'si) server_option" where
  "server_WithRateLimiter E l = delegated (WithRateLimiter E l)"

definition server_WithTrustProxy :: "bool \<Rightarrow> ('ui, 'si) server_option" where
  "server_WithTrustProxy trust = delegated (WithTrustProxy trust)"

section \<open>Construction\<close>

fun apply_opts :: "('s \<Rightarrow> ('w, 's) comp) list \<Rightarrow> 's \<Rightarrow> ('w, 's) comp" where
  \<comment> \<open>\<^verbatim>\<open>for _, opt := range opts { opt(s) }\<close>\<close>
  "apply_opts [] s = ret s"
| "apply_opts (opt # opts) s = bindc (opt s) (apply_opts opts)"

definition new_server :: "log_handler \<Rightarrow> ('ui, 'si) server" where
  "new_server l = \<lparr>port = ''50051'', reflection = False, tlsConfig = None, srv_logger = l, unaryInterceptors = [],
     streamInterceptors = [], registrars = [], grpcOpts = [], listener = None, healthSrv = None,
     serviceConfig = [], configErr = None\<rparr>"

definition New :: "('ui, 'si) server_option list \<Rightarrow> ('ui, 'si) server scomp" where
  "New opts = bindc Default (\<lambda>l. apply_opts opts (new_server l))"

definition server_Logger :: "('ui, 'si) server \<Rightarrow> log_handler" where
  "server_Logger s = srv_logger s"

definition Health :: "('ui, 'si) server \<Rightarrow> health_call list option" where
  "Health s = healthSrv s"

definition ServiceConfig :: "('ui, 'si) server \<Rightarrow> string" where
  "ServiceConfig s = serviceConfig s"

definition RegisterService :: "nat list \<Rightarrow> ('ui, 'si) server \<Rightarrow> ('ui, 'si) server" where
  "RegisterService rs s = (if rs = [] then s else s\<lparr>registrars := registrars s @ rs\<rparr>)"

definition buildOptions :: "('ui, 'si) server \<Rightarrow> ('ui, 'si) grpc_option list scomp" where
  "buildOptions s =
     thenc (if tlsConfig s \<noteq> None then log_call (srv_logger s) LevelInfo ''gRPC TLS enabled'' [] else ret ())
       (ret ((case tlsConfig s of Some c \<Rightarrow> [Creds c] | None \<Rightarrow> []) @
             (if unaryInterceptors s \<noteq> [] then [ChainUnary (unaryInterceptors s)] else []) @
             (if streamInterceptors s \<noteq> [] then [ChainStream (streamInterceptors s)] else []) @
             grpcOpts s))"

text \<open>A \<^verbatim>\<open>*grpc.Server\<close> as the program makes it: the options it was created with and the
  services registered on it, in order.\<close>

datatype registration = UserService nat | HealthService | ReflectionService

record ('ui, 'si) grpc_server =
  created_with :: "('ui, 'si) grpc_option list"
  registered :: "registration list"

definition setupServer :: "('ui, 'si) server \<Rightarrow> (('ui, 'si) grpc_server \<times> ('ui, 'si) server) scomp" where
  "setupServer s =
     bindc (buildOptions s) (\<lambda>opts.
       let g = \<lparr>created_with = opts, registered = []\<rparr>;
           g = g\<lparr>registered := registered g @ map UserService (registrars s)\<rparr>;
           s = s\<lparr>healthSrv := Some []\<rparr>;
           g = g\<lparr>registered := registered g @ [HealthService]\<rparr>;
           s = s\<lparr>healthSrv := Some [SetServing []]\<rparr>
       in if reflection s then
            thenc (log_call (srv_logger s) LevelInfo ''gRPC server reflection enabled'' [])
              (ret (g\<lparr>registered := registered g @ [ReflectionService]\<rparr>, s))
          else ret (g, s))"

lemmas server_option_defs = WithPort_def WithReflection_def WithTLS_def WithMutualTLS_def
  WithUnaryInterceptors_def WithStreamInterceptors_def WithGrpcOptions_def WithKeepalive_def WithMaxMsgSize_def
  WithMaxConcurrentStreams_def WithListener_def WithDefaultServiceConfig_def pure_opt_def

lemmas delegated_option_defs = server_WithLogger_def server_WithAuthFunc_def server_WithExcludedMethods_def
  server_WithDemotedMethods_def server_WithRateLimit_def server_WithRateLimiter_def server_WithTrustProxy_def
  delegated_def

section \<open>TLS\<close>

datatype tls_opt = TLS string string | MutualTLS string string string

fun tls_option :: "host_env \<Rightarrow> tls_opt \<Rightarrow> ('ui, 'si) server_option" where
  "tls_option H (TLS cert key) = WithTLS H cert key"
| "tls_option H (MutualTLS cert key ca) = WithMutualTLS H cert key ca"

fun tls_outcome :: "host_env \<Rightarrow> tls_opt \<Rightarrow> goerror + tls_config" where
  "tls_outcome H (TLS cert key) =
     (case load_key_pair H cert key of
        Inl e \<Rightarrow> Inl (WrapError ''failed to load TLS certificate: '' e)
      | Inr c \<Rightarrow> Inr \<lparr>tls_certificate = c, client_auth = False, client_cas = None, min_version = version_TLS13\<rparr>)"
| "tls_outcome H (MutualTLS cert key ca) =
     (case load_key_pair H cert key of
        Inl e \<Rightarrow> Inl (WrapError ''failed to load TLS certificate: '' e)
      | Inr c \<Rightarrow>
          (case read_file H ca of
             Inl e \<Rightarrow> Inl (WrapError ''failed to read CA certificate: '' e)
           | Inr pem \<Rightarrow>
               if pem_has_certs H pem then Inr \<lparr>tls_certificate = c, client_auth = True, client_cas = Some pem,
                   min_version = version_TLS13\<rparr>
               else Inl (ErrorText (''failed to parse CA certificate from '' @ ca))))"

text \<open>Every option but the TLS ones and \<^verbatim>\<open>WithDefaultServiceConfig\<close>.\<close>

inductive other_option :: "'md srv_env \<Rightarrow> ('ui, 'si) server_option \<Rightarrow> bool" for E where
  oo_port: "other_option E (WithPort p)"
| oo_reflection: "other_option E WithReflection"
| oo_unary: "other_option E (WithUnaryInterceptors is)"
| oo_stream: "other_option E (WithStreamInterceptors js)"
| oo_keepalive: "other_option E (WithKeepalive a b)"
| oo_size: "other_option E (WithMaxMsgSize n)"
| oo_streams: "other_option E (WithMaxConcurrentStreams k)"
| oo_raw: "other_option E (WithGrpcOptions os)"
| oo_listener: "other_option E (WithListener lis)"
| oo_logger: "other_option E (server_WithLogger l)"
| oo_auth: "other_option E (server_WithAuthFunc fn)"
| oo_excluded: "other_option E (server_WithExcludedMethods ms)"
| oo_demoted: "other_option E (server_WithDemotedMethods ms)"
| oo_rate: "other_option E (server_WithRateLimit E rps burst)"
| oo_limiter: "other_option E (server_WithRateLimiter E rl)"
| oo_proxy: "other_option E (server_WithTrustProxy b)"

definition tls_state :: "('ui, 'si) server \<Rightarrow> goerror option \<times> tls_config option" where
  "tls_state s = (configErr s, tlsConfig s)"

lemma other_option_tls:
  "other_option E opt \<Longrightarrow> opt s w = (Ret s', w') \<Longrightarrow> tls_state s' = tls_state s"
  by (induction rule: other_option.induct)
    (auto simp: server_option_defs delegated_option_defs tls_state_def comp_simps split: prod.splits outcome.splits)

lemma other_options_tls:
  "(\<And>opt. opt \<in> set opts \<Longrightarrow> other_option E opt) \<Longrightarrow> apply_opts opts s w = (Ret s', w') \<Longrightarrow> tls_state s' = tls_state s"
proof (induction opts arbitrary: s w)
  case Nil
  then show ?case by (simp add: ret_apply)
next
  case (Cons opt opts)
  obtain s1 w1 where "opt s w = (Ret s1, w1)" "apply_opts opts s1 w1 = (Ret s', w')"
    using Cons.prems(2) by (auto simp: bindc_apply split: prod.splits outcome.splits)
  then show ?case using Cons.IH [of s1 w1] Cons.prems(1) other_option_tls by fastforce
qed

lemma tls_option_state:
  "tls_option H t s w = (Ret s', w') \<Longrightarrow> tls_state s' = (case tls_outcome H t of Inl e \<Rightarrow> (Some e, None) | Inr c \<Rightarrow> (None, Some c))"
  by (cases t) (auto simp: server_option_defs tls_failed_def tls_state_def ret_apply split: sum.splits if_splits)

lemma apply_opts_append: "apply_opts (xs @ ys) = (\<lambda>s. bindc (apply_opts xs s) (apply_opts ys))"
  by (induction xs) (rule ext, simp add: bindc_assoc)+

text \<open>The last TLS option decides: whatever options precede it, and whatever other options
  follow, a server whose last TLS option failed carries that option's error and no TLS
  configuration left from an earlier one, and a server whose last TLS option succeeded carries
  its configuration and no earlier error.\<close>

theorem last_tls_option_decides:
  assumes "New (before @ [tls_option H t] @ after) w = (Ret s, w')"
    and "\<And>opt. opt \<in> set after \<Longrightarrow> other_option E opt"
  shows "configErr s = (case tls_outcome H t of Inl e \<Rightarrow> Some e | Inr c \<Rightarrow> None) \<and>
         tlsConfig s = (case tls_outcome H t of Inl e \<Rightarrow> None | Inr c \<Rightarrow> Some c)"
proof -
  obtain s1 w1 s2 w2 where "tls_option H t s1 w1 = (Ret s2, w2)" and rest: "apply_opts after s2 w2 = (Ret s, w')"
    using assms(1) by (auto simp: New_def Default_def apply_opts_append comp_simps split: prod.splits outcome.splits)
  then have "tls_state s2 = (case tls_outcome H t of Inl e \<Rightarrow> (Some e, None) | Inr c \<Rightarrow> (None, Some c))"
    by (intro tls_option_state)
  moreover have "tls_state s = tls_state s2" by (rule other_options_tls [OF assms(2) rest])
  ultimately show ?thesis by (simp add: tls_state_def split: sum.splits)
qed

definition sample_host :: host_env where
  "sample_host = \<lparr>load_key_pair = (\<lambda>c k. if c = ''cert.pem'' then Inr 1 else Inl (ForeignError 1 ''no such file'')),
     read_file = (\<lambda>f. if f = ''ca.pem'' then Inr ''PEM'' else Inl (ForeignError 2 ''no such file'')),
     pem_has_certs = (\<lambda>t. t = ''PEM'')\<rparr>"

theorem last_tls_option_decides_witness:
  "\<exists>s w'. New [WithTLS sample_host ''cert.pem'' ''key.pem'', WithTLS sample_host ''missing'' ''key.pem'', WithPort ''80'']
       sample_world = (Ret s, w') \<and> configErr s \<noteq> None \<and> tlsConfig (s :: (unit, unit) server) = None"
proof -
  let ?opts = "[WithTLS sample_host ''cert.pem'' ''key.pem''] @ [tls_option sample_host (TLS ''missing'' ''key.pem'')] @ [WithPort ''80'']"
  obtain s :: "(unit, unit) server" and w' where run: "New ?opts sample_world = (Ret s, w')"
    by (simp add: New_def Default_def server_option_defs comp_simps)
  have "configErr s \<noteq> None \<and> tlsConfig s = None"
    using last_tls_option_decides [OF run, where E = sample_env]
    by (simp add: oo_port) (simp add: sample_host_def)
  with run show ?thesis by auto
qed

text \<open>A failed TLS option can be forgotten: if any accepted \<^verbatim>\<open>WithDefaultServiceConfig\<close> follows
  it, the server has no configuration error and no TLS, so it starts without credentials.\<close>

theorem service_config_clears_tls_error:
  assumes "tls_outcome H t = Inl e" "json \<noteq> []" "json_valid json"
    and "\<And>opt. opt \<in> set after \<Longrightarrow> other_option E opt"
    and "New (before @ [tls_option H t, WithDefaultServiceConfig json] @ after) w = (Ret s, w')"
  shows "configErr s = None \<and> tlsConfig s = None"
proof -
  obtain s1 w1 s2 w2 s3 w3 where "tls_option H t s1 w1 = (Ret s2, w2)"
    and json: "WithDefaultServiceConfig json s2 w2 = (Ret s3, w3)" and rest: "apply_opts after s3 w3 = (Ret s, w')"
    using assms(5) by (auto simp: New_def Default_def apply_opts_append comp_simps split: prod.splits outcome.splits)
  then have "tls_state s2 = (Some e, None)" using tls_option_state [of H t s1 w1] assms(1) by simp
  then have "tls_state s3 = (None, None)"
    using json assms(2,3) by (auto simp: server_option_defs tls_state_def ret_apply)
  then show ?thesis using other_options_tls [OF assms(4) rest] by (simp add: tls_state_def)
qed

theorem service_config_clears_tls_error_witness:
  "\<exists>s w'. New [WithTLS sample_host ''missing'' ''key.pem'', WithDefaultServiceConfig ''{ }''] sample_world = (Ret s, w') \<and>
     configErr s = None \<and> tlsConfig (s :: (unit, unit) server) = None"
proof -
  let ?opts = "[] @ [tls_option sample_host (TLS ''missing'' ''key.pem''), WithDefaultServiceConfig ''{ }''] @ []"
  obtain s :: "(unit, unit) server" and w' where run: "New ?opts sample_world = (Ret s, w')"
    by (simp add: New_def Default_def server_option_defs comp_simps)
  have "tls_outcome sample_host (TLS ''missing'' ''key.pem'')
      = Inl (WrapError ''failed to load TLS certificate: '' (ForeignError 1 ''no such file''))"
    by (simp add: sample_host_def)
  from service_config_clears_tls_error [OF this _ json_samples(1) _ run] run show ?thesis by auto
qed

section \<open>Set-up\<close>

lemma setupServer_returns:
  "\<exists>g s' w'. setupServer s w = (Ret (g, s'), w') \<and> listener s' = listener s \<and> port s' = port s"
  by (auto simp: setupServer_def buildOptions_def Let_def comp_simps)

end
