(* ===== verification/Server_Run.thy ===== *)
theory Server_Run
  imports Server
begin

text \<open>
  \<^verbatim>\<open>Server.Run\<close> of \<^verbatim>\<open>internal/server/server.go\<close>. Its beginning, up to the listener, is sequential
  and is the definition \<open>run_start\<close>; from there the main goroutine and the serving goroutine run
  side by side with the library's server and are the step relation \<open>run_step\<close>. What happens
  around them (the context finishing, an RPC arriving, the listener failing) is \<open>env_step\<close>.

  The library's part is its documented behaviour: \<^verbatim>\<open>Serve\<close> returns a non-nil error unless the
  server has been stopped, returns at once on a stopped server, and \<^verbatim>\<open>GracefulStop\<close> refuses new
  RPCs and waits for the ones in flight.
\<close>

section \<open>The sequential beginning\<close>

definition run_start ::
  "(string \<Rightarrow> goerror + nat) \<Rightarrow> ('ui, 'si) server
     \<Rightarrow> ((goerror + ('ui, 'si) grpc_server \<times> nat) \<times> ('ui, 'si) server) scomp" where
  "run_start net_listen s =
     (case configErr s of
        Some e \<Rightarrow> ret (Inl (WrapError ''server: configuration error: '' e), s)
      | None \<Rightarrow>
          bindc (setupServer s) (\<lambda>(g, s).
            let lis = listener s; s = s\<lparr>listener := None\<rparr> in
            case lis of
              Some l \<Rightarrow> ret (Inr (g, l), s)
            | None \<Rightarrow>
                (case net_listen ('':'' @ port s) of
                   Inl e \<Rightarrow> ret (Inl (WrapError (''failed to listen on port '' @ port s @ '': '') e), s)
                 | Inr l \<Rightarrow> ret (Inr (g, l), s))))"

text \<open>A configuration error stops \<^verbatim>\<open>Run\<close> before it does anything; otherwise, whatever the outcome,
  the injected listener is used up, so two runs of one server never serve the same one, and an
  error can only be the failure to listen on the configured port.\<close>

lemma run_consumes_listener:
  assumes "run_start net_listen s w = (out, w')"
  shows "(case configErr s of
            Some e \<Rightarrow> out = Ret (Inl (WrapError ''server: configuration error: '' e), s) \<and> w' = w
          | None \<Rightarrow> \<exists>r s'. out = Ret (r, s') \<and> listener s' = None \<and>
              (\<forall>g l. r = Inr (g, l) \<longrightarrow> listener s = Some l \<or> listener s = None \<and> net_listen ('':'' @ port s) = Inr l) \<and>
              (\<forall>e. r = Inl e \<longrightarrow> listener s = None \<and> (\<exists>e'. net_listen ('':'' @ port s) = Inl e' \<and>
                 e = WrapError (''failed to listen on port '' @ port s @ '': '') e')))"
proof (cases "configErr s")
  case (Some e)
  then show ?thesis using assms by (simp add: run_start_def ret_apply)
next
  case None
  obtain g s1 w1 where started: "setupServer s w = (Ret (g, s1), w1)" "listener s1 = listener s" "port s1 = port s"
    using setupServer_returns [of s w] by blast
  show ?thesis
    using assms None started
    by (cases "listener s"; cases "net_listen (CHR '':'' # port s)")
      (auto simp: run_start_def bindc_apply ret_apply Let_def)
qed

section \<open>The two goroutines\<close>

datatype main_pc =
    Selecting
  | ShutdownLogged                     \<comment> \<open>the shutdown branch, after its first record\<close>
  | HealthDown
  | Stopping                           \<comment> \<open>inside \<^verbatim>\<open>GracefulStop\<close>\<close>
  | Stopped
  | StopLogged                         \<comment> \<open>about to drain the serve result\<close>
  | ServeFailed "goerror option"       \<comment> \<open>the error branch, with the value received\<close>
  | Returned "goerror option"

datatype serve_pc = NotStarted | ListenLogged | Serving | Finished

record run_sys =
  main_at :: main_pc
  serve_at :: serve_pc
  err_ch :: "goerror option option"    \<comment> \<open>the channel of capacity one\<close>
  ctx_cancelled :: bool
  stop_called :: bool                  \<comment> \<open>\<^verbatim>\<open>GracefulStop\<close> has been called\<close>
  in_flight :: nat                     \<comment> \<open>RPCs being handled\<close>
  health_calls :: "health_call list"
  run_log :: "string list"

definition run_init :: run_sys where
  "run_init = \<lparr>main_at = Selecting, serve_at = NotStarted, err_ch = None, ctx_cancelled = False,
     stop_called = False, in_flight = 0, health_calls = [SetServing []], run_log = []\<rparr>"

definition serve_error :: "goerror option \<Rightarrow> goerror" where
  \<comment> \<open>\<^verbatim>\<open>fmt.Errorf("failed to serve: %w", err)\<close>\<close>
  "serve_error r = (case r of Some e \<Rightarrow> WrapError ''failed to serve: '' e
                    | None \<Rightarrow> ErrorText ''failed to serve: %!w(<nil>)'')"

inductive run_step :: "run_sys \<Rightarrow> run_sys \<Rightarrow> bool" where
  log_listening: "serve_at s = NotStarted \<Longrightarrow>
    run_step s (s\<lparr>serve_at := ListenLogged, run_log := run_log s @ [''gRPC server listening'']\<rparr>)"
| serve_begin: "serve_at s = ListenLogged \<Longrightarrow> \<not> stop_called s \<Longrightarrow> run_step s (s\<lparr>serve_at := Serving\<rparr>)"
| serve_refused: "serve_at s = ListenLogged \<Longrightarrow> stop_called s \<Longrightarrow>
    run_step s (s\<lparr>serve_at := Finished, err_ch := Some (Some (ErrorText ''grpc: the server has been stopped''))\<rparr>)"
| serve_ends: "serve_at s = Serving \<Longrightarrow> stop_called s \<Longrightarrow>
    run_step s (s\<lparr>serve_at := Finished, err_ch := Some r\<rparr>)"
| rpc_done: "0 < in_flight s \<Longrightarrow> run_step s (s\<lparr>in_flight := in_flight s - 1\<rparr>)"
| select_done: "main_at s = Selecting \<Longrightarrow> ctx_cancelled s \<Longrightarrow>
    run_step s (s\<lparr>main_at := ShutdownLogged,
      run_log := run_log s @ [''shutdown signal received, draining connections...'']\<rparr>)"
| health_down: "main_at s = ShutdownLogged \<Longrightarrow>
    run_step s (s\<lparr>main_at := HealthDown, health_calls := health_calls s @ [HealthShutdown]\<rparr>)"
| stop_begin: "main_at s = HealthDown \<Longrightarrow> run_step s (s\<lparr>main_at := Stopping, stop_called := True\<rparr>)"
| stop_end: "main_at s = Stopping \<Longrightarrow> in_flight s = 0 \<Longrightarrow> run_step s (s\<lparr>main_at := Stopped\<rparr>)"
| log_stopped: "main_at s = Stopped \<Longrightarrow>
    run_step s (s\<lparr>main_at := StopLogged, run_log := run_log s @ [''gRPC server stopped gracefully'']\<rparr>)"
| drain: "main_at s = StopLogged \<Longrightarrow> err_ch s = Some r \<Longrightarrow>
    run_step s (s\<lparr>main_at := Returned None, err_ch := None\<rparr>)"
| select_error: "main_at s = Selecting \<Longrightarrow> err_ch s = Some r \<Longrightarrow>
    run_step s (s\<lparr>main_at := ServeFailed r, err_ch := None\<rparr>)"
| fail: "main_at s = ServeFailed r \<Longrightarrow>
    run_step s (s\<lparr>main_at := Returned (Some (serve_error r)), health_calls := health_calls s @ [HealthShutdown]\<rparr>)"

inductive env_step :: "run_sys \<Rightarrow> run_sys \<Rightarrow> bool" where
  cancel: "env_step s (s\<lparr>ctx_cancelled := True\<rparr>)"
| serve_fails: "serve_at s = Serving \<Longrightarrow> \<not> stop_called s \<Longrightarrow>
    env_step s (s\<lparr>serve_at := Finished, err_ch := Some (Some e)\<rparr>)"
| rpc_arrives: "serve_at s = Serving \<Longrightarrow> \<not> stop_called s \<Longrightarrow> env_step s (s\<lparr>in_flight := in_flight s + 1\<rparr>)"

inductive run_reachable :: "run_sys \<Rightarrow> bool" where
  run_begins: "run_reachable run_init"
| run_goes_on: "run_reachable s \<Longrightarrow> run_step s t \<or> env_step s t \<Longrightarrow> run_reachable t"

inductive_cases run_stepE: "run_step s t"
inductive_cases env_stepE: "env_step s t"

section \<open>The invariant\<close>

fun received :: "main_pc \<Rightarrow> bool" where
  "received (ServeFailed r) = True"
| "received (Returned r) = True"
| "received _ = False"

fun shutting_down :: "main_pc \<Rightarrow> bool" where
  "shutting_down (Returned r) = (r = None)"
| "shutting_down pc = (pc \<in> {ShutdownLogged, HealthDown, Stopping, Stopped, StopLogged})"

definition run_inv :: "run_sys \<Rightarrow> bool" where
  "run_inv s \<longleftrightarrow>
     (err_ch s \<noteq> None \<longleftrightarrow> serve_at s = Finished \<and> \<not> received (main_at s)) \<and>
     (received (main_at s) \<longrightarrow> serve_at s = Finished) \<and>
     (stop_called s \<longleftrightarrow> main_at s \<in> {Stopping, Stopped, StopLogged, Returned None}) \<and>
     (main_at s \<in> {Stopped, StopLogged, Returned None} \<longrightarrow> in_flight s = 0) \<and>
     (shutting_down (main_at s) \<longrightarrow> ctx_cancelled s) \<and>
     (HealthShutdown \<in> set (health_calls s)
        \<longleftrightarrow> main_at s \<in> {HealthDown, Stopping, Stopped, StopLogged} \<or> (\<exists>r. main_at s = Returned r)) \<and>
     (err_ch s = Some None \<longrightarrow> stop_called s) \<and>
     main_at s \<noteq> ServeFailed None"

lemma run_step_inv: "run_step s t \<Longrightarrow> run_inv s \<Longrightarrow> run_inv t"
  by (induction rule: run_step.induct) (auto simp: run_inv_def)

lemma env_step_inv: "env_step s t \<Longrightarrow> run_inv s \<Longrightarrow> run_inv t"
  by (induction rule: env_step.induct) (auto simp: run_inv_def)

lemma run_reachable_inv: "run_reachable s \<Longrightarrow> run_inv s"
proof (induction rule: run_reachable.induct)
  case run_begins
  show ?case by (simp add: run_inv_def run_init_def)
next
  case (run_goes_on s t)
  then show ?case using run_step_inv env_step_inv by blast
qed

section \<open>Shutdown terminates\<close>

fun main_rank :: "main_pc \<Rightarrow> nat" where
  "main_rank Selecting = 7"
| "main_rank ShutdownLogged = 6"
| "main_rank HealthDown = 5"
| "main_rank Stopping = 4"
| "main_rank Stopped = 3"
| "main_rank StopLogged = 2"
| "main_rank (ServeFailed r) = 1"
| "main_rank (Returned r) = 0"

fun serve_rank :: "serve_pc \<Rightarrow> nat" where
  "serve_rank NotStarted = 3"
| "serve_rank ListenLogged = 2"
| "serve_rank Serving = 1"
| "serve_rank Finished = 0"

definition run_measure :: "run_sys \<Rightarrow> nat" where
  "run_measure s = main_rank (main_at s) + serve_rank (serve_at s) + in_flight s"

lemma run_step_decreases: "run_step s t \<Longrightarrow> run_measure t < run_measure s"
  by (induction rule: run_step.induct) (auto simp: run_measure_def)

lemma env_step_stopped: "env_step s t \<Longrightarrow> stop_called s \<Longrightarrow> run_measure t = run_measure s \<and> main_at t = main_at s"
  by (induction rule: env_step.induct) (auto simp: run_measure_def)

lemma run_progress:
  assumes "run_inv s" "ctx_cancelled s" "\<And>r. main_at s \<noteq> Returned r"
  shows "\<exists>t. run_step s t"
proof (cases "main_at s")
  case Stopping
  then show ?thesis using rpc_done stop_end by (cases "in_flight s") auto
next
  case StopLogged
  then have "stop_called s" "serve_at s = Finished \<longrightarrow> err_ch s \<noteq> None" using assms(1) by (auto simp: run_inv_def)
  then show ?thesis
    using StopLogged log_listening serve_refused serve_ends drain by (cases "serve_at s") blast+
qed (use assms select_done health_down stop_begin log_stopped fail in blast)+

lemma run_step_cancelled: "run_step s t \<Longrightarrow> ctx_cancelled t = ctx_cancelled s"
  by (induction rule: run_step.induct) auto

lemma run_returns:
  "run_reachable s \<Longrightarrow> ctx_cancelled s \<Longrightarrow> \<exists>t r. run_step\<^sup>*\<^sup>* s t \<and> run_reachable t \<and> main_at t = Returned r"
proof (induction "run_measure s" arbitrary: s rule: less_induct)
  case less
  show ?case
  proof (cases "\<exists>r. main_at s = Returned r")
    case True
    with less.prems show ?thesis by blast
  next
    case False
    then obtain u where u: "run_step s u"
      using run_progress run_reachable_inv less.prems by blast
    then have "run_reachable u" "ctx_cancelled u"
      using less.prems run_goes_on run_step_cancelled by blast+
    then obtain t r where "run_step\<^sup>*\<^sup>* u t" "run_reachable t" "main_at t = Returned r"
      using less.hyps [OF run_step_decreases [OF u]] by blast
    then show ?thesis using u by (meson converse_rtranclp_into_rtranclp)
  qed
qed

lemma run_steps_bound: "(run_step ^^ n) s t \<Longrightarrow> run_measure t + n \<le> run_measure s"
proof (induction n arbitrary: t)
  case (Suc n)
  then obtain u where "(run_step ^^ n) s u" "run_step u t" by auto
  then show ?case using Suc.IH run_step_decreases by fastforce
qed simp

lemma sample_cancelled: "run_reachable (run_init\<lparr>ctx_cancelled := True\<rparr>)"
  by (rule run_goes_on [OF run_begins disjI2 [OF cancel]])



text \<open>C19. \<^verbatim>\<open>Run\<close> always comes back from a cancelled context: from any reachable state with the context
  cancelled, the goroutines and the RPCs in flight can make at most \<open>run_measure s\<close> steps, no
  state before the return is stuck (in particular the drain of the channel never blocks for
  ever), and new RPCs cannot prolong a stop that has begun.\<close>

theorem shutdown_terminates:
  assumes "run_reachable s" "ctx_cancelled s"
  shows "(\<forall>n t. (run_step ^^ n) s t \<longrightarrow> n \<le> run_measure s) \<and>
         (\<forall>t. run_step\<^sup>*\<^sup>* s t \<longrightarrow> (\<exists>u. run_step t u) \<or> (\<exists>r. main_at t = Returned r)) \<and>
         (\<exists>t r. run_step\<^sup>*\<^sup>* s t \<and> main_at t = Returned r) \<and>
         (\<forall>t. stop_called s \<and> env_step s t \<longrightarrow> run_measure t = run_measure s)"
proof (intro conjI allI impI)
  show "n \<le> run_measure s" if "(run_step ^^ n) s t" for n t
    using run_steps_bound [OF that] by simp
  show "(\<exists>u. run_step t u) \<or> (\<exists>r. main_at t = Returned r)" if "run_step\<^sup>*\<^sup>* s t" for t
  proof -
    from that have "run_reachable t \<and> ctx_cancelled t"
      using assms by induction (auto intro: run_goes_on simp: run_step_cancelled)
    then show ?thesis using run_progress run_reachable_inv by blast
  qed
  show "\<exists>t r. run_step\<^sup>*\<^sup>* s t \<and> main_at t = Returned r" using run_returns [OF assms] by blast
  show "run_measure t = run_measure s" if "stop_called s \<and> env_step s t" for t
    using that env_step_stopped by blast
qed

theorem shutdown_terminates_witness:
  "\<exists>t r. run_step\<^sup>*\<^sup>* (run_init\<lparr>ctx_cancelled := True\<rparr>) t \<and> main_at t = Returned r"
  using shutdown_terminates [OF sample_cancelled] by simp

end
