(* ===== verification/Fair_Runs.thy ===== *)
theory Fair_Runs
  imports Main
begin

text \<open>
  Infinite runs of a step relation and fairness, for the systems whose goroutines are scheduled by
  the run-time system. \<open>progress\<close> is the contract of a goroutine that has a bounded number of
  moves left and can always make one: under fairness it makes them all.
\<close>

definition run_of :: "('s \<Rightarrow> 's \<Rightarrow> bool) \<Rightarrow> (nat \<Rightarrow> 's) \<Rightarrow> bool" where
  "run_of step \<sigma> \<longleftrightarrow> (\<forall>i. step (\<sigma> i) (\<sigma> (Suc i)))"

text \<open>Whether a kind of move of a program can be made, and fairness for it: again and again the move is
  made or cannot be made.\<close>

definition can :: "('s \<Rightarrow> 's \<Rightarrow> bool) \<Rightarrow> ('s \<Rightarrow> 's \<Rightarrow> bool) \<Rightarrow> 's \<Rightarrow> bool" where
  "can own mv s \<longleftrightarrow> (\<exists>t. own s t \<and> mv s t)"

definition fair :: "('s \<Rightarrow> 's \<Rightarrow> bool) \<Rightarrow> ('s \<Rightarrow> 's \<Rightarrow> bool) \<Rightarrow> (nat \<Rightarrow> 's) \<Rightarrow> bool" where
  "fair own mv \<sigma> \<longleftrightarrow> (\<forall>i. \<exists>j \<ge> i. mv (\<sigma> j) (\<sigma> (Suc j)) \<or> \<not> can own mv (\<sigma> j))"

lemma canI: "own s t \<Longrightarrow> mv s t \<Longrightarrow> can own mv s"
  by (auto simp: can_def)

lemma fair_stuck: "(\<And>j. n \<le> j \<Longrightarrow> \<not> can own mv (\<sigma> j)) \<Longrightarrow> fair own mv \<sigma>"
  unfolding fair_def by (meson nle_le order_trans)

locale progress =
  fixes step own mv :: "'s \<Rightarrow> 's \<Rightarrow> bool" and region :: "'s \<Rightarrow> bool" and rank :: "'s \<Rightarrow> nat"
  assumes stays: "region s \<Longrightarrow> step s t \<Longrightarrow> region t"
    and falls: "region s \<Longrightarrow> step s t \<Longrightarrow> rank t \<le> rank s \<and> (mv s t \<and> 0 < rank s \<longrightarrow> rank t < rank s)"
    and enabled: "region s \<Longrightarrow> 0 < rank s \<Longrightarrow> can own mv s"
begin

lemma stays_on:
  assumes "run_of step \<sigma>" "region (\<sigma> k)" "k \<le> i"
  shows "region (\<sigma> i) \<and> rank (\<sigma> i) \<le> rank (\<sigma> k)"
  using assms(3)
proof (induction i rule: dec_induct)
  case base
  show ?case using assms(2) by simp
next
  case (step i)
  have "step (\<sigma> i) (\<sigma> (Suc i))" using assms(1) by (simp add: run_of_def)
  then show ?case using step.IH stays falls le_trans by blast
qed

lemma falls_again:
  assumes "run_of step \<sigma>" "fair own mv \<sigma>" "region (\<sigma> k)" "0 < rank (\<sigma> k)"
  shows "\<exists>j \<ge> k. rank (\<sigma> j) < rank (\<sigma> k)"
proof (rule ccontr)
  assume "\<not> (\<exists>j \<ge> k. rank (\<sigma> j) < rank (\<sigma> k))"
  then have same: "rank (\<sigma> j) = rank (\<sigma> k)" if "k \<le> j" for j
    using stays_on [OF assms(1,3) that] that by (simp add: le_antisym not_less)
  obtain j where j: "k \<le> j" "mv (\<sigma> j) (\<sigma> (Suc j)) \<or> \<not> can own mv (\<sigma> j)"
    using assms(2) unfolding fair_def by blast
  have "region (\<sigma> j)" using stays_on [OF assms(1,3) j(1)] by blast
  moreover have "step (\<sigma> j) (\<sigma> (Suc j))" using assms(1) by (simp add: run_of_def)
  ultimately show False
    using j falls [of "\<sigma> j" "\<sigma> (Suc j)"] enabled [of "\<sigma> j"] same [of j] same [of "Suc j"] assms(4) by auto
qed

lemma comes_to_rest:
  assumes "run_of step \<sigma>" "fair own mv \<sigma>" "region (\<sigma> k)"
  shows "\<exists>n \<ge> k. \<forall>i \<ge> n. region (\<sigma> i) \<and> rank (\<sigma> i) = 0"
  using assms(3)
proof (induction "rank (\<sigma> k)" arbitrary: k rule: less_induct)
  case less
  show ?case
  proof (cases "rank (\<sigma> k)")
    case 0
    then show ?thesis using stays_on [OF assms(1) less.prems] by fastforce
  next
    case (Suc m)
    then obtain j where "k \<le> j" "rank (\<sigma> j) < rank (\<sigma> k)"
      using falls_again [OF assms(1,2) less.prems] by auto
    moreover have "region (\<sigma> j)" using stays_on [OF assms(1) less.prems \<open>k \<le> j\<close>] by blast
    ultimately show ?thesis using less.hyps order_trans by blast
  qed
qed

end

end
