(* ===== verification/Server_Lifecycle.thy ===== *)
theory Server_Lifecycle
  imports Server_Run Fair_Runs
begin

text \<open>
  What \<^verbatim>\<open>Server.Run\<close> promises, apart from how its two goroutines achieve it. The abstract server
  runs, drains or has ended, and has a number of RPCs in flight; the goroutines of \<open>Server_Run\<close>
  implement it (a forward simulation in which every step is a step of the abstract server or
  invisible). And a run in which the goroutines are scheduled fairly returns once its context
  has been cancelled, whatever clients do.
\<close>

section \<open>The abstract server\<close>

datatype phase = Running | Draining | Ended bool   \<comment> \<open>\<^verbatim>\<open>true\<close> for a graceful end\<close>

record served =
  phase :: phase
  active :: nat

inductive phase_step :: "served \<Rightarrow> served \<Rightarrow> bool" where
  accept_rpc: "phase a = Running \<Longrightarrow> phase_step a (a\<lparr>active := active a + 1\<rparr>)"
| finish_rpc: "0 < active a \<Longrightarrow> phase_step a (a\<lparr>active := active a - 1\<rparr>)"
| begin_drain: "phase a = Running \<Longrightarrow> phase_step a (a\<lparr>phase := Draining\<rparr>)"
| end_drain: "phase a = Draining \<Longrightarrow> active a = 0 \<Longrightarrow> phase_step a (a\<lparr>phase := Ended True\<rparr>)"
| end_failed: "phase a = Running \<Longrightarrow> phase_step a (a\<lparr>phase := Ended False\<rparr>)"

inductive phase_reachable :: "served \<Rightarrow> bool" where
  phase_begins: "phase_reachable \<lparr>phase = Running, active = 0\<rparr>"
| phase_goes_on: "phase_reachable a \<Longrightarrow> phase_step a b \<Longrightarrow> phase_reachable b"

inductive_cases phase_stepE: "phase_step a b"

fun phase_at :: "main_pc \<Rightarrow> bool \<Rightarrow> phase" where
  "phase_at (Returned r) stopped = Ended (r = None)"
| "phase_at pc stopped = (if stopped then Draining else Running)"

definition served_by :: "run_sys \<Rightarrow> served" where
  "served_by s = \<lparr>phase = phase_at (main_at s) (stop_called s), active = in_flight s\<rparr>"

section \<open>The simulation\<close>

lemma served_by_simps [simp]:
  "phase (served_by s) = phase_at (main_at s) (stop_called s)"
  "active (served_by s) = in_flight s"
  by (simp_all add: served_by_def)

lemma served_eqI: "phase a = phase b \<Longrightarrow> active a = active b \<Longrightarrow> a = (b :: served)"
  by simp

lemma phase_at_live: "(\<nexists>r. pc = Returned r) \<Longrightarrow> phase_at pc stopped = (if stopped then Draining else Running)"
  by (cases pc) auto

text \<open>The invariant of the goroutines decides which abstract step a step of theirs is.\<close>

lemma run_step_simulates:
  assumes "run_step s t" "run_inv s"
  shows "phase_step (served_by s) (served_by t) \<or> served_by t = served_by s"
  using assms
proof (induction rule: run_step.induct)
  case (rpc_done s)
  then show ?case using finish_rpc [of "served_by s"] by (simp add: served_by_def)
next
  case (stop_begin s)
  then show ?case using begin_drain [of "served_by s"] by (simp add: served_by_def run_inv_def)
next
  case (drain s r)
  then show ?case using end_drain [of "served_by s"] by (simp add: served_by_def run_inv_def)
next
  case (fail s r)
  then have "r \<noteq> None" "\<not> stop_called s" by (auto simp: run_inv_def)
  then show ?case using fail end_failed [of "served_by s"] by (simp add: served_by_def)
qed (simp_all add: served_by_def run_inv_def)

lemma env_step_simulates:
  assumes "env_step s t" "run_inv s"
  shows "phase_step (served_by s) (served_by t) \<or> served_by t = served_by s"
  using assms
proof (induction rule: env_step.induct)
  case (rpc_arrives s)
  then show ?case
  proof (cases "\<exists>r. main_at s = Returned r")
    case True
    with rpc_arrives show ?thesis by (auto simp: run_inv_def)
  next
    case False
    then show ?thesis using rpc_arrives accept_rpc [of "served_by s"] by (simp add: served_by_def phase_at_live)
  qed
qed (simp_all add: served_by_def)

text \<open>C18. The goroutines implement the abstract server: every step of theirs, and every event around
  them, is a step of the abstract server or invisible to it; so a server drains only once, takes
  no new RPC while it drains, and ends gracefully only from draining with none in flight.\<close>

theorem run_refines_phases:
  assumes "run_reachable s"
  shows "phase_reachable (served_by s) \<and>
         (\<forall>t. run_step s t \<or> env_step s t \<longrightarrow> phase_step (served_by s) (served_by t) \<or> served_by t = served_by s)"
proof
  show step: "\<forall>t. run_step s t \<or> env_step s t \<longrightarrow> phase_step (served_by s) (served_by t) \<or> served_by t = served_by s"
    using run_step_simulates env_step_simulates run_reachable_inv [OF assms] by blast
  show "phase_reachable (served_by s)"
    using assms
  proof (induction rule: run_reachable.induct)
    case run_begins
    show ?case using phase_begins by (simp add: served_by_def run_init_def)
  next
    case (run_goes_on s t)
    then show ?case
      using run_step_simulates env_step_simulates run_reachable_inv phase_goes_on by metis
  qed
qed

theorem run_refines_phases_witness:
  "phase_reachable (served_by (run_init\<lparr>ctx_cancelled := True\<rparr>))"
  using run_refines_phases [OF sample_cancelled] by (rule conjunct1)

section \<open>Fair runs\<close>

text \<open>The three kinds of move that are scheduled: the progress of the main goroutine, of the serving
  goroutine, and of the RPCs in flight. Clients and the operating system owe nothing.\<close>

definition main_moves :: "run_sys \<Rightarrow> run_sys \<Rightarrow> bool" where
  "main_moves s t \<longleftrightarrow> main_at t \<noteq> main_at s"

definition serve_moves :: "run_sys \<Rightarrow> run_sys \<Rightarrow> bool" where
  "serve_moves s t \<longleftrightarrow> serve_at t \<noteq> serve_at s"

definition rpc_ends :: "run_sys \<Rightarrow> run_sys \<Rightarrow> bool" where
  "rpc_ends s t \<longleftrightarrow> in_flight t < in_flight s"

definition sys_step :: "run_sys \<Rightarrow> run_sys \<Rightarrow> bool" where
  "sys_step s t \<longleftrightarrow> run_step s t \<or> env_step s t"

lemma sys_stepE:
  assumes "sys_step s t"
  obtains "run_step s t" | "env_step s t"
  using assms unfolding sys_step_def by blast

lemma sys_step_inv: "sys_step s t \<Longrightarrow> run_inv s \<Longrightarrow> run_inv t"
  using run_step_inv env_step_inv by (auto simp: sys_step_def)

lemma cancelled_stays: "sys_step s t \<Longrightarrow> ctx_cancelled s \<Longrightarrow> ctx_cancelled t"
  by (auto elim!: sys_stepE run_stepE env_stepE)

lemma stopped_stays: "sys_step s t \<Longrightarrow> stop_called s \<Longrightarrow> stop_called t \<and> in_flight t \<le> in_flight s"
  by (auto elim!: sys_stepE run_stepE env_stepE)

lemma main_falls:
  "sys_step s t \<Longrightarrow> main_rank (main_at t) \<le> main_rank (main_at s) \<and> (main_moves s t \<longrightarrow> main_rank (main_at t) < main_rank (main_at s))"
  by (auto simp: main_moves_def elim!: sys_stepE run_stepE env_stepE)

lemma serve_falls:
  "sys_step s t \<Longrightarrow> serve_rank (serve_at t) \<le> serve_rank (serve_at s) \<and> (serve_moves s t \<longrightarrow> serve_rank (serve_at t) < serve_rank (serve_at s))"
  by (auto simp: serve_moves_def elim!: sys_stepE run_stepE env_stepE)

lemma ranks_zero: "main_rank pc = 0 \<longleftrightarrow> (\<exists>r. pc = Returned r)" "serve_rank sv = 0 \<longleftrightarrow> sv = Finished"
  by (cases pc; simp) (cases sv; simp)

lemma rpc_can: "0 < in_flight s \<Longrightarrow> can run_step rpc_ends s"
  by (rule canI, erule rpc_done) (simp add: rpc_ends_def)

lemma serve_can: "serve_at s \<noteq> Finished \<Longrightarrow> stop_called s \<Longrightarrow> can run_step serve_moves s"
  by (cases "serve_at s") (auto simp: serve_moves_def intro: canI log_listening serve_refused serve_ends [where r = None])

text \<open>After the cancellation the main goroutine can move except where it waits for the others.\<close>

lemma main_can:
  assumes "run_inv s" "ctx_cancelled s" "0 < main_rank (main_at s)"
    and "\<not> stop_called s \<or> in_flight s = 0 \<and> serve_at s = Finished"
  shows "can run_step main_moves s"
proof -
  have ch: "\<exists>r. err_ch s = Some r" if "main_at s = StopLogged" using that assms(1,4) by (auto simp: run_inv_def)
  have idle: "in_flight s = 0" if "main_at s = Stopping" using that assms(1,4) by (auto simp: run_inv_def)
  show ?thesis
    using assms(2,3) ch idle by (cases "main_at s")
      (auto simp: main_moves_def intro: canI select_done health_down stop_begin stop_end log_stopped drain fail)
qed

text \<open>The shutdown in four stages: the main goroutine stops the server or returns; the RPCs end; so does
  the serving goroutine; the main goroutine returns.\<close>

interpretation stopping: progress sys_step run_step main_moves "\<lambda>s. run_inv s \<and> ctx_cancelled s"
    "\<lambda>s. if stop_called s \<or> main_rank (main_at s) = 0 then 0 else main_rank (main_at s)"
proof
  fix s t
  assume "run_inv s \<and> ctx_cancelled s" "sys_step s t"
  then show "run_inv t \<and> ctx_cancelled t" using sys_step_inv cancelled_stays by blast
  show "(if stop_called t \<or> main_rank (main_at t) = 0 then 0 else main_rank (main_at t))
      \<le> (if stop_called s \<or> main_rank (main_at s) = 0 then 0 else main_rank (main_at s)) \<and>
    (main_moves s t \<and> 0 < (if stop_called s \<or> main_rank (main_at s) = 0 then 0 else main_rank (main_at s))
      \<longrightarrow> (if stop_called t \<or> main_rank (main_at t) = 0 then 0 else main_rank (main_at t))
      < (if stop_called s \<or> main_rank (main_at s) = 0 then 0 else main_rank (main_at s)))"
    using main_falls [OF \<open>sys_step s t\<close>] stopped_stays [OF \<open>sys_step s t\<close>] by auto
next
  fix s
  assume "run_inv s \<and> ctx_cancelled s" "0 < (if stop_called s \<or> main_rank (main_at s) = 0 then 0 else main_rank (main_at s))"
  then show "can run_step main_moves s" using main_can by (auto split: if_splits)
qed

interpretation rpcs: progress sys_step run_step rpc_ends stop_called in_flight
  using stopped_stays rpc_can by unfold_locales (auto simp: rpc_ends_def)

interpretation serving: progress sys_step run_step serve_moves stop_called "\<lambda>s. serve_rank (serve_at s)"
proof
  show "can run_step serve_moves s" if "stop_called s" "0 < serve_rank (serve_at s)" for s
    using serve_can [of s] that by (cases "serve_at s = Finished") simp_all
qed (use stopped_stays serve_falls in blast)+

definition others_done :: "run_sys \<Rightarrow> bool" where
  "others_done s \<longleftrightarrow> main_rank (main_at s) = 0 \<or> stop_called s \<and> in_flight s = 0 \<and> serve_at s = Finished"

lemma others_done_stays: "sys_step s t \<Longrightarrow> others_done s \<Longrightarrow> others_done t"
  using stopped_stays [of s t] main_falls [of s t] serve_falls [of s t] ranks_zero(2) [of "serve_at t"]
  by (auto simp: others_done_def)

interpretation returning: progress sys_step run_step main_moves "\<lambda>s. run_inv s \<and> ctx_cancelled s \<and> others_done s"
    "\<lambda>s. main_rank (main_at s)"
proof
  show "can run_step main_moves s" if "run_inv s \<and> ctx_cancelled s \<and> others_done s" "0 < main_rank (main_at s)" for s
    using main_can [of s] that by (simp add: others_done_def)
qed (use sys_step_inv cancelled_stays others_done_stays main_falls in blast)+

lemma run_trace_inv: "run_of sys_step \<sigma> \<Longrightarrow> \<sigma> 0 = run_init \<Longrightarrow> run_inv (\<sigma> i)"
proof (induction i)
  case 0
  then show ?case using run_reachable_inv [OF run_begins] by simp
next
  case (Suc i)
  then show ?case using sys_step_inv by (auto simp: run_of_def)
qed

lemma others_come_to_rest:
  assumes "run_of sys_step \<sigma>" "fair run_step serve_moves \<sigma>" "fair run_step rpc_ends \<sigma>" "stop_called (\<sigma> k)"
  shows "\<exists>n \<ge> k. others_done (\<sigma> n)"
proof -
  obtain l where l: "k \<le> l" "\<forall>i \<ge> l. stop_called (\<sigma> i) \<and> in_flight (\<sigma> i) = 0"
    using rpcs.comes_to_rest [OF assms(1,3,4)] by blast
  then obtain n where "l \<le> n" "\<forall>i \<ge> n. serve_rank (serve_at (\<sigma> i)) = 0"
    using serving.comes_to_rest [OF assms(1,2), of l] by blast
  then show ?thesis using l ranks_zero(2) by (intro exI [of _ n]) (auto simp: others_done_def)
qed

text \<open>C17. \<^verbatim>\<open>Run\<close> comes back. In every infinite run in which the main goroutine, the serving goroutine and
  the RPCs in flight are each scheduled fairly, a cancelled context is followed by the return of
  \<^verbatim>\<open>Run\<close>, however long clients keep sending RPCs, and what has been returned stays.\<close>

theorem fair_run_returns:
  assumes "run_of sys_step \<sigma>" "\<sigma> 0 = run_init"
    and "fair run_step main_moves \<sigma>" "fair run_step serve_moves \<sigma>" "fair run_step rpc_ends \<sigma>" "ctx_cancelled (\<sigma> k)"
  shows "\<exists>n r. \<forall>i \<ge> n. main_at (\<sigma> i) = Returned r"
proof -
  have inv: "run_inv (\<sigma> i)" for i using run_trace_inv [OF assms(1,2)] .
  obtain l where l: "\<forall>i \<ge> l. ctx_cancelled (\<sigma> i)" "stop_called (\<sigma> l) \<or> main_rank (main_at (\<sigma> l)) = 0"
    using stopping.comes_to_rest [OF assms(1,3) conjI [OF inv assms(6)]] by (metis gr_implies_not0 order_refl)
  obtain m where m: "l \<le> m" "others_done (\<sigma> m)"
    using others_come_to_rest [OF assms(1,4,5), of l] l(2) by (auto simp: others_done_def)
  then have "run_inv (\<sigma> m) \<and> ctx_cancelled (\<sigma> m) \<and> others_done (\<sigma> m)" using inv l(1) by blast
  then obtain n where rest: "\<forall>i \<ge> n. main_rank (main_at (\<sigma> i)) = 0"
    using returning.comes_to_rest [OF assms(1,3)] by blast
  then obtain r where r: "main_at (\<sigma> n) = Returned r" using ranks_zero(1) by blast
  have "main_at (\<sigma> i) = Returned r" if "n \<le> i" for i
    using that
  proof (induction i rule: dec_induct)
    case (step i)
    have "sys_step (\<sigma> i) (\<sigma> (Suc i))" using assms(1) by (simp add: run_of_def)
    then show ?case using main_falls [of "\<sigma> i" "\<sigma> (Suc i)"] step by (auto simp: main_moves_def)
  qed (rule r)
  then show ?thesis by blast
qed

text \<open>A fair run, for the witness: the context is cancelled at once, the server shuts down, and the
  serving goroutine finds it stopped.\<close>

fun sample_move :: "nat \<Rightarrow> run_sys \<Rightarrow> run_sys" where
  "sample_move n s =
     (if n = 1 then s\<lparr>main_at := ShutdownLogged, run_log := run_log s @ [''shutdown signal received, draining connections...'']\<rparr>
      else if n = 2 then s\<lparr>main_at := HealthDown, health_calls := health_calls s @ [HealthShutdown]\<rparr>
      else if n = 3 then s\<lparr>main_at := Stopping, stop_called := True\<rparr>
      else if n = 4 then s\<lparr>main_at := Stopped\<rparr>
      else if n = 5 then s\<lparr>main_at := StopLogged, run_log := run_log s @ [''gRPC server stopped gracefully'']\<rparr>
      else if n = 6 then s\<lparr>serve_at := ListenLogged, run_log := run_log s @ [''gRPC server listening'']\<rparr>
      else if n = 7 then s\<lparr>serve_at := Finished, err_ch := Some (Some (ErrorText ''grpc: the server has been stopped''))\<rparr>
      else if n = 8 then s\<lparr>main_at := Returned None, err_ch := None\<rparr>
      else s\<lparr>ctx_cancelled := True\<rparr>)"

fun sample_trace :: "nat \<Rightarrow> run_sys" where
  "sample_trace 0 = run_init"
| "sample_trace (Suc n) = sample_move n (sample_trace n)"

lemma sample_trace_end:
  "9 \<le> i \<Longrightarrow> main_at (sample_trace i) = Returned None \<and> serve_at (sample_trace i) = Finished \<and>
     in_flight (sample_trace i) = 0 \<and> err_ch (sample_trace i) = None"
proof (induction i rule: dec_induct)
  case base
  show ?case by (simp add: eval_nat_numeral run_init_def)
next
  case (step n)
  then show ?case by simp
qed

lemma sample_trace_step:
  "sys_step (sample_trace i) (sample_trace (Suc i))"
proof (cases "i \<in> {1..8}")
  case True
  then consider "i = 1" | "i = 2" | "i = 3" | "i = 4" | "i = 5" | "i = 6" | "i = 7" | "i = 8"
    by (fastforce simp: eval_nat_numeral le_Suc_eq)
  then show ?thesis
  proof cases
    case 1
    show ?thesis unfolding sys_step_def using select_done [of "sample_trace 1"] by (simp add: 1 eval_nat_numeral run_init_def)
  next
    case 2
    show ?thesis unfolding sys_step_def using health_down [of "sample_trace 2"] by (simp add: 2 eval_nat_numeral run_init_def)
  next
    case 3
    show ?thesis unfolding sys_step_def using stop_begin [of "sample_trace 3"] by (simp add: 3 eval_nat_numeral run_init_def)
  next
    case 4
    show ?thesis unfolding sys_step_def using stop_end [of "sample_trace 4"] by (simp add: 4 eval_nat_numeral run_init_def)
  next
    case 5
    show ?thesis unfolding sys_step_def using log_stopped [of "sample_trace 5"] by (simp add: 5 eval_nat_numeral run_init_def)
  next
    case 6
    show ?thesis unfolding sys_step_def using log_listening [of "sample_trace 6"] by (simp add: 6 eval_nat_numeral run_init_def)
  next
    case 7
    show ?thesis unfolding sys_step_def using serve_refused [of "sample_trace 7"] by (simp add: 7 eval_nat_numeral run_init_def)
  next
    case 8
    show ?thesis unfolding sys_step_def using drain [of "sample_trace 8"] by (simp add: 8 eval_nat_numeral run_init_def)
  qed
next
  case False
  then have "sample_trace (Suc i) = (sample_trace i)\<lparr>ctx_cancelled := True\<rparr>" by (auto simp: eval_nat_numeral)
  then show ?thesis using cancel by (metis sys_step_def)
qed

lemma sample_trace_fair: "fair run_step mv sample_trace"
  by (rule fair_stuck [of 9]) (use sample_trace_end in \<open>auto simp: can_def elim!: run_stepE\<close>)

theorem fair_run_returns_witness:
  "\<exists>n r. \<forall>i \<ge> n. main_at (sample_trace i) = Returned r"
  by (rule fair_run_returns [of _ 1])
    (use sample_trace_step sample_trace_fair in \<open>auto simp: run_of_def\<close>)

end
