(* ===== verification/Peer_Key.thy ===== *)
theory Peer_Key
  imports Grpc_Types
begin

text \<open>
  \<^verbatim>\<open>peerKey\<close> of \<^verbatim>\<open>internal/server/interceptor/rate_limit.go\<close>: the key under which a request is
  rate limited and the peer that is logged, from the proxy headers when they are trusted and
  from the connection's address otherwise.
\<close>

definition first_value :: "string list \<Rightarrow> string option" where
  \<comment> \<open>the guard \<^verbatim>\<open>len(ips) > 0 && ips[0] != ""\<close>\<close>
  "first_value vs = (case vs of [] \<Rightarrow> None | v # _ \<Rightarrow> if v = [] then None else Some v)"

definition before_comma :: "string \<Rightarrow> string" where
  "before_comma s = (case index_byte s (CHR '','') of None \<Rightarrow> s | Some i \<Rightarrow> take i s)"

definition proxy_key :: "('md, 'b) grpc_api_scheme \<Rightarrow> 'md ctx \<Rightarrow> string option" where
  "proxy_key G c =
     (case incoming_md c of
        None \<Rightarrow> None
      | Some md \<Rightarrow>
          (case first_value (md_get G md ''x-forwarded-for'') of
             Some ip \<Rightarrow> Some (trim_space (before_comma ip))
           | None \<Rightarrow>
               (case first_value (md_get G md ''x-real-ip'') of
                  Some ip \<Rightarrow> Some (trim_space ip)
                | None \<Rightarrow> None)))"

definition connection_key :: "'md ctx \<Rightarrow> string" where
  "connection_key c =
     (case peer_addr c of
        None \<Rightarrow> ''unknown''
      | Some None \<Rightarrow> ''unknown''
      | Some (Some addr) \<Rightarrow>
          (case split_host_port addr of None \<Rightarrow> addr | Some (host, port) \<Rightarrow> host))"

definition peerKey :: "('md, 'b) grpc_api_scheme \<Rightarrow> 'md ctx \<Rightarrow> bool \<Rightarrow> string" where
  "peerKey G c trust =
     (case (if trust then proxy_key G c else None) of Some k \<Rightarrow> k | None \<Rightarrow> connection_key c)"

lemma peerKey_cong:
  "incoming_md c = incoming_md c' \<Longrightarrow> peer_addr c = peer_addr c' \<Longrightarrow> peerKey G c trust = peerKey G c' trust"
  unfolding peerKey_def proxy_key_def connection_key_def by (simp only:)

lemma before_comma_split [byte_simps]:
  "CHR '','' \<notin> set ip \<Longrightarrow> before_comma (ip @ CHR '','' # rest) = ip"
  "CHR '','' \<notin> set ip \<Longrightarrow> before_comma ip = ip"
  by (simp_all add: before_comma_def index_byte_split index_byte_None [THEN iffD2])

lemma before_comma_no_comma: "CHR '','' \<notin> set (before_comma s)"
  by (auto simp: before_comma_def index_byte_None dest: index_byte_before split: option.splits)

text \<open>Without trusted proxies every connection from a host has that host as its key, whatever
  its port (an IPv6 host as well as a name or an IPv4 address) and whatever headers the client
  sends.\<close>

theorem peer_key_is_host:
  assumes "host_text host" "port_text port" "peer_addr c = Some (Some (join_host_port host port))"
  shows "peerKey G c False = host"
  using assms by (simp add: peerKey_def connection_key_def split_join_host_port)

theorem peer_key_is_host_witness:
  "peerKey sample_api (sample_ctx\<lparr>incoming_md := Some (\<lambda>k. [''1.2.3.4'']), peer_addr := Some (Some ''[::1]:5000'')\<rparr>) False
     = ''::1''"
  by (rule peer_key_is_host [where port = "''5000''"])
    (simp_all add: host_text_def port_text_def join_host_port_def)

text \<open>Behind a trusted proxy the key is the first entry of \<^verbatim>\<open>x-forwarded-for\<close>: what follows the
  first comma, the \<^verbatim>\<open>x-real-ip\<close> header and the connection itself do not matter.\<close>

theorem forwarded_key_is_first:
  assumes "incoming_md c = Some md" "md_get G md ''x-forwarded-for'' = (ip @ rest) # vs"
    and "ip \<noteq> []" "CHR '','' \<notin> set ip" "trimmed ip" "rest = [] \<or> hd rest = CHR '',''"
  shows "peerKey G c True = ip"
proof -
  have "before_comma (ip @ rest) = ip"
    using assms(4,6) by (cases rest) (simp_all add: byte_simps)
  then show ?thesis
    using assms(1-3,5) by (simp add: peerKey_def proxy_key_def first_value_def trim_space_id)
qed

lemma trimmed_sample: "trimmed ''203.0.113.1''"
  by (simp add: trimmed_def space_encodings_def starts_with_def)

theorem forwarded_key_is_first_witness:
  "peerKey sample_api
     (sample_ctx\<lparr>incoming_md := Some ((\<lambda>k. [])(''x-forwarded-for'' := [''203.0.113.1, 10.0.0.2'']))\<rparr>) True
     = ''203.0.113.1''"
  by (rule forwarded_key_is_first [where rest = "'', 10.0.0.2''" and vs = "[]"
        and md = "(\<lambda>k. [])(''x-forwarded-for'' := [''203.0.113.1, 10.0.0.2''])", OF _ _ _ _ trimmed_sample])
    (simp_all add: sample_api_def)

text \<open>The key from a trusted \<^verbatim>\<open>x-forwarded-for\<close> is always trimmed and free of commas, but it can
  be empty: a value that begins with a comma puts its sender in the bucket of the empty key,
  whatever \<^verbatim>\<open>x-real-ip\<close> and the connection say.\<close>

lemma forwarded_key_shape:
  assumes "incoming_md c = Some md" "first_value (md_get G md ''x-forwarded-for'') = Some v"
  shows "trimmed (peerKey G c True) \<and> CHR '','' \<notin> set (peerKey G c True) \<and>
         (hd v = CHR '','' \<longrightarrow> peerKey G c True = [])"
proof -
  have key: "peerKey G c True = trim_space (before_comma v)"
    using assms by (simp add: peerKey_def proxy_key_def)
  have "before_comma v = []" if "hd v = CHR '',''"
    using that assms(2) by (cases v) (auto simp: before_comma_def first_value_def split: list.splits if_splits)
  moreover have "trim_space [] = []" using set_trim_space [of "[]"] by simp
  ultimately show ?thesis
    using before_comma_no_comma [of v] set_trim_space [of "before_comma v"]
    by (auto simp: key trim_space_trimmed)
qed

end
