(* ===== verification/Server_Gates.thy ===== *)
theory Server_Gates
  imports Peer_Key Server_Config
begin

text \<open>
  The interceptors that refuse calls before the handler sees them, besides authentication:
  \<^verbatim>\<open>RateLimit\<close> and \<^verbatim>\<open>StreamRateLimit\<close> of \<^verbatim>\<open>internal/server/interceptor/rate_limit.go\<close> and
  \<^verbatim>\<open>Validation\<close> of \<^verbatim>\<open>validation.go\<close>.
\<close>

section \<open>Rate limiting\<close>

definition RateLimit :: "'md srv_env \<Rightarrow> ('md, 'req, 'resp) unary_interceptor" where
  "RateLimit E c req method handler =
     bindc getConfig (\<lambda>cfg.
       case rateLimiter cfg of
         None \<Rightarrow> handler c req
       | Some l \<Rightarrow>
           bindc (allow_limiter E l c (peerKey E c (trustProxy cfg))) (\<lambda>(allowed, err).
             if err \<noteq> None then ret (None, Some (StatusError Internal ''rate limiter internal error''))
             else if \<not> allowed then ret (None, Some (StatusError ResourceExhausted ''rate limit exceeded''))
             else handler c req))"

definition StreamRateLimit :: "'md srv_env \<Rightarrow> ('md, 'srv) stream_interceptor" where
  "StreamRateLimit E srv ss method handler =
     bindc getConfig (\<lambda>cfg.
       case rateLimiter cfg of
         None \<Rightarrow> handler srv ss
       | Some l \<Rightarrow>
           bindc (allow_limiter E l (Context ss) (peerKey E (Context ss) (trustProxy cfg))) (\<lambda>(allowed, err).
             if err \<noteq> None then ret (Some (StatusError Internal ''rate limiter internal error''))
             else if \<not> allowed then ret (Some (StatusError ResourceExhausted ''rate limit exceeded''))
             else handler srv ss))"

section \<open>Validation\<close>

text \<open>The request type's \<^verbatim>\<open>Validate\<close> method, if it has one.\<close>

type_synonym 'req validator = "'req \<Rightarrow> goerror option scomp option"

definition Validation ::
  "('md, 'b) grpc_api_scheme \<Rightarrow> 'req validator \<Rightarrow> ('md, 'req, 'resp) unary_interceptor" where
  "Validation G V c req method handler =
     (case V req of
        None \<Rightarrow> handler c req
      | Some validate \<Rightarrow>
          bindc validate (\<lambda>err.
            case err of
              Some e \<Rightarrow> ret (None, Some (StatusError InvalidArgument (''request validation failed: '' @ error_text G e)))
            | None \<Rightarrow> handler c req))"

section \<open>Both are conduits\<close>

text \<open>Both limiting interceptors with a limiter \<open>l\<close> configured, by the limiter's answer.\<close>

definition refusal :: "goerror option \<Rightarrow> goerror" where
  "refusal err = (if err = None then StatusError ResourceExhausted ''rate limit exceeded''
                  else StatusError Internal ''rate limiter internal error'')"

lemma RateLimit_limited:
  assumes "rateLimiter (defaultConfig w) = Some l"
  shows "RateLimit E c req method h w =
    (case allow_limiter E l c (peerKey E c (trustProxy (defaultConfig w))) w of
       (Ret (allowed, err), w') \<Rightarrow> if allowed \<and> err = None then h c req w' else (Ret (None, Some (refusal err)), w')
     | (Panic p, w') \<Rightarrow> (Panic p, w'))"
  and "StreamRateLimit E srv ss method hs w =
    (case allow_limiter E l (Context ss) (peerKey E (Context ss) (trustProxy (defaultConfig w))) w of
       (Ret (allowed, err), w') \<Rightarrow> if allowed \<and> err = None then hs srv ss w' else (Ret (Some (refusal err)), w')
     | (Panic p, w') \<Rightarrow> (Panic p, w'))"
  using assms by (auto simp: RateLimit_def StreamRateLimit_def refusal_def comp_simps split: prod.splits outcome.splits)

lemma conduit_RateLimit:
  fixes E :: "'md srv_env"
  shows "conduit (paired (RateLimit E :: ('md, 'req, 'resp) unary_interceptor))"
proof
  let ?I = "paired (RateLimit E :: ('md, 'req, 'resp) unary_interceptor)"
  fix a :: "'md ctx \<times> 'req" and i and w :: server_world
  obtain c req where a: "a = (c, req)" by (cases a)
  show "(\<exists>answer. \<forall>h. ?I a i h w = answer) \<or> (\<exists>a' w' post. (\<forall>h. ?I a i h w = post (h a' w')) \<and> (\<forall>out w''. fst (post (out, w'')) = out))"
  proof (cases "rateLimiter (defaultConfig w)")
    case None
    then show ?thesis
      by (intro disjI2 exI [of _ a] exI [of _ w] exI [of _ id]) (simp add: a RateLimit_def comp_simps)
  next
    case (Some l)
    obtain out w' where run: "allow_limiter E l c (peerKey E c (trustProxy (defaultConfig w))) w = (out, w')"
      by fastforce
    show ?thesis
    proof (cases "out = Ret (True, None)")
      case True
      then show ?thesis using run
        by (intro disjI2 exI [of _ a] exI [of _ w'] exI [of _ id]) (simp add: a RateLimit_limited [OF Some])
    next
      case False
      then have "\<forall>h. ?I a i h w = ?I a i (\<lambda>_. panicc NilDereference) w" using run
        by (auto simp: a RateLimit_limited [OF Some] split: outcome.splits)
      then show ?thesis by (intro disjI1) (rule exI)
    qed
  qed
qed

interpretation rate_limit: conduit "paired (RateLimit E)" for E
  by (rule conduit_RateLimit)

lemma conduit_Validation:
  shows "conduit (paired (Validation G V :: ('md, 'req, 'resp) unary_interceptor))"
proof
  let ?I = "paired (Validation G V :: ('md, 'req, 'resp) unary_interceptor)"
  fix a :: "'md ctx \<times> 'req" and i and w :: server_world
  obtain c req where a: "a = (c, req)" by (cases a)
  show "(\<exists>answer. \<forall>h. ?I a i h w = answer) \<or> (\<exists>a' w' post. (\<forall>h. ?I a i h w = post (h a' w')) \<and> (\<forall>out w''. fst (post (out, w'')) = out))"
  proof (cases "V req")
    case None
    then show ?thesis
      by (intro disjI2 exI [of _ a] exI [of _ w] exI [of _ id]) (simp add: a Validation_def)
  next
    case (Some v)
    obtain out w' where run: "v w = (out, w')" by fastforce
    show ?thesis
    proof (cases "out = Ret None")
      case True
      then show ?thesis using run Some
        by (intro disjI2 exI [of _ a] exI [of _ w'] exI [of _ id]) (simp add: a Validation_def comp_simps)
    next
      case False
      then have "\<forall>h. ?I a i h w = ?I a i (\<lambda>_. panicc NilDereference) w" using run Some
        by (auto simp: a Validation_def comp_simps split: outcome.splits option.splits)
      then show ?thesis by (intro disjI1) (rule exI)
    qed
  qed
qed

interpretation validation: conduit "paired (Validation G V)" for G V
  by (rule conduit_Validation)

section \<open>Peers are isolated at the interceptor\<close>

text \<open>A sequence of calls at given instants, and which of them reach their handler.\<close>

fun admissions :: "'md srv_env \<Rightarrow> string \<Rightarrow> server_world \<Rightarrow> ('md ctx \<times> int) list \<Rightarrow> (string \<times> bool) list" where
  "admissions E method w [] = []"
| "admissions E method w ((c, t) # cs) =
     (let (out, w') = RateLimit E c () method (\<lambda>c r. ret (Some (), None)) (w\<lparr>now := t\<rparr>)
      in (peerKey E c (trustProxy (defaultConfig w)), out = Ret (Some (), None)) # admissions E method w' cs)"

lemma admissions_decisions:
  assumes "rateLimiter (defaultConfig w) = Some (MemoryLimiter p)" "p < length (mem_limiters w)"
  shows "admissions E method w cs =
           decisions (mem_allow (bucket_answer E)) (mem_limiters w ! p)
             (map (\<lambda>(c, t). (peerKey E c (trustProxy (defaultConfig w)), t)) cs)"
  using assms
proof (induction cs arbitrary: w)
  case (Cons ct cs)
  obtain c t where ct: "ct = (c, t)" by (cases ct)
  let ?k = "peerKey E c (trustProxy (defaultConfig w))"
  obtain b m where ans: "mem_allow (bucket_answer E) (mem_limiters w ! p) ?k t = (b, m)" by fastforce
  let ?w' = "w\<lparr>now := t, mem_limiters := (mem_limiters w)[p := m]\<rparr>"
  have "RateLimit E c () method (\<lambda>c r. ret (Some (), None)) (w\<lparr>now := t\<rparr>) =
      (Ret (if b then (Some (), None) else (None, Some (StatusError ResourceExhausted ''rate limit exceeded''))), ?w')"
    using Cons.prems ans
    by (simp add: RateLimit_limited refusal_def with_limiter_def set_limiter_def time_now_def ret_apply bindc_apply
        thenc_apply getc_apply modifyc_apply)
  then show ?case
    using Cons.IH [of ?w'] Cons.prems by (simp add: ct ans)
qed simp



end
