(* ===== verification/Server_State.thy ===== *)
theory Server_State
  imports Server_Gates
begin

text \<open>
  What is well formed in the state of a server process: the two method sets are different maps, the
  configured in-memory limiter exists, and every limiter's table points into its own buckets and
  agrees with its stop flags. Options and calls keep it, and in a well-formed state none of them
  dereferences nil or closes a closed channel.
\<close>

definition limiter_ok :: "mem_limiter \<Rightarrow> bool" where
  "limiter_ok m \<longleftrightarrow>
     (flt_le0 (ml_rate m) \<or> limiter_inv (ml_rate m) (ml_burst m) (ml_ttl m) m) \<and> stop_once m = stop_closed m"

definition world_ok :: "server_world \<Rightarrow> bool" where
  "world_ok w \<longleftrightarrow>
     excludedMethods (defaultConfig w) \<noteq> demotedMethods (defaultConfig w) \<and>
     (\<forall>p. rateLimiter (defaultConfig w) = Some (MemoryLimiter p) \<longrightarrow> p < length (mem_limiters w)) \<and>
     (\<forall>m \<in> set (mem_limiters w). limiter_ok m)"

text \<open>An option of the package, applied where \<open>n\<close> limiters exist: a limiter passed by pointer is
  not nil.\<close>

inductive valid_option :: "'md srv_env \<Rightarrow> nat \<Rightarrow> unit scomp \<Rightarrow> bool" for E n where
  valid_logger: "valid_option E n (WithLogger l)"
| valid_auth: "valid_option E n (WithAuthFunc fn)"
| valid_excluded: "valid_option E n (WithExcludedMethods ms)"
| valid_demoted: "valid_option E n (WithDemotedMethods ms)"
| valid_limiter: "(\<And>p. l = Some (MemoryLimiter p) \<Longrightarrow> p < n) \<Longrightarrow> valid_option E n (WithRateLimiter E l)"
| valid_limit: "valid_option E n (WithRateLimit E rps burst)"
| valid_proxy: "valid_option E n (WithTrustProxy b)"

section \<open>Limiters\<close>

lemma new_limiter_ok: "limiter_ok (NewMemoryRateLimiter rps burst ttl)"
proof (cases "flt_le0 rps")
  case True
  then show ?thesis by (simp add: limiter_ok_def NewMemoryRateLimiter_def Let_def)
next
  case False
  have "ml_rate (NewMemoryRateLimiter rps burst ttl) = rps" "ml_burst (NewMemoryRateLimiter rps burst ttl) = burst"
    by (simp_all add: NewMemoryRateLimiter_def Let_def)
  then show ?thesis using new_limiter_inv(1) [OF False, of burst ttl]
    by (simp add: limiter_ok_def) (simp add: NewMemoryRateLimiter_def Let_def)
qed

lemma mem_allow_fixed:
  "ml_rate (snd (mem_allow f m k t)) = ml_rate m" "ml_burst (snd (mem_allow f m k t)) = ml_burst m"
  "ml_ttl (snd (mem_allow f m k t)) = ml_ttl m" "stop_once (snd (mem_allow f m k t)) = stop_once m"
  "stop_closed (snd (mem_allow f m k t)) = stop_closed m"
  by (simp_all add: mem_allow_def split: prod.splits)

lemma mem_allow_ok: "limiter_ok m \<Longrightarrow> limiter_ok (snd (mem_allow f m k t))"
  using mem_allow_inv by (auto simp: limiter_ok_def mem_allow_fixed)

lemma mem_stop_ok: "limiter_ok m \<Longrightarrow> \<exists>m'. mem_stop m = Some m' \<and> limiter_ok m'"
  by (auto simp: mem_stop_def limiter_ok_def limiter_inv_def)

section \<open>Options\<close>

lemma stop_previous_ok:
  assumes "world_ok w"
  shows "\<exists>w'. stopPreviousLimiter E (rateLimiter (defaultConfig w)) w = (Ret (), w') \<and> world_ok w' \<and>
           length (mem_limiters w') = length (mem_limiters w) \<and> defaultConfig w' = defaultConfig w"
proof (cases "rateLimiter (defaultConfig w)")
  case (Some l)
  show ?thesis
  proof (cases l)
    case (MemoryLimiter p)
    then have p: "p < length (mem_limiters w)" using Some assms by (simp add: world_ok_def)
    then have "limiter_ok (mem_limiters w ! p)" using assms by (simp add: world_ok_def)
    then obtain m' where "mem_stop (mem_limiters w ! p) = Some m'" "limiter_ok m'" using mem_stop_ok by blast
    then show ?thesis using p Some assms
      by (auto simp: MemoryLimiter with_limiter_def set_limiter_def comp_simps world_ok_def dest!: set_update_subset_insert [THEN subsetD])
  next
    case (UserLimiter i)
    then show ?thesis using Some assms by (simp add: comp_simps world_ok_def)
  qed
qed (use assms in \<open>simp add: comp_simps\<close>)

lemma option_ok:
  assumes "valid_option E n opt" "world_ok w" "n \<le> length (mem_limiters w)"
  shows "\<exists>w'. opt w = (Ret (), w') \<and> world_ok w' \<and> n \<le> length (mem_limiters w')"
  using assms
proof (induction rule: valid_option.induct)
  case (valid_limiter l)
  then show ?case using stop_previous_ok [OF valid_limiter(2), of E]
    by (fastforce simp: WithRateLimiter_def set_config_def comp_simps world_ok_def)
next
  case (valid_limit rps burst)
  then show ?case using stop_previous_ok [OF valid_limit(1), of E]
    by (fastforce simp: WithRateLimit_def set_config_def new_limiter_def comp_simps world_ok_def new_limiter_ok)
qed (auto simp: comp_simps world_ok_def)

lemma Configure_ok:
  assumes "\<And>opt. opt \<in> set opts \<Longrightarrow> valid_option E n opt" "world_ok w" "n \<le> length (mem_limiters w)"
  shows "\<exists>w'. Configure opts w = (Ret (), w') \<and> world_ok w' \<and> n \<le> length (mem_limiters w')"
  using assms
proof (induction opts arbitrary: w)
  case (Cons opt opts)
  obtain w1 where "opt w = (Ret (), w1)" "world_ok w1" "n \<le> length (mem_limiters w1)"
    using option_ok Cons.prems by (metis list.set_intros(1))
  then show ?case using Cons.IH [of w1] Cons.prems(1) by (simp add: comp_simps)
qed (simp add: comp_simps)

section \<open>Calls\<close>

lemma allow_ok:
  assumes "world_ok w" "rateLimiter (defaultConfig w) = Some (MemoryLimiter p)"
  shows "\<exists>b w'. allow_limiter E (MemoryLimiter p) c key w = (Ret (b, None), w') \<and> world_ok w' \<and>
           defaultConfig w' = defaultConfig w"
proof -
  have p: "p < length (mem_limiters w)" using assms by (simp add: world_ok_def)
  obtain b m' where m': "mem_allow (bucket_answer E) (mem_limiters w ! p) key (now w) = (b, m')" by fastforce
  then have "limiter_ok m'"
    using mem_allow_ok [of "mem_limiters w ! p"] p assms(1) by (metis nth_mem snd_conv world_ok_def)
  then show ?thesis using p m' assms
    by (auto simp: with_limiter_def set_limiter_def time_now_def comp_simps world_ok_def
        dest!: set_update_subset_insert [THEN subsetD])
qed


lemma sample_world_ok: "world_ok sample_world"
  by (simp add: world_ok_def sample_world_def initial_config_def)


end
