(* ===== verification/Config_Concurrency.thy ===== *)
theory Config_Concurrency
  imports Server_State
begin

text \<open>
  \<^verbatim>\<open>Configure\<close> against requests in flight. \<^verbatim>\<open>Configure\<close> holds the write lock of \<^verbatim>\<open>configMu\<close> while it applies
  its options one after the other; \<^verbatim>\<open>getConfig\<close> takes the read lock, so it is one step that waits
  for a writer to finish; everything else that requests and other goroutines do leaves the
  package configuration alone. A lookup in one of the method sets happens after \<^verbatim>\<open>getConfig\<close> has
  released the lock, so it has a beginning and an end of its own.
\<close>

record cfg_sys =
  world :: server_world
  write_lock :: "unit scomp list option"        \<comment> \<open>the options the holder still has to apply\<close>
  looking :: "nat set"                          \<comment> \<open>goroutines inside a lookup of a method set\<close>
  snaps :: "nat \<Rightarrow> (nat \<times> srv_config) option"   \<comment> \<open>per goroutine: the last snapshot and its number\<close>
  committed :: "srv_config list"                \<comment> \<open>the configuration at start-up and after each \<^verbatim>\<open>Configure\<close>\<close>

definition cfg_start :: "server_world \<Rightarrow> cfg_sys" where
  "cfg_start w = \<lparr>world = w, write_lock = None, looking = {}, snaps = (\<lambda>i. None), committed = [defaultConfig w]\<rparr>"

inductive cfg_step :: "cfg_sys \<Rightarrow> cfg_sys \<Rightarrow> bool" where
  lock: "write_lock s = None \<Longrightarrow> cfg_step s (s\<lparr>write_lock := Some opts\<rparr>)"
| apply_option: "write_lock s = Some (opt # opts) \<Longrightarrow> opt (world s) = (Ret (), w') \<Longrightarrow>
    cfg_step s (s\<lparr>world := w', write_lock := Some opts\<rparr>)"
| option_panics: "write_lock s = Some (opt # opts) \<Longrightarrow> opt (world s) = (Panic p, w') \<Longrightarrow>
    cfg_step s (s\<lparr>world := w', write_lock := None, committed := committed s @ [defaultConfig w']\<rparr>)"
| unlock: "write_lock s = Some [] \<Longrightarrow>
    cfg_step s (s\<lparr>write_lock := None, committed := committed s @ [defaultConfig (world s)]\<rparr>)"
| take_snapshot: "write_lock s = None \<Longrightarrow> getConfig (world s) = (Ret c, w') \<Longrightarrow>
    cfg_step s (s\<lparr>world := w', snaps := (snaps s)(i := Some (length (committed s) - 1, c))\<rparr>)"
| lookup_begins: "snaps s i \<noteq> None \<Longrightarrow> cfg_step s (s\<lparr>looking := insert i (looking s)\<rparr>)"
| lookup_ends: "i \<in> looking s \<Longrightarrow> cfg_step s (s\<lparr>looking := looking s - {i}\<rparr>)"
| other_work: "defaultConfig w' = defaultConfig (world s) \<Longrightarrow> method_maps w' = method_maps (world s) \<Longrightarrow>
    cfg_step s (s\<lparr>world := w'\<rparr>)"

inductive cfg_reachable :: "server_world \<Rightarrow> cfg_sys \<Rightarrow> bool" for w where
  cfg_begins: "cfg_reachable w (cfg_start w)"
| cfg_goes_on: "cfg_reachable w s \<Longrightarrow> cfg_step s t \<Longrightarrow> cfg_reachable w t"

inductive_cases cfg_stepE: "cfg_step s t"

section \<open>Snapshots are consistent\<close>

definition cfg_inv :: "cfg_sys \<Rightarrow> bool" where
  "cfg_inv s \<longleftrightarrow>
     committed s \<noteq> [] \<and>
     (write_lock s = None \<longrightarrow> defaultConfig (world s) = last (committed s)) \<and>
     (\<forall>i k c. snaps s i = Some (k, c) \<longrightarrow> k < length (committed s) \<and> c = committed s ! k)"

lemma cfg_step_inv: "cfg_step s t \<Longrightarrow> cfg_inv s \<Longrightarrow> cfg_inv t"
proof (induction rule: cfg_step.induct)
  case (take_snapshot s c w' i)
  then show ?case by (auto simp: cfg_inv_def config_reads last_conv_nth)
qed (auto simp: cfg_inv_def nth_append less_SucI)

lemma cfg_reachable_inv: "cfg_reachable w s \<Longrightarrow> cfg_inv s"
proof (induction rule: cfg_reachable.induct)
  case cfg_begins
  show ?case by (simp add: cfg_inv_def cfg_start_def)
next
  case (cfg_goes_on s t)
  then show ?case using cfg_step_inv by blast
qed


text \<open>A request that takes its snapshot before a \<^verbatim>\<open>Configure\<close> call and keeps it while one is running.\<close>

lemma sample_in_flight:
  "\<exists>s. cfg_reachable sample_world s \<and> snaps s 0 = Some (0, initial_config) \<and> looking s = {0} \<and>
     write_lock s = Some [WithExcludedMethods [''/a/B'']] \<and> excludedMethods (defaultConfig (world s)) = 0"
proof -
  let ?s0 = "cfg_start sample_world"
  let ?s1 = "?s0\<lparr>world := sample_world, snaps := (snaps ?s0)(0 := Some (length (committed ?s0) - 1, initial_config))\<rparr>"
  let ?s2 = "?s1\<lparr>looking := insert 0 (looking ?s1)\<rparr>"
  let ?s3 = "?s2\<lparr>write_lock := Some [WithTrustProxy True, WithExcludedMethods [''/a/B'']]\<rparr>"
  let ?s4 = "?s3\<lparr>world := snd (WithTrustProxy True sample_world), write_lock := Some [WithExcludedMethods [''/a/B'']]\<rparr>"
  have "cfg_step ?s0 ?s1"
    by (rule take_snapshot) (simp_all add: cfg_start_def config_reads sample_world_def)
  then have "cfg_reachable sample_world ?s1" by (rule cfg_goes_on [OF cfg_begins])
  then have "cfg_reachable sample_world ?s2" by (rule cfg_goes_on) (rule lookup_begins, simp)
  then have "cfg_reachable sample_world ?s3" by (rule cfg_goes_on) (rule lock, simp add: cfg_start_def)
  then have "cfg_reachable sample_world ?s4"
    by (rule cfg_goes_on) (rule apply_option [where opt = "WithTrustProxy True"]; simp add: comp_simps)
  then show ?thesis by (rule exI [of _ ?s4, OF conjI]) (simp add: cfg_start_def comp_simps sample_world_def initial_config_def)
qed


text \<open>What the snapshot does not protect: the method sets are shared, and a \<^verbatim>\<open>Configure\<close> call can be about
  to write the set of excluded methods while a request is inside a lookup of it.\<close>

lemma lookup_races_with_configure:
  "\<exists>s i c ms opts. cfg_reachable sample_world s \<and> i \<in> looking s \<and> write_lock s = Some (WithExcludedMethods ms # opts) \<and>
     snaps s i = Some (0, c) \<and> excludedMethods c = excludedMethods (defaultConfig (world s))"
proof -
  have "excludedMethods initial_config = 0" by (simp add: initial_config_def)
  then show ?thesis using sample_in_flight by (metis insertI1)
qed

end
