(* ===== verification/Registration.thy ===== *)
theory Registration
  imports Server
begin

text \<open>
  \<^verbatim>\<open>RegisterService\<close> from many goroutines while \<^verbatim>\<open>Run\<close> copies what has been registered
  (\<^verbatim>\<open>internal/server/server.go\<close>). Both go through the server's \<^verbatim>\<open>sync.RWMutex\<close>. The append is a read
  of the slice and a store of the new one, and the copy is a \<^verbatim>\<open>make\<close> of the length read and a \<^verbatim>\<open>copy\<close>,
  so nothing below is atomic but the operations of the mutex.
\<close>

datatype reg_pc =
    NotCalled
  | Locking "nat list"                 \<comment> \<open>called with these registrars, waiting for the write lock\<close>
  | Holding "nat list"
  | Appended "nat list" "nat list"     \<comment> \<open>the registrars and the new slice, not stored yet\<close>
  | Stored "nat list"
  | RegisterDone "nat list"

datatype copy_pc = NotRunning | Reading | Made nat | Copied "nat option list" | Released "nat option list"

record ('ui, 'si) reg_sys =
  srv :: "('ui, 'si) server"
  writer :: "nat option"
  reading :: "nat set"
  callers :: "nat \<Rightarrow> reg_pc"
  runners :: "nat \<Rightarrow> copy_pc"
  stores :: "(nat \<times> nat list) list"                \<comment> \<open>history: the stores so far\<close>
  early :: "nat \<Rightarrow> (nat \<times> nat list) set"           \<comment> \<open>history: the calls that had returned when a \<^verbatim>\<open>Run\<close> took its lock\<close>

definition reg_start :: "('ui, 'si) server \<Rightarrow> ('ui, 'si) reg_sys" where
  "reg_start s0 = \<lparr>srv = s0, writer = None, reading = {}, callers = (\<lambda>i. NotCalled), runners = (\<lambda>j. NotRunning),
     stores = [], early = (\<lambda>j. {})\<rparr>"

definition copied_slice :: "nat \<Rightarrow> nat list \<Rightarrow> nat option list" where
  \<comment> \<open>\<^verbatim>\<open>copy\<close> into a slice of \<open>n\<close> nil functions\<close>
  "copied_slice n rs = map Some (take n rs) @ replicate (n - length rs) None"

inductive reg_step :: "('ui, 'si) reg_sys \<Rightarrow> ('ui, 'si) reg_sys \<Rightarrow> bool" where
  call_empty: "callers s i = NotCalled \<Longrightarrow> reg_step s (s\<lparr>callers := (callers s)(i := RegisterDone [])\<rparr>)"
| call: "callers s i = NotCalled \<Longrightarrow> rs \<noteq> [] \<Longrightarrow> reg_step s (s\<lparr>callers := (callers s)(i := Locking rs)\<rparr>)"
| lock: "callers s i = Locking rs \<Longrightarrow> writer s = None \<Longrightarrow> reading s = {} \<Longrightarrow>
    reg_step s (s\<lparr>writer := Some i, callers := (callers s)(i := Holding rs)\<rparr>)"
| append: "callers s i = Holding rs \<Longrightarrow>
    reg_step s (s\<lparr>callers := (callers s)(i := Appended rs (registrars (srv s) @ rs))\<rparr>)"
| store: "callers s i = Appended rs new \<Longrightarrow>
    reg_step s (s\<lparr>srv := (srv s)\<lparr>registrars := new\<rparr>, callers := (callers s)(i := Stored rs), stores := stores s @ [(i, rs)]\<rparr>)"
| unlock: "callers s i = Stored rs \<Longrightarrow>
    reg_step s (s\<lparr>writer := None, callers := (callers s)(i := RegisterDone rs)\<rparr>)"
| read_lock: "runners s j = NotRunning \<Longrightarrow> writer s = None \<Longrightarrow>
    reg_step s (s\<lparr>reading := insert j (reading s), runners := (runners s)(j := Reading),
      early := (early s)(j := {(i, rs). rs \<noteq> [] \<and> callers s i = RegisterDone rs})\<rparr>)"
| make: "runners s j = Reading \<Longrightarrow>
    reg_step s (s\<lparr>runners := (runners s)(j := Made (length (registrars (srv s))))\<rparr>)"
| copy: "runners s j = Made n \<Longrightarrow>
    reg_step s (s\<lparr>runners := (runners s)(j := Copied (copied_slice n (registrars (srv s))))\<rparr>)"
| read_unlock: "runners s j = Copied rs \<Longrightarrow>
    reg_step s (s\<lparr>reading := reading s - {j}, runners := (runners s)(j := Released rs)\<rparr>)"

inductive reg_reachable :: "('ui, 'si) server \<Rightarrow> ('ui, 'si) reg_sys \<Rightarrow> bool" for s0 where
  reg_begins: "reg_reachable s0 (reg_start s0)"
| reg_goes_on: "reg_reachable s0 s \<Longrightarrow> reg_step s t \<Longrightarrow> reg_reachable s0 t"

section \<open>The invariant\<close>

text \<open>What the server is after calls of \<^verbatim>\<open>RegisterService\<close> one after the other.\<close>

definition after_calls :: "(nat \<times> nat list) list \<Rightarrow> ('ui, 'si) server \<Rightarrow> ('ui, 'si) server" where
  "after_calls calls s0 = fold (\<lambda>(i, rs). RegisterService rs) calls s0"

fun holds_lock :: "reg_pc \<Rightarrow> bool" where
  "holds_lock (Holding rs) = True"
| "holds_lock (Appended rs new) = True"
| "holds_lock (Stored rs) = True"
| "holds_lock _ = False"

fun stored_args :: "reg_pc \<Rightarrow> nat list option" where
  "stored_args (Stored rs) = Some rs"
| "stored_args (RegisterDone rs) = (if rs = [] then None else Some rs)"
| "stored_args _ = None"

fun holds_read_lock :: "copy_pc \<Rightarrow> bool" where
  "holds_read_lock NotRunning = False"
| "holds_read_lock (Released rs) = False"
| "holds_read_lock _ = True"

fun caller_ok :: "('ui, 'si) server \<Rightarrow> reg_pc \<Rightarrow> bool" where
  "caller_ok v (Locking rs) = (rs \<noteq> [])"
| "caller_ok v (Holding rs) = (rs \<noteq> [])"
| "caller_ok v (Appended rs new) = (rs \<noteq> [] \<and> new = registrars v @ rs)"
| "caller_ok v (Stored rs) = (rs \<noteq> [])"
| "caller_ok v _ = True"

text \<open>What a \<^verbatim>\<open>Run\<close> has, in terms of the stores and of the calls it must not miss.\<close>

fun runner_ok :: "('ui, 'si) server \<Rightarrow> (nat \<times> nat list) list \<Rightarrow> (nat \<times> nat list) set \<Rightarrow> copy_pc \<Rightarrow> bool" where
  "runner_ok s0 st e NotRunning = True"
| "runner_ok s0 st e Reading = (e \<subseteq> set st)"
| "runner_ok s0 st e (Made n) = (e \<subseteq> set st \<and> n = length (registrars (after_calls st s0)))"
| "runner_ok s0 st e (Copied rs) = (e \<subseteq> set st \<and> rs = map Some (registrars (after_calls st s0)))"
| "runner_ok s0 st e (Released rs) = (\<exists>k. rs = map Some (registrars (after_calls (take k st) s0)) \<and> e \<subseteq> set (take k st))"

definition reg_inv :: "('ui, 'si) server \<Rightarrow> ('ui, 'si) reg_sys \<Rightarrow> bool" where
  "reg_inv s0 s \<longleftrightarrow>
     srv s = after_calls (stores s) s0 \<and> distinct (map fst (stores s)) \<and>
     (\<forall>i rs. (i, rs) \<in> set (stores s) \<longleftrightarrow> stored_args (callers s i) = Some rs) \<and>
     (\<forall>i. caller_ok (srv s) (callers s i)) \<and>
     (\<forall>i. holds_lock (callers s i) \<longleftrightarrow> writer s = Some i) \<and>
     (\<forall>j. holds_read_lock (runners s j) \<longleftrightarrow> j \<in> reading s) \<and>
     (writer s \<noteq> None \<longrightarrow> reading s = {}) \<and>
     (\<forall>j. runner_ok s0 (stores s) (early s j) (runners s j))"

lemma copied_all: "copied_slice (length rs) rs = map Some rs"
  by (simp add: copied_slice_def)

lemma after_calls_snoc: "after_calls (st @ [(i, rs)]) s0 = RegisterService rs (after_calls st s0)"
  by (simp add: after_calls_def)

lemma runner_ok_idle: "\<not> holds_read_lock pc \<Longrightarrow> runner_ok s0 st e pc \<Longrightarrow> runner_ok s0 (st @ [x]) e pc"
proof (cases pc)
  case (Released rs)
  assume "runner_ok s0 st e pc"
  then obtain k where k: "rs = map Some (registrars (after_calls (take k st) s0))" "e \<subseteq> set (take k st)" using Released by auto
  have "take (min k (length st)) (st @ [x]) = take k st" by (simp add: min_def)
  with k show ?thesis unfolding Released runner_ok.simps by (intro exI [of _ "min k (length st)"]) simp
qed simp_all

lemma caller_ok_unheld: "\<not> holds_lock pc \<Longrightarrow> caller_ok v pc \<Longrightarrow> caller_ok v' pc"
  by (cases pc) auto

lemma reg_inv_start: "reg_inv s0 (reg_start s0)"
  by (simp add: reg_inv_def reg_start_def after_calls_def)

lemma reg_store_inv:
  assumes "reg_inv s0 s" "callers s i = Appended rs new"
  shows "reg_inv s0 (s\<lparr>srv := (srv s)\<lparr>registrars := new\<rparr>, callers := (callers s)(i := Stored rs), stores := stores s @ [(i, rs)]\<rparr>)"
proof -
  note inv = assms(1) [unfolded reg_inv_def]
  have new: "rs \<noteq> []" "new = registrars (srv s) @ rs" using inv assms(2) by (metis caller_ok.simps(3))+
  have held: "writer s = Some i" using inv assms(2) by (metis holds_lock.simps(2))
  have others: "\<not> holds_lock (callers s k)" if "k \<noteq> i" for k using inv held that by auto
  have unread: "\<not> holds_read_lock (runners s j)" for j using inv held by auto
  have fresh: "(i, rs') \<notin> set (stores s)" for rs' using inv assms(2) by simp
  have kept: "caller_ok ((srv s)\<lparr>registrars := new\<rparr>) (callers s k)" if "k \<noteq> i" for k
    by (rule caller_ok_unheld [OF others [OF that], where v = "srv s"]) (use inv in blast)
  have "(srv s)\<lparr>registrars := new\<rparr> = after_calls (stores s @ [(i, rs)]) s0"
    using inv new by (simp add: after_calls_snoc RegisterService_def)
  moreover have "distinct (map fst (stores s @ [(i, rs)]))" using inv fresh by auto
  moreover have "\<forall>k rs'. (k, rs') \<in> set (stores s @ [(i, rs)]) \<longleftrightarrow> stored_args (((callers s)(i := Stored rs)) k) = Some rs'"
    using inv fresh by auto
  moreover have "\<forall>k. caller_ok ((srv s)\<lparr>registrars := new\<rparr>) (((callers s)(i := Stored rs)) k)"
    using kept new(1) by simp
  moreover have "\<forall>j. runner_ok s0 (stores s @ [(i, rs)]) (early s j) (runners s j)"
    using inv unread runner_ok_idle by blast
  ultimately show ?thesis using inv held assms(2) unfolding reg_inv_def by auto
qed

lemma reg_step_inv: "reg_step s t \<Longrightarrow> reg_inv s0 s \<Longrightarrow> reg_inv s0 t"
proof (induction rule: reg_step.induct)
  case (store s i rs new)
  then show ?case by (intro reg_store_inv)
next
  case (read_lock s j)
  have "(i, rs) \<in> set (stores s)" if "rs \<noteq> []" "callers s i = RegisterDone rs" for i rs
    using read_lock.prems that by (simp add: reg_inv_def)
  then have "{(i, rs). rs \<noteq> [] \<and> callers s i = RegisterDone rs} \<subseteq> set (stores s)" by auto
  then show ?case using read_lock by (auto simp: reg_inv_def)
next
  case (make s j)
  then have "runner_ok s0 (stores s) (early s j) Reading" "srv s = after_calls (stores s) s0" by (metis reg_inv_def)+
  then show ?case using make by (auto simp: reg_inv_def)
next
  case (copy s j n)
  then have "runner_ok s0 (stores s) (early s j) (Made n)" "srv s = after_calls (stores s) s0" by (metis reg_inv_def)+
  then show ?case using copy by (auto simp: reg_inv_def copied_all)
next
  case (read_unlock s j rs)
  then have "runner_ok s0 (stores s) (early s j) (Copied rs)" by (metis reg_inv_def)
  then have "runner_ok s0 (stores s) (early s j) (Released rs)"
    unfolding runner_ok.simps by (intro exI [of _ "length (stores s)"]) simp
  then show ?case using read_unlock by (auto simp: reg_inv_def)
next
  case (append s i rs)
  then have "rs \<noteq> []" "writer s = Some i" by (metis reg_inv_def caller_ok.simps(2), metis reg_inv_def holds_lock.simps(1))
  then show ?case using append by (auto simp: reg_inv_def)
next
  case (unlock s i rs)
  then have "rs \<noteq> []" "writer s = Some i" by (metis reg_inv_def caller_ok.simps(4), metis reg_inv_def holds_lock.simps(3))
  then show ?case using unlock by (auto simp: reg_inv_def)
next
  case (lock s i rs)
  then have "rs \<noteq> []" by (metis reg_inv_def caller_ok.simps(1))
  then show ?case using lock by (auto simp: reg_inv_def)
next
  case (call_empty s i)
  then have "writer s \<noteq> Some i" by (metis reg_inv_def holds_lock.simps(4))
  then show ?case using call_empty by (auto simp: reg_inv_def)
next
  case (call s i rs)
  then have "writer s \<noteq> Some i" by (metis reg_inv_def holds_lock.simps(4))
  then show ?case using call by (auto simp: reg_inv_def)
qed

lemma reg_reachable_inv: "reg_reachable s0 s \<Longrightarrow> reg_inv s0 s"
  by (induction rule: reg_reachable.induct) (auto intro: reg_inv_start reg_step_inv)

section \<open>Nothing is lost\<close>

text \<open>C25. \<^verbatim>\<open>RegisterService\<close> is safe for concurrent use, as its comment says: whatever the interleaving, the
  server is at any time as if the calls that have stored had been made one after the other, each
  once and whole; and the slice a \<^verbatim>\<open>Run\<close> has copied is what the server had after the first some of
  them, which include every call that had returned before \<^verbatim>\<open>Run\<close> took the lock. No registrar is
  lost, doubled, split off from its call or nil.\<close>

theorem registrations_linearize:
  assumes "reg_reachable s0 s"
  shows "\<exists>order. distinct (map fst order) \<and> (\<forall>i rs. (i, rs) \<in> set order \<longleftrightarrow> stored_args (callers s i) = Some rs) \<and>
           srv s = after_calls order s0 \<and>
           (\<forall>j rs. runners s j = Released rs \<longrightarrow>
              (\<exists>k. rs = map Some (registrars (after_calls (take k order) s0)) \<and> early s j \<subseteq> set (take k order)))"
proof -
  note inv = reg_reachable_inv [OF assms, unfolded reg_inv_def]
  then have "\<exists>k. rs = map Some (registrars (after_calls (take k (stores s)) s0)) \<and> early s j \<subseteq> set (take k (stores s))"
    if "runners s j = Released rs" for j rs
    using that by (metis runner_ok.simps(5))
  then show ?thesis using inv by blast
qed

text \<open>The goroutines never block each other for good: while a call is unfinished or a \<^verbatim>\<open>Run\<close> is copying,
  some step can be made.\<close>

lemma registration_progress:
  assumes "reg_reachable s0 s" "\<And>rs. callers s i \<noteq> RegisterDone rs"
  shows "\<exists>t. reg_step s t"
proof -
  note inv = reg_reachable_inv [OF assms(1), unfolded reg_inv_def]
  have reader: "\<exists>t. reg_step s t" if "j \<in> reading s" for j
  proof -
    have "holds_read_lock (runners s j)" using inv that by blast
    then show ?thesis
      using reg_step.make [of s j] reg_step.copy [of s j] reg_step.read_unlock [of s j] by (cases "runners s j") auto
  qed
  have holder: "\<exists>t. reg_step s t" if "writer s = Some k" for k
  proof -
    have "holds_lock (callers s k)" using inv that by blast
    then show ?thesis
      using reg_step.append [of s k] reg_step.store [of s k] reg_step.unlock [of s k] by (cases "callers s k") auto
  qed
  show ?thesis
  proof (cases "callers s i")
    case (Locking rs)
    then show ?thesis using reader holder reg_step.lock [of s i rs] by (cases "writer s") blast+
  qed (use assms(2) reg_step.call_empty [of s i] reg_step.append [of s i] reg_step.store [of s i] reg_step.unlock [of s i] in auto)
qed

lemma sample_registration:
  "\<exists>s :: ('ui, 'si) reg_sys. reg_reachable (new_server SlogHandler) s \<and> callers s = (\<lambda>i. NotCalled)(5 := RegisterDone [7, 8]) \<and>
     early s 0 = {(5, [7, 8])} \<and> runners s 0 = Released [Some 7, Some 8]"
proof -
  let ?v = "new_server SlogHandler :: ('ui, 'si) server"
  let ?v' = "?v\<lparr>registrars := [7, 8]\<rparr>"
  let ?c = "\<lambda>pc. (\<lambda>i. NotCalled)(5 := pc)" and ?r = "\<lambda>pc. (\<lambda>j. NotRunning)(0 := pc)"
  let ?e = "(\<lambda>j. {})(0 := {(5, [7, 8])})"
  let ?S = "\<lambda>v wr rd c r st e. \<lparr>srv = v, writer = wr, reading = rd, callers = c, runners = r, stores = st, early = e\<rparr>"
  have call: "reg_reachable ?v (?S ?v None {} (?c (Locking [7, 8])) (\<lambda>j. NotRunning) [] (\<lambda>j. {}))"
    using reg_goes_on [OF reg_begins reg_step.call [of _ 5 "[7, 8]"], of ?v] by (simp add: reg_start_def)
  have lock: "reg_reachable ?v (?S ?v (Some 5) {} (?c (Holding [7, 8])) (\<lambda>j. NotRunning) [] (\<lambda>j. {}))"
    using reg_goes_on [OF call reg_step.lock [of _ 5 "[7, 8]"]] by simp
  have app: "reg_reachable ?v (?S ?v (Some 5) {} (?c (Appended [7, 8] [7, 8])) (\<lambda>j. NotRunning) [] (\<lambda>j. {}))"
    using reg_goes_on [OF lock reg_step.append [of _ 5 "[7, 8]"]] by (simp add: new_server_def)
  have store: "reg_reachable ?v (?S ?v' (Some 5) {} (?c (Stored [7, 8])) (\<lambda>j. NotRunning) [(5, [7, 8])] (\<lambda>j. {}))"
    using reg_goes_on [OF app reg_step.store [of _ 5 "[7, 8]" "[7, 8]"]] by simp
  have unlock: "reg_reachable ?v (?S ?v' None {} (?c (RegisterDone [7, 8])) (\<lambda>j. NotRunning) [(5, [7, 8])] (\<lambda>j. {}))"
    using reg_goes_on [OF store reg_step.unlock [of _ 5 "[7, 8]"]] by simp
  have done_calls: "{(i, rs). rs \<noteq> [] \<and> (?c (RegisterDone [7, 8])) i = RegisterDone rs} = {(5 :: nat, [7, 8])}"
    by (auto split: if_splits)
  have rlock: "reg_reachable ?v (?S ?v' None {0} (?c (RegisterDone [7, 8])) (?r Reading) [(5, [7, 8])] ?e)"
    using reg_goes_on [OF unlock reg_step.read_lock [of _ 0]] done_calls by simp
  have made: "reg_reachable ?v (?S ?v' None {0} (?c (RegisterDone [7, 8])) (?r (Made 2)) [(5, [7, 8])] ?e)"
    using reg_goes_on [OF rlock reg_step.make [of _ 0]] by (simp add: numeral_2_eq_2)
  have copied: "reg_reachable ?v (?S ?v' None {0} (?c (RegisterDone [7, 8])) (?r (Copied [Some 7, Some 8])) [(5, [7, 8])] ?e)"
    using reg_goes_on [OF made reg_step.copy [of _ 0 2]] by (simp add: copied_slice_def)
  have released: "reg_reachable ?v (?S ?v' None {} (?c (RegisterDone [7, 8])) (?r (Released [Some 7, Some 8])) [(5, [7, 8])] ?e)"
    using reg_goes_on [OF copied reg_step.read_unlock [of _ 0 "[Some 7, Some 8]"]] by simp
  show ?thesis by (rule exI, rule conjI, rule released) simp
qed

theorem registrations_linearize_witness:
  "\<exists>(s :: (nat, nat) reg_sys) order. srv s = after_calls order (new_server SlogHandler) \<and> (5, [7, 8]) \<in> set order \<and>
     runners s 0 = Released [Some 7, Some 8]"
proof -
  obtain s :: "(nat, nat) reg_sys" where s: "reg_reachable (new_server SlogHandler) s"
    "callers s = (\<lambda>i. NotCalled)(5 := RegisterDone [7, 8])" "runners s 0 = Released [Some 7, Some 8]"
    using sample_registration by blast
  have "stored_args (callers s 5) = Some [7, 8]" by (simp add: s(2))
  then show ?thesis using registrations_linearize [OF s(1)] s(3) by blast
qed

end
