(* ===== verification/Client_Config.thy ===== *)
theory Client_Config
  imports Logging_Pkg Middleware
begin

text \<open>
  \<^verbatim>\<open>internal/client/interceptor/config.go\<close>: the package-level configuration of the client
  interceptors, its functional options and the token sources; and the state of a client
  process. The functions carry the suffix \<open>_client\<close> where the server package has one of the same
  name. User token sources and oauth2 token sources are identities whose implementations are
  parameters, in the record \<open>client_env\<close>.
\<close>

section \<open>The state of a client process\<close>

datatype token_source =
    StaticToken string                 \<comment> \<open>the closures made by \<^verbatim>\<open>StaticToken\<close> ...\<close>
  | OAuth2TokenSource "nat option"     \<comment> \<open>... and \<^verbatim>\<open>OAuth2TokenSource\<close>, over a possibly nil source\<close>
  | UserTokenSource nat

record client_config =
  clc_logger :: "log_handler option"
  defaultTimeout :: int
  retryMax :: int
  retryBackoff :: int
  retryCodes :: "code list"
  tokenSource :: "token_source option"

record client_world = process +
  clientConfig :: client_config

type_synonym 'a ccomp = "(client_world, 'a) comp"

text \<open>\<open>oauth_impl\<close> is the \<^verbatim>\<open>Token\<close> method of the oauth2 sources: the access token, \<^const>\<open>None\<close> for a nil
  token, and the error.\<close>

record 'md client_env = "'md grpc_api" +
  oauth_impl :: "nat \<Rightarrow> string option fallible ccomp"
  source_impl :: "nat \<Rightarrow> 'md ctx \<Rightarrow> 'md ctx fallible ccomp"

definition defaultRetryCodes :: "code list" where
  "defaultRetryCodes = [Unavailable, ResourceExhausted, Aborted]"

definition initial_client_config :: client_config where
  "initial_client_config = \<lparr>clc_logger = None, defaultTimeout = 0, retryMax = 0, retryBackoff = 0,
     retryCodes = defaultRetryCodes, tokenSource = None\<rparr>"

text \<open>An invoker or streamer: everything but the context it is called with is in \<open>'call\<close>.\<close>

type_synonym ('md, 'call, 'r) invoker = "'md ctx \<Rightarrow> 'call \<Rightarrow> 'r ccomp"

type_synonym ('md, 'call) unary_client_interceptor =
  "'md ctx \<Rightarrow> 'call \<Rightarrow> string \<Rightarrow> ('md, 'call, goerror option) invoker \<Rightarrow> goerror option ccomp"

type_synonym ('md, 'call, 'cs) stream_client_interceptor =
  "'md ctx \<Rightarrow> 'call \<Rightarrow> string \<Rightarrow> ('md, 'call, 'cs option fallible) invoker \<Rightarrow> 'cs option fallible ccomp"

section \<open>Snapshots and options\<close>

definition getConfig_client :: "client_config ccomp" where
  "getConfig_client = getc clientConfig"

definition set_client_config :: "(client_config \<Rightarrow> client_config) \<Rightarrow> unit ccomp" where
  "set_client_config f = modifyc (\<lambda>w. w\<lparr>clientConfig := f (clientConfig w)\<rparr>)"

definition WithLogger_client :: "log_handler option \<Rightarrow> unit ccomp" where
  "WithLogger_client l = set_client_config (clc_logger_update (\<lambda>_. l))"

definition WithDefaultTimeout :: "int \<Rightarrow> unit ccomp" where
  "WithDefaultTimeout d = set_client_config (defaultTimeout_update (\<lambda>_. d))"

definition WithRetry :: "int \<Rightarrow> int \<Rightarrow> unit ccomp" where
  "WithRetry maxRetries backoff =
     set_client_config (\<lambda>c. c\<lparr>retryMax := maxRetries, retryBackoff := backoff\<rparr>)"

definition WithRetryCodes :: "code list \<Rightarrow> unit ccomp" where
  "WithRetryCodes cs = set_client_config (retryCodes_update (\<lambda>_. cs))"

definition WithTokenSource :: "token_source option \<Rightarrow> unit ccomp" where
  "WithTokenSource fn = set_client_config (tokenSource_update (\<lambda>_. fn))"

definition Configure_client :: "unit ccomp list \<Rightarrow> unit ccomp" where
  "Configure_client opts = seqc opts"

lemmas client_option_defs = WithLogger_client_def WithDefaultTimeout_def WithRetry_def WithRetryCodes_def
  WithTokenSource_def set_client_config_def

lemma getConfig_client_apply [comp_simps]: "getConfig_client w = (Ret (clientConfig w), w)"
  by (simp add: getConfig_client_def comp_simps)

section \<open>Token sources\<close>

fun call_source :: "'md client_env \<Rightarrow> token_source \<Rightarrow> 'md ctx \<Rightarrow> 'md ctx fallible ccomp" where
  "call_source E (StaticToken token) c = ret (with_value c TokenKey (StringValue token), None)"
| "call_source E (OAuth2TokenSource None) c = ret (c, Some (ErrorText ''oauth2: token source is nil''))"
| "call_source E (OAuth2TokenSource (Some ts)) c =
     bindc (oauth_impl E ts) (\<lambda>(tok, err).
       case err of
         Some e \<Rightarrow> ret (c, Some (WrapError ''oauth2: failed to get token: '' e))
       | None \<Rightarrow>
           (case tok of
              None \<Rightarrow> ret (c, Some (ErrorText ''oauth2: empty access token''))
            | Some t \<Rightarrow>
                if t = [] then ret (c, Some (ErrorText ''oauth2: empty access token''))
                else ret (with_value c TokenKey (StringValue t), None)))"
| "call_source E (UserTokenSource i) c = source_impl E i c"

section \<open>A client process at start-up, for witnesses\<close>

definition sample_client :: client_world where
  "sample_client = \<lparr>default_handler = SlogHandler, log_trace = [], now = 0, sched = (\<lambda>i. (0, True)),
     entropy = (\<lambda>i. 0), rand_src = (\<lambda>i. 0), headers_set = [], objects = [], sent_msgs = [], clientConfig = initial_client_config\<rparr>"

definition sample_client_env :: "(string \<Rightarrow> string list) client_env" where
  "sample_client_env = \<lparr>from_error = sample_from_error, status_text = (\<lambda>c m. m), code_text = (\<lambda>c. ''code''),
     md_new = (\<lambda>k. []), md_get = (\<lambda>m. m), md_copy = (\<lambda>m. m), md_set = (\<lambda>m k vs. m(k := vs)),
     oauth_impl = (\<lambda>i. ret (Some ''tok'', None)),
     source_impl = (\<lambda>i c. ret (c, Some (ForeignError i ''no token'')))\<rparr>"

lemma sample_client_env_laws: "status_laws sample_client_env" "md_laws sample_client_env"
  by (simp_all add: status_laws_def md_laws_def status_code_def sample_client_env_def sample_from_error_def)

end
