(* ===== verification/Client.thy ===== *)
theory Client
  imports Client_Config
begin

text \<open>
  \<^verbatim>\<open>internal/client/option.go\<close> and \<^verbatim>\<open>internal/client/client.go\<close>: the \<^verbatim>\<open>Client\<close> object and its options,
  \<^verbatim>\<open>New\<close>, \<^verbatim>\<open>buildDialOpts\<close>, and the connection life cycle as one goroutine runs it (\<^verbatim>\<open>Connect\<close>,
  \<^verbatim>\<open>Close\<close>, \<^verbatim>\<open>Conn\<close>, \<^verbatim>\<open>State\<close>, \<^verbatim>\<open>WaitReady\<close>, \<^verbatim>\<open>ListServices\<close>). Concurrent calls are in
  \<open>Client_Lifecycle\<close>, the health watcher in \<open>Health_Watch\<close>.

  The immutable half of the struct is the record \<open>client\<close>; the half guarded by the mutex, with
  the connections and watchers it has made, is the record \<open>life\<close>.
\<close>

section \<open>Data\<close>

record client_tls =
  client_cert :: "nat option"
  root_cas :: string                  \<comment> \<open>the PEM text of the pool\<close>
  client_min_version :: "16 word"

datatype ('ui, 'si) dial_option =
    TransportTLS client_tls
  | TransportInsecure
  | WithChainUnary "'ui list"
  | WithChainStream "'si list"
  | WithKeepaliveParams nat
  | MaxCallMsgSize int
  | DefaultServiceConfig string
  | RawDialOption nat

record ('ui, 'si) client =
  target :: string
  insecureCreds :: bool
  clientTLS :: "client_tls option"
  client_logger :: log_handler
  unaryChain :: "'ui list"
  streamChain :: "'si list"
  dialOpts :: "('ui, 'si) dial_option list"
  healthWatch :: bool
  clientErr :: "goerror option"

type_synonym ('ui, 'si) client_option = "('ui, 'si) client \<Rightarrow> ('ui, 'si) client ccomp"

text \<open>What the options read from outside the program.\<close>

record client_host =
  ch_key_pair :: "string \<Rightarrow> string \<Rightarrow> goerror + nat"
  ch_file :: "string \<Rightarrow> goerror + string"
  ch_pem_ok :: "string \<Rightarrow> bool"
  balancer_known :: "string \<Rightarrow> bool"          \<comment> \<open>\<^verbatim>\<open>balancer.Get(policy) != nil\<close>\<close>
  go_quote :: "string \<Rightarrow> string"              \<comment> \<open>the verb \<^verbatim>\<open>%q\<close>\<close>

section \<open>Options\<close>

definition upd :: "('s \<Rightarrow> 's) \<Rightarrow> 's \<Rightarrow> ('w, 's) comp" where
  "upd f s = ret (f s)"

definition WithInsecure :: "('ui, 'si) client_option" where
  "WithInsecure = upd (\<lambda>c. c\<lparr>insecureCreds := True, clientTLS := None, clientErr := None\<rparr>)"

definition client_tls_failed :: "goerror \<Rightarrow> ('ui, 'si) client \<Rightarrow> ('ui, 'si) client" where
  "client_tls_failed e c = c\<lparr>clientErr := Some e, clientTLS := None\<rparr>"

definition load_pool :: "client_host \<Rightarrow> string \<Rightarrow> goerror + string" where
  \<comment> \<open>the part the two TLS options share\<close>
  "load_pool H caCertFile =
     (case ch_file H caCertFile of
        Inl err \<Rightarrow> Inl (WrapError ''failed to read CA certificate: '' err)
      | Inr caCert \<Rightarrow>
          if \<not> ch_pem_ok H caCert then Inl (ErrorText (''failed to parse CA certificate from '' @ caCertFile))
          else Inr caCert)"

definition client_WithTLS :: "client_host \<Rightarrow> string \<Rightarrow> ('ui, 'si) client_option" where
  "client_WithTLS H caCertFile = upd (\<lambda>c.
     case load_pool H caCertFile of
       Inl e \<Rightarrow> client_tls_failed e c
     | Inr pool \<Rightarrow> c\<lparr>clientErr := None, clientTLS := Some \<lparr>client_cert = None, root_cas = pool,
         client_min_version = version_TLS13\<rparr>\<rparr>)"

definition client_WithMutualTLS :: "client_host \<Rightarrow> string \<Rightarrow> string \<Rightarrow> string \<Rightarrow> ('ui, 'si) client_option" where
  "client_WithMutualTLS H certFile keyFile caCertFile = upd (\<lambda>c.
     case ch_key_pair H certFile keyFile of
       Inl err \<Rightarrow> client_tls_failed (WrapError ''failed to load client TLS certificate: '' err) c
     | Inr cert \<Rightarrow>
         (case load_pool H caCertFile of
            Inl e \<Rightarrow> client_tls_failed e c
          | Inr pool \<Rightarrow> c\<lparr>clientErr := None, clientTLS := Some \<lparr>client_cert = Some cert, root_cas = pool,
              client_min_version = version_TLS13\<rparr>\<rparr>))"

definition client_WithUnaryInterceptors :: "'ui list \<Rightarrow> ('ui, 'si) client_option" where
  "client_WithUnaryInterceptors is = upd (unaryChain_update (\<lambda>xs. xs @ is))"

definition client_WithStreamInterceptors :: "'si list \<Rightarrow> ('ui, 'si) client_option" where
  "client_WithStreamInterceptors is = upd (streamChain_update (\<lambda>xs. xs @ is))"

definition client_WithKeepalive :: "nat \<Rightarrow> ('ui, 'si) client_option" where
  "client_WithKeepalive params = upd (dialOpts_update (\<lambda>xs. xs @ [WithKeepaliveParams params]))"

definition client_WithMaxMsgSize :: "int \<Rightarrow> ('ui, 'si) client_option" where
  "client_WithMaxMsgSize n = upd (dialOpts_update (\<lambda>xs. xs @ [MaxCallMsgSize n]))"

definition WithDialOptions :: "('ui, 'si) dial_option list \<Rightarrow> ('ui, 'si) client_option" where
  "WithDialOptions opts = upd (dialOpts_update (\<lambda>xs. xs @ opts))"

definition WithHealthWatch :: "('ui, 'si) client_option" where
  "WithHealthWatch = upd (healthWatch_update (\<lambda>_. True))"

definition WithLoadBalancing :: "client_host \<Rightarrow> string \<Rightarrow> ('ui, 'si) client_option" where
  "WithLoadBalancing H policy = upd (\<lambda>c.
     if policy = [] then c
     else if \<not> balancer_known H policy
     then c\<lparr>clientErr := Some (ErrorText (''unknown load balancing policy '' @ go_quote H policy))\<rparr>
     else c\<lparr>clientErr := None,
       dialOpts := dialOpts c @ [DefaultServiceConfig
         (''{\"loadBalancingConfig\": [{\"'' @ policy @ ''\":{}}]}'')]\<rparr>)"

definition client_WithLogger :: "log_handler option \<Rightarrow> ('ui, 'si) client_option" where
  "client_WithLogger l c =
     bindc (Resolve l) (\<lambda>h. thenc (Configure_client [WithLogger_client l]) (ret (c\<lparr>client_logger := h\<rparr>)))"

definition client_delegated :: "unit ccomp \<Rightarrow> ('ui, 'si) client_option" where
  "client_delegated opt c = thenc (Configure_client [opt]) (ret c)"

definition client_WithDefaultTimeout :: "int \<Rightarrow> ('ui, 'si) client_option" where
  "client_WithDefaultTimeout d = client_delegated (WithDefaultTimeout d)"

definition client_WithRetry :: "int \<Rightarrow> int \<Rightarrow> ('ui, 'si) client_option" where
  "client_WithRetry n backoff = client_delegated (WithRetry n backoff)"

definition client_WithRetryCodes :: "code list \<Rightarrow> ('ui, 'si) client_option" where
  "client_WithRetryCodes cs = client_delegated (WithRetryCodes cs)"

definition client_WithTokenSource :: "token_source option \<Rightarrow> ('ui, 'si) client_option" where
  "client_WithTokenSource fn = client_delegated (WithTokenSource fn)"

section \<open>Construction\<close>

fun run_opts :: "('s \<Rightarrow> ('w, 's) comp) list \<Rightarrow> 's \<Rightarrow> ('w, 's) comp" where
  "run_opts [] s = ret s"
| "run_opts (opt # opts) s = bindc (opt s) (run_opts opts)"

definition new_client :: "string \<Rightarrow> log_handler \<Rightarrow> ('ui, 'si) client" where
  "new_client t l = \<lparr>target = t, insecureCreds = False, clientTLS = None, client_logger = l, unaryChain = [],
     streamChain = [], dialOpts = [], healthWatch = False, clientErr = None\<rparr>"

definition client_Logger :: "('ui, 'si) client \<Rightarrow> log_handler" where
  "client_Logger c = client_logger c"

definition client_New :: "string \<Rightarrow> ('ui, 'si) client_option list \<Rightarrow> ('ui, 'si) client ccomp" where
  "client_New t opts = bindc Default (\<lambda>l. run_opts opts (new_client t l))"

definition buildDialOpts :: "('ui, 'si) client \<Rightarrow> ('ui, 'si) dial_option list ccomp" where
  "buildDialOpts c =
     bindc (case clientTLS c of
              Some t \<Rightarrow> ret [TransportTLS t]
            | None \<Rightarrow>
                if insecureCreds c then ret [TransportInsecure]
                else thenc (log_call (client_logger c) LevelWarn
                             (''no TLS configured, using insecure credentials '' @ [CHR 0xE2, CHR 0x80, CHR 0x94] @
                              '' do not use in production'')
                             [ArgString ''target'', ArgString (target c)])
                       (ret [TransportInsecure]))
       (\<lambda>creds. ret (creds @
          (if unaryChain c \<noteq> [] then [WithChainUnary (unaryChain c)] else []) @
          (if streamChain c \<noteq> [] then [WithChainStream (streamChain c)] else []) @ dialOpts c))"

section \<open>The connection life cycle\<close>

text \<open>Connections and watchers are numbered in the order they are made. A connection is open until it
  is closed; a watcher holds the connection it captured, which may be nil, and whether its
  context has been cancelled.\<close>

record watcher =
  watched :: "nat option"
  watch_cancelled :: bool

record life =
  conn :: "nat option"
  healthCancel :: "nat option"
  conn_open :: "bool list"
  watchers :: "watcher list"

definition fresh_life :: life where
  "fresh_life = \<lparr>conn = None, healthCancel = None, conn_open = [], watchers = []\<rparr>"

text \<open>The critical section of \<^verbatim>\<open>Connect\<close>, given what dialling returns; \<^verbatim>\<open>startHealthWatch\<close>; and \<^verbatim>\<open>Close\<close>,
  which is one critical section.\<close>

definition connect_locked :: "string \<Rightarrow> goerror option \<Rightarrow> life \<Rightarrow> goerror option \<times> life" where
  "connect_locked t dialled s =
     (if conn s \<noteq> None then (Some (ErrorText ''client: already connected (call Close before reconnecting)''), s)
      else
        (case dialled of
           Some e \<Rightarrow> (Some (WrapError (''client: failed to create connection to '' @ t @ '': '') e), s)
         | None \<Rightarrow> (None, s\<lparr>conn := Some (length (conn_open s)), conn_open := conn_open s @ [True]\<rparr>)))"

definition startHealthWatch :: "life \<Rightarrow> life" where
  "startHealthWatch s =
     s\<lparr>healthCancel := Some (length (watchers s)),
       watchers := watchers s @ [\<lparr>watched = conn s, watch_cancelled = False\<rparr>]\<rparr>"

definition cancel_watch :: "life \<Rightarrow> life" where
  "cancel_watch s =
     (case healthCancel s of
        None \<Rightarrow> s
      | Some k \<Rightarrow> s\<lparr>watchers := (watchers s)[k := (watchers s ! k)\<lparr>watch_cancelled := True\<rparr>], healthCancel := None\<rparr>)"

definition close_conn :: "life \<Rightarrow> life" where
  "close_conn s =
     (case conn s of None \<Rightarrow> s | Some p \<Rightarrow> s\<lparr>conn_open := (conn_open s)[p := False], conn := None\<rparr>)"

definition Connect ::
  "(string \<Rightarrow> ('ui, 'si) dial_option list \<Rightarrow> goerror option) \<Rightarrow> ('ui, 'si) client \<Rightarrow> life \<Rightarrow> (goerror option \<times> life) ccomp" where
  "Connect dial c s =
     (case clientErr c of
        Some e \<Rightarrow> ret (Some (WrapError ''client: configuration error: '' e), s)
      | None \<Rightarrow>
          bindc (buildDialOpts c) (\<lambda>opts.
            case connect_locked (target c) (dial (target c) opts) s of
              (Some e, s) \<Rightarrow> ret (Some e, s)
            | (None, s) \<Rightarrow>
                thenc (log_call (client_logger c) LevelInfo ''gRPC client connected'' [ArgString ''target'', ArgString (target c)])
                  (ret (None, if healthWatch c then startHealthWatch s else s))))"

definition Close :: "(nat \<Rightarrow> goerror option) \<Rightarrow> ('ui, 'si) client \<Rightarrow> life \<Rightarrow> (goerror option \<times> life) ccomp" where
  "Close close_result c s =
     (let s = cancel_watch s in
      case conn s of
        Some p \<Rightarrow>
          thenc (log_call (client_logger c) LevelInfo ''gRPC client closing'' [ArgString ''target'', ArgString (target c)])
            (ret (close_result p, close_conn s))
      | None \<Rightarrow> ret (None, s))"

definition Conn :: "life \<Rightarrow> nat ccomp" where
  "Conn s = (case conn s of None \<Rightarrow> panicc (PanicString ''client: Conn called before Connect'') | Some p \<Rightarrow> ret p)"

datatype connectivity = ConnIdle | Connecting | Ready | TransientFailure | Shutdown

definition State :: "(nat \<Rightarrow> connectivity) \<Rightarrow> life \<Rightarrow> connectivity" where
  "State get_state s = (case conn s of None \<Rightarrow> Shutdown | Some p \<Rightarrow> get_state p)"

text \<open>The loop of \<^verbatim>\<open>WaitReady\<close>. In its \<open>i\<close>th round it sees the state \<open>fst (obs i)\<close>, and the wait for
  another state returns \<open>snd (obs i)\<close>, false when the context has expired. The loop may run for
  ever, so its result is an option.\<close>

partial_function (option) wait_loop :: "(nat \<Rightarrow> connectivity \<times> bool) \<Rightarrow> ctx_err \<Rightarrow> nat \<Rightarrow> goerror option option" where
  "wait_loop obs e i =
     (if fst (obs i) = Ready then Some None
      else if \<not> snd (obs i)
      then Some (Some (WrapError ''client: context expired waiting for ready state: '' (ContextError e)))
      else wait_loop obs e (i + 1))"

text \<open>\<^verbatim>\<open>WaitReady\<close>: the outer option is \<^const>\<open>None\<close> when the call never returns.\<close>

definition WaitReady :: "(nat \<Rightarrow> connectivity \<times> bool) \<Rightarrow> ctx_err \<Rightarrow> life \<Rightarrow> client_world \<Rightarrow> (goerror option outcome \<times> client_world) option" where
  "WaitReady obs e s w =
     (case Conn s w of
        (Panic p, w') \<Rightarrow> Some (Panic p, w')
      | (Ret q, w') \<Rightarrow> map_option (\<lambda>r. (Ret r, w')) (wait_loop obs e 0))"

section \<open>Service discovery\<close>

text \<open>A reflection exchange: the error of opening the stream, and what receiving gives, an error or a
  response, which may not be a list of services.\<close>

definition defaultListServices ::
  "(nat \<Rightarrow> goerror option) \<Rightarrow> (nat \<Rightarrow> goerror + string list option) \<Rightarrow> nat \<Rightarrow> string list \<times> goerror option" where
  "defaultListServices open_stream recv p =
     (case open_stream p of
        Some e \<Rightarrow> ([], Some (WrapError ''reflection: failed to open stream: '' e))
      | None \<Rightarrow>
          (case recv p of
             Inl e \<Rightarrow> ([], Some (WrapError ''reflection: failed to receive response: '' e))
           | Inr None \<Rightarrow> ([], Some (ErrorText ''reflection: unexpected response type''))
           | Inr (Some names) \<Rightarrow> (names, None)))"

definition ListServices :: "(nat \<Rightarrow> string list \<times> goerror option) option \<Rightarrow> (nat \<Rightarrow> string list \<times> goerror option)
    \<Rightarrow> life \<Rightarrow> (string list \<times> goerror option) ccomp" where
  \<comment> \<open>the list function set on the client if any, the reflection one otherwise\<close>
  "ListServices listFunc default_fn s =
     (let fn = (case listFunc of Some f \<Rightarrow> f | None \<Rightarrow> default_fn) in bindc (Conn s) (\<lambda>p. ret (fn p)))"

lemmas client_opt_defs = WithInsecure_def client_WithTLS_def client_WithMutualTLS_def
  client_WithUnaryInterceptors_def client_WithStreamInterceptors_def client_WithKeepalive_def
  client_WithMaxMsgSize_def WithDialOptions_def WithHealthWatch_def WithLoadBalancing_def upd_def

lemmas client_delegated_defs = client_WithLogger_def client_delegated_def client_WithDefaultTimeout_def
  client_WithRetry_def client_WithRetryCodes_def client_WithTokenSource_def

section \<open>Credentials\<close>

text \<open>The options that can fail or touch the credentials, as data; every other option leaves them.\<close>

datatype cred_opt = Insecure | ClientTLS string | ClientMutualTLS string string string | LoadBalancing string

fun cred_option :: "client_host \<Rightarrow> cred_opt \<Rightarrow> ('ui, 'si) client_option" where
  "cred_option H Insecure = WithInsecure"
| "cred_option H (ClientTLS ca) = client_WithTLS H ca"
| "cred_option H (ClientMutualTLS cert key ca) = client_WithMutualTLS H cert key ca"
| "cred_option H (LoadBalancing policy) = WithLoadBalancing H policy"

lemma buildDialOpts_run:
  "\<exists>w'. buildDialOpts c w = (Ret ((case clientTLS c of Some t \<Rightarrow> [TransportTLS t] | None \<Rightarrow> [TransportInsecure]) @
       (if unaryChain c \<noteq> [] then [WithChainUnary (unaryChain c)] else []) @
       (if streamChain c \<noteq> [] then [WithChainStream (streamChain c)] else []) @ dialOpts c), w')"
  by (cases "clientTLS c") (simp_all add: buildDialOpts_def comp_simps)

text \<open>A failed TLS option of the client can be forgotten: if any accepted load-balancing policy
  follows it, \<^verbatim>\<open>Connect\<close> reports no configuration error and dials with insecure credentials,
  although the caller asked for TLS and never for \<^verbatim>\<open>WithInsecure\<close>.\<close>

theorem load_balancing_clears_tls_error:
  assumes "load_pool H ca = Inl e" "policy \<noteq> []" "balancer_known H policy"
    and "client_New t [client_WithTLS H ca, WithLoadBalancing H policy] w = (out :: ('a, 'b) client outcome, w')"
  shows "\<exists>c. out = Ret c \<and> clientErr c = None \<and> insecureCreds c = False \<and>
           (\<exists>opts w2. buildDialOpts c w' = (Ret opts, w2) \<and> TransportInsecure \<in> set opts \<and>
              (\<forall>tls. TransportTLS tls \<notin> set opts))"
proof -
  define c :: "('a, 'b) client" where "c = (new_client t (default_handler w))\<lparr>dialOpts := [DefaultServiceConfig
      (''{\"loadBalancingConfig\": [{\"'' @ policy @ ''\":{}}]}'')]\<rparr>"
  have "client_New t [client_WithTLS H ca, WithLoadBalancing H policy] w = (Ret c, w)"
    using assms(1-3) by (simp add: client_New_def Default_def client_opt_defs client_tls_failed_def new_client_def
        comp_simps c_def)
  then have c: "out = Ret c" "w' = w" using assms(4) by simp_all
  have fields: "clientErr c = None" "clientTLS c = None" "insecureCreds c = False" "unaryChain c = []"
    "streamChain c = []" "\<exists>json. dialOpts c = [DefaultServiceConfig json]"
    by (simp_all add: c_def new_client_def)
  obtain opts w2 where "buildDialOpts c w' = (Ret opts, w2)" "opts = TransportInsecure # dialOpts c"
    using buildDialOpts_run [of c w'] fields by auto
  then show ?thesis using c fields by (intro exI [of _ c]) auto
qed

definition sample_client_host :: client_host where
  "sample_client_host = \<lparr>ch_key_pair = (\<lambda>c k. Inr 1), ch_file = (\<lambda>f. Inl (ForeignError 1 ''no such file'')),
     ch_pem_ok = (\<lambda>t. True), balancer_known = (\<lambda>p. p = ''round_robin''), go_quote = (\<lambda>s. s)\<rparr>"

theorem load_balancing_clears_tls_error_witness:
  "\<exists>c w'. client_New ''localhost:50051'' [client_WithTLS sample_client_host ''ca.pem'', WithLoadBalancing sample_client_host ''round_robin'']
      sample_client = (Ret (c :: (unit, unit) client), w') \<and> clientErr c = None \<and> clientTLS c = None"
proof -
  let ?opts = "[client_WithTLS sample_client_host ''ca.pem'', WithLoadBalancing sample_client_host ''round_robin'']"
  obtain out :: "(unit, unit) client outcome" and w'
    where run: "client_New ''localhost:50051'' ?opts sample_client = (out, w')" by fastforce
  have "load_pool sample_client_host ''ca.pem'' = Inl (WrapError ''failed to read CA certificate: '' (ForeignError 1 ''no such file''))"
    "''round_robin'' \<noteq> []" "balancer_known sample_client_host ''round_robin''"
    by (simp_all add: load_pool_def sample_client_host_def)
  from load_balancing_clears_tls_error [OF this run] show ?thesis
    using run by (auto simp: buildDialOpts_def comp_simps split: option.splits)
qed

section \<open>Waiting for the connection\<close>

lemma wait_loop_unfold:
  "fst (obs i) = Ready \<Longrightarrow> wait_loop obs e i = Some None"
  "fst (obs i) \<noteq> Ready \<Longrightarrow> snd (obs i) \<Longrightarrow> wait_loop obs e i = wait_loop obs e (Suc i)"
  "fst (obs i) \<noteq> Ready \<Longrightarrow> \<not> snd (obs i) \<Longrightarrow> wait_loop obs e i
     = Some (Some (WrapError ''client: context expired waiting for ready state: '' (ContextError e)))"
  by (subst wait_loop.simps; simp)+

lemma wait_loop_skip:
  "\<forall>j. i \<le> j \<and> j < k \<longrightarrow> fst (obs j) \<noteq> Ready \<and> snd (obs j) \<Longrightarrow> i \<le> k \<Longrightarrow> wait_loop obs e i = wait_loop obs e k"
proof (induction "k - i" arbitrary: i)
  case (Suc n)
  then have "i < k" by simp
  then have "wait_loop obs e i = wait_loop obs e (Suc i)" using Suc.prems by (intro wait_loop_unfold) auto
  also have "\<dots> = wait_loop obs e k" using Suc.prems \<open>i < k\<close> Suc.hyps(2) by (intro Suc.hyps(1)) auto
  finally show ?case .
qed simp

text \<open>On a connected client \<^verbatim>\<open>WaitReady\<close> returns as soon as there is a round in which the
  connection is ready or the context expires, with nil exactly if it was ready in the first
  such round; without a connection it panics instead of waiting.\<close>

theorem wait_ready_decides:
  assumes "fst (obs k) = Ready \<or> \<not> snd (obs k)"
    and "\<forall>j < k. fst (obs j) \<noteq> Ready \<and> snd (obs j)"
  shows "WaitReady obs e s w =
           Some (case conn s of
                   None \<Rightarrow> (Panic (PanicString ''client: Conn called before Connect''), w)
                 | Some p \<Rightarrow> (Ret (if fst (obs k) = Ready then None
                     else Some (WrapError ''client: context expired waiting for ready state: '' (ContextError e))), w))"
proof -
  have "wait_loop obs e 0 = wait_loop obs e k" using assms(2) by (intro wait_loop_skip) auto
  then show ?thesis using assms(1)
    by (cases "fst (obs k) = Ready") (auto simp: WaitReady_def Conn_def wait_loop_unfold comp_simps split: option.splits)
qed

theorem wait_ready_decides_witness:
  "WaitReady (\<lambda>i. (if i = 2 then Ready else Connecting, True)) CtxCanceled (fresh_life\<lparr>conn := Some 0\<rparr>) sample_client
     = Some (Ret None, sample_client)"
  by (subst wait_ready_decides [where k = 2]) auto

end
