(* ===== verification/Client_Lifecycle.thy ===== *)
theory Client_Lifecycle
  imports Client
begin

text \<open>
  \<^verbatim>\<open>Connect\<close> and \<^verbatim>\<open>Close\<close> of \<^verbatim>\<open>internal/client/client.go\<close> called by any number of goroutines at once.
  A call of \<^verbatim>\<open>Connect\<close> on a client with \<^verbatim>\<open>WithHealthWatch\<close> takes the mutex twice, once to dial and
  once in \<^verbatim>\<open>startHealthWatch\<close>; between the two any other call may run. A state is the guarded half
  of the struct with the number of \<^verbatim>\<open>Connect\<close> calls that are between their critical sections.
\<close>

record life_sys =
  life_of :: life
  pending :: nat      \<comment> \<open>calls of \<^verbatim>\<open>Connect\<close> that have dialled and not yet started their watcher\<close>

definition life_init :: life_sys where
  "life_init = \<lparr>life_of = fresh_life, pending = 0\<rparr>"

text \<open>The critical sections, each one step. \<open>hw\<close> says whether the client has \<^verbatim>\<open>WithHealthWatch\<close>.\<close>

inductive life_step :: "bool \<Rightarrow> life_sys \<Rightarrow> life_sys \<Rightarrow> bool" for hw where
  dial_section: "connect_locked t dialled (life_of s) = (err, l) \<Longrightarrow>
    life_step hw s (s\<lparr>life_of := l, pending := pending s + (if err = None \<and> hw then 1 else 0)\<rparr>)"
| watch_section: "0 < pending s \<Longrightarrow>
    life_step hw s (s\<lparr>life_of := startHealthWatch (life_of s), pending := pending s - 1\<rparr>)"
| close_section: "life_step hw s (s\<lparr>life_of := close_conn (cancel_watch (life_of s))\<rparr>)"

inductive life_reachable :: "bool \<Rightarrow> life_sys \<Rightarrow> bool" for hw where
  life_begin: "life_reachable hw life_init"
| life_go: "life_reachable hw s \<Longrightarrow> life_step hw s t \<Longrightarrow> life_reachable hw t"

text \<open>Runs in which no call starts while a \<^verbatim>\<open>Connect\<close> is between its critical sections.\<close>

inductive calm_reachable :: "bool \<Rightarrow> life_sys \<Rightarrow> bool" for hw where
  calm_begin: "calm_reachable hw life_init"
| calm_watch: "calm_reachable hw s \<Longrightarrow> 0 < pending s \<Longrightarrow> life_step hw s t \<Longrightarrow> pending t < pending s \<Longrightarrow> calm_reachable hw t"
| calm_call: "calm_reachable hw s \<Longrightarrow> pending s = 0 \<Longrightarrow> life_step hw s t \<Longrightarrow> calm_reachable hw t"

inductive_cases life_stepE: "life_step hw s t"

section \<open>Connections never leak\<close>

definition open_conns :: "life \<Rightarrow> nat set" where
  "open_conns l = {p. p < length (conn_open l) \<and> conn_open l ! p}"

definition conns_ok :: "life \<Rightarrow> bool" where
  \<comment> \<open>the open connections are the current one, if there is one\<close>
  "conns_ok l \<longleftrightarrow> open_conns l = set_option (conn l)"

lemma open_conns_cong: "conn_open l' = conn_open l \<Longrightarrow> open_conns l' = open_conns l"
  by (simp add: open_conns_def)

lemma open_conns_append:
  "conn_open l' = conn_open l @ [True] \<Longrightarrow> open_conns l' = insert (length (conn_open l)) (open_conns l)"
  by (auto simp: open_conns_def nth_append less_Suc_eq)

lemma open_conns_update: "conn_open l' = (conn_open l)[p := False] \<Longrightarrow> open_conns l' = open_conns l - {p}"
  by (cases "p < length (conn_open l)") (auto simp: open_conns_def nth_list_update list_update_beyond split: if_splits)

lemma conns_ok_connect: "conns_ok l \<Longrightarrow> connect_locked t d l = (err, l') \<Longrightarrow> conns_ok l'"
  by (auto simp: connect_locked_def conns_ok_def open_conns_append split: if_splits option.splits)

lemma conns_ok_watch: "conns_ok l \<Longrightarrow> conns_ok (startHealthWatch l)" "conns_ok l \<Longrightarrow> conns_ok (cancel_watch l)"
  by (auto simp: startHealthWatch_def cancel_watch_def conns_ok_def open_conns_def split: option.splits)

lemma conns_ok_close: "conns_ok l \<Longrightarrow> conns_ok (close_conn l)"
proof (cases "conn l")
  case (Some p)
  moreover assume "conns_ok l"
  ultimately show ?thesis
    using open_conns_update [of "close_conn l" l p] by (simp add: close_conn_def conns_ok_def)
qed (simp add: close_conn_def)

lemma life_step_conns: "life_step hw s t \<Longrightarrow> conns_ok (life_of s) \<Longrightarrow> conns_ok (life_of t)"
  by (induction rule: life_step.induct) (auto intro: conns_ok_connect conns_ok_watch conns_ok_close)

lemma life_reachable_conns: "life_reachable hw s \<Longrightarrow> conns_ok (life_of s)"
proof (induction rule: life_reachable.induct)
  case life_begin
  show ?case by (simp add: life_init_def fresh_life_def conns_ok_def open_conns_def)
next
  case (life_go s t)
  then show ?case using life_step_conns by blast
qed

text \<open>C20. However calls of \<^verbatim>\<open>Connect\<close> and \<^verbatim>\<open>Close\<close> from any goroutines interleave, at every moment the
  only connection that is open is the client's current one: no connection is overwritten
  without being closed, and none is used after it was closed.\<close>

theorem connections_never_leak:
  assumes "life_reachable hw s"
  shows "p < length (conn_open (life_of s)) \<and> conn_open (life_of s) ! p \<longleftrightarrow> conn (life_of s) = Some p"
proof -
  have "p \<in> open_conns (life_of s) \<longleftrightarrow> p \<in> set_option (conn (life_of s))"
    using life_reachable_conns [OF assms] by (simp add: conns_ok_def)
  then show ?thesis by (simp add: open_conns_def)
qed

lemma sample_connected: "life_reachable hw (life_init\<lparr>life_of := fresh_life\<lparr>conn := Some 0, conn_open := [True]\<rparr>,
    pending := if hw then 1 else 0\<rparr>)"
proof -
  have "connect_locked [] None (life_of life_init) = (None, fresh_life\<lparr>conn := Some 0, conn_open := [True]\<rparr>)"
    by (simp add: connect_locked_def life_init_def fresh_life_def)
  from dial_section [OF this, of hw]
  have "life_step hw life_init (life_init\<lparr>life_of := fresh_life\<lparr>conn := Some 0, conn_open := [True]\<rparr>,
      pending := if hw then 1 else 0\<rparr>)"
    by (simp add: life_init_def)
  then show ?thesis by (rule life_go [OF life_begin])
qed

theorem connections_never_leak_witness:
  "conn_open (life_of (life_init\<lparr>life_of := close_conn (cancel_watch (fresh_life\<lparr>conn := Some 0, conn_open := [True]\<rparr>))\<rparr>)) ! 0 = False"
proof -
  let ?s = "(life_init\<lparr>life_of := fresh_life\<lparr>conn := Some 0, conn_open := [True]\<rparr>, pending := if False then 1 else 0\<rparr>)"
  have "life_reachable False (?s\<lparr>life_of := close_conn (cancel_watch (life_of ?s))\<rparr>)"
    by (rule life_go [OF sample_connected close_section])
  from connections_never_leak [OF this, of 0] show ?thesis
    by (simp add: close_conn_def cancel_watch_def fresh_life_def)
qed

section \<open>Watchers\<close>

definition watchers_ok :: "life \<Rightarrow> bool" where
  \<comment> \<open>a running watcher is the one \<^verbatim>\<open>Close\<close> is going to cancel, and watches the current connection\<close>
  "watchers_ok l \<longleftrightarrow>
     (\<forall>k < length (watchers l). watch_cancelled (watchers l ! k) \<or>
        healthCancel l = Some k \<and> conn l \<noteq> None \<and> watched (watchers l ! k) = conn l) \<and>
     (\<forall>k. healthCancel l = Some k \<longrightarrow> k < length (watchers l) \<and> conn l \<noteq> None)"

definition calm_inv :: "life_sys \<Rightarrow> bool" where
  "calm_inv s \<longleftrightarrow> watchers_ok (life_of s) \<and>
     (pending s = 0 \<or> pending s = 1 \<and> conn (life_of s) \<noteq> None \<and> healthCancel (life_of s) = None)"

lemma watchers_ok_close: "watchers_ok l \<Longrightarrow> watchers_ok (close_conn (cancel_watch l))"
  by (auto simp: watchers_ok_def close_conn_def cancel_watch_def nth_list_update split: option.splits if_splits)

lemma watchers_ok_start:
  "watchers_ok l \<Longrightarrow> healthCancel l = None \<Longrightarrow> conn l \<noteq> None \<Longrightarrow> watchers_ok (startHealthWatch l)"
  by (auto simp: watchers_ok_def startHealthWatch_def nth_append less_Suc_eq)

lemma watchers_ok_connect:
  "watchers_ok l \<Longrightarrow> connect_locked t d l = (err, l') \<Longrightarrow> watchers_ok l' \<and> healthCancel l' = healthCancel l \<and>
     (err = None \<longrightarrow> conn l' \<noteq> None \<and> healthCancel l' = None)"
  by (auto simp: watchers_ok_def connect_locked_def split: if_splits option.splits)

lemma calm_step_inv:
  assumes "life_step hw s u" "calm_inv s" "pending s = 0 \<or> pending u < pending s"
  shows "calm_inv u"
  using assms
proof (induction rule: life_step.induct)
  case (dial_section tgt d s err l)
  then show ?case using watchers_ok_connect by (fastforce simp: calm_inv_def)
next
  case (watch_section s)
  then show ?case using watchers_ok_start by (auto simp: calm_inv_def)
next
  case (close_section s)
  then show ?case using watchers_ok_close by (auto simp: calm_inv_def)
qed

lemma calm_inv_reachable: "calm_reachable hw s \<Longrightarrow> calm_inv s"
proof (induction rule: calm_reachable.induct)
  case calm_begin
  show ?case by (simp add: calm_inv_def life_init_def fresh_life_def watchers_ok_def)
qed (use calm_step_inv in blast)+

text \<open>C21. When calls do not overlap, health watchers do not leak: at every moment at most one watcher
  is running, it watches the current connection, and after \<^verbatim>\<open>Close\<close> none is.\<close>

theorem calm_watchers_never_leak:
  assumes "calm_reachable hw s" "k < length (watchers (life_of s))" "\<not> watch_cancelled (watchers (life_of s) ! k)"
  shows "conn (life_of s) \<noteq> None \<and> watched (watchers (life_of s) ! k) = conn (life_of s) \<and>
         (\<forall>j < length (watchers (life_of s)). j \<noteq> k \<longrightarrow> watch_cancelled (watchers (life_of s) ! j))"
proof -
  have ok: "watchers_ok (life_of s)" using calm_inv_reachable [OF assms(1)] by (simp add: calm_inv_def)
  then have "healthCancel (life_of s) = Some k" "conn (life_of s) \<noteq> None"
    "watched (watchers (life_of s) ! k) = conn (life_of s)"
    using assms(2,3) unfolding watchers_ok_def by blast+
  moreover have "watch_cancelled (watchers (life_of s) ! j) \<or> healthCancel (life_of s) = Some j"
    if "j < length (watchers (life_of s))" for j
    using ok that unfolding watchers_ok_def by blast
  ultimately show ?thesis by auto
qed

theorem calm_watchers_never_leak_witness:
  "\<exists>s. calm_reachable True s \<and> conn (life_of s) = Some 0 \<and> watched (watchers (life_of s) ! 0) = Some 0"
proof -
  let ?c = "life_init\<lparr>life_of := fresh_life\<lparr>conn := Some 0, conn_open := [True]\<rparr>, pending := 1\<rparr>"
  let ?s = "?c\<lparr>life_of := startHealthWatch (life_of ?c), pending := pending ?c - 1\<rparr>"
  have dial: "connect_locked [] None (life_of life_init) = (None, fresh_life\<lparr>conn := Some 0, conn_open := [True]\<rparr>)"
    by (simp add: connect_locked_def life_init_def fresh_life_def)
  have "life_step True life_init ?c"
    using dial_section [OF dial, of True] by (simp add: life_init_def)
  then have "calm_reachable True ?c" by (intro calm_call [OF calm_begin]) (simp_all add: life_init_def)
  then have "calm_reachable True ?s" by (rule calm_watch [OF _ _ watch_section]) simp_all
  from calm_watchers_never_leak [OF this, of 0] this show ?thesis
    by (intro exI [of _ ?s]) (simp add: startHealthWatch_def fresh_life_def)
qed

text \<open>A \<^verbatim>\<open>Close\<close> that runs while a \<^verbatim>\<open>Connect\<close> is between its critical sections leaks a watcher: all
  calls have returned, the client is closed, and a watcher is running that was handed a nil
  connection.\<close>

theorem racing_close_leaks_watcher:
  "\<exists>s. life_reachable True s \<and> pending s = 0 \<and> conn (life_of s) = None \<and>
     (\<exists>k < length (watchers (life_of s)). watched (watchers (life_of s) ! k) = None \<and>
        \<not> watch_cancelled (watchers (life_of s) ! k))"
proof -
  let ?c = "life_init\<lparr>life_of := fresh_life\<lparr>conn := Some 0, conn_open := [True]\<rparr>, pending := if True then 1 else 0\<rparr>"
  let ?d = "?c\<lparr>life_of := close_conn (cancel_watch (life_of ?c))\<rparr>"
  let ?s = "?d\<lparr>life_of := startHealthWatch (life_of ?d), pending := pending ?d - 1\<rparr>"
  have "life_reachable True ?d" by (rule life_go [OF sample_connected close_section])
  then have "life_reachable True ?s" by (rule life_go) (rule watch_section, simp)
  then show ?thesis
    by (rule exI [of _ ?s, OF conjI]) (simp add: startHealthWatch_def close_conn_def cancel_watch_def fresh_life_def)
qed

end
