(* ===== verification/Health_Watch.thy ===== *)
theory Health_Watch
  imports Client
begin

text \<open>
  The goroutine of \<^verbatim>\<open>startHealthWatch\<close> in \<^verbatim>\<open>internal/client/client.go\<close> with \<^verbatim>\<open>sleepOrDone\<close>: a state
  machine that opens a health stream, receives from it and sleeps before it tries again. Its
  inputs are what the library calls return and how the sleep ends; each comes with whether the
  watcher's context is cancelled at that moment.
\<close>

section \<open>The machine\<close>

datatype watch_phase = Dialing | Receiving | Sleeping | Exited

datatype watch_input =
    StartFailed goerror | StreamOpened          \<comment> \<open>\<^verbatim>\<open>watchFn\<close>\<close>
  | StreamEnded goerror | StatusReceived string \<comment> \<open>\<^verbatim>\<open>stream.Recv\<close>\<close>
  | TimerFired | ContextDone                    \<comment> \<open>\<^verbatim>\<open>sleepOrDone\<close>\<close>

record watch_state =
  phase :: watch_phase
  backoff :: int
  watch_log :: "(level \<times> string \<times> log_arg list) list"

definition initialBackoff :: int where
  "initialBackoff = 500 * millisecond"

definition maxBackoff :: int where
  "maxBackoff = 30 * second"

definition watch_init :: watch_state where
  "watch_init = \<lparr>phase = Dialing, backoff = initialBackoff, watch_log = []\<rparr>"

definition next_backoff :: "int \<Rightarrow> int" where
  "next_backoff b = min (i64 (b * 2)) maxBackoff"

definition watch_record :: "level \<Rightarrow> string \<Rightarrow> log_arg list \<Rightarrow> watch_state \<Rightarrow> watch_state" where
  "watch_record lv msg args s = s\<lparr>watch_log := watch_log s @ [(lv, msg, args)]\<rparr>"

definition sleepOrDone :: "bool \<Rightarrow> watch_state \<Rightarrow> watch_state" where
  \<comment> \<open>the end of a sleep: the timer (\<^const>\<open>True\<close>) or the context\<close>
  "sleepOrDone fired s = (if fired then s\<lparr>phase := Dialing, backoff := next_backoff (backoff s)\<rparr> else s\<lparr>phase := Exited\<rparr>)"

definition retry_args :: "string \<Rightarrow> int \<Rightarrow> goerror \<Rightarrow> log_arg list" where
  "retry_args t b e = [ArgString ''target'', ArgString t, ArgString ''backoff'', ArgDuration b, ArgString ''error'', ArgError e]"

text \<open>One step; \<^const>\<open>None\<close> for an input the phase does not wait for.\<close>

definition watch_step :: "string \<Rightarrow> bool \<Rightarrow> watch_input \<Rightarrow> watch_state \<Rightarrow> watch_state option" where
  "watch_step t cancelled i s =
     (case (phase s, i) of
        (Dialing, StartFailed e) \<Rightarrow>
          Some (if cancelled then s\<lparr>phase := Exited\<rparr>
                else watch_record LevelWarn ''health watch failed to start, retrying'' (retry_args t (backoff s) e) s\<lparr>phase := Sleeping\<rparr>)
      | (Dialing, StreamOpened) \<Rightarrow> Some (s\<lparr>phase := Receiving, backoff := initialBackoff\<rparr>)
      | (Receiving, StatusReceived st) \<Rightarrow>
          Some (watch_record LevelInfo ''health status changed''
            [ArgString ''target'', ArgString t, ArgString ''status'', ArgString st] s)
      | (Receiving, StreamEnded e) \<Rightarrow>
          Some (if cancelled then s\<lparr>phase := Exited\<rparr>
                else watch_record LevelWarn ''health watch stream ended, reconnecting'' (retry_args t (backoff s) e) s\<lparr>phase := Sleeping\<rparr>)
      | (Sleeping, TimerFired) \<Rightarrow> Some (sleepOrDone True s)
      | (Sleeping, ContextDone) \<Rightarrow> if cancelled then Some (sleepOrDone False s) else None
      | _ \<Rightarrow> None)"

inductive watch_run :: "string \<Rightarrow> watch_state \<Rightarrow> (bool \<times> watch_input) list \<Rightarrow> watch_state \<Rightarrow> bool" for t where
  run_nil: "watch_run t s [] s"
| run_cons: "watch_step t c i s = Some s' \<Longrightarrow> watch_run t s' is s'' \<Longrightarrow> watch_run t s ((c, i) # is) s''"

inductive_simps watch_run_simps: "watch_run t s [] s'" "watch_run t s ((c, i) # is) s'"

lemma watch_run_append:
  "watch_run t s (is @ js) s' \<longleftrightarrow> (\<exists>u. watch_run t s is u \<and> watch_run t u js s')"
proof (induction "is" arbitrary: s)
  case (Cons ci "is")
  then show ?case by (cases ci) (auto simp: watch_run_simps)
qed (simp add: watch_run_simps)

section \<open>Backoff\<close>

lemma next_backoff_exact: "initialBackoff \<le> b \<Longrightarrow> b \<le> maxBackoff \<Longrightarrow> next_backoff b = min (b * 2) maxBackoff"
  by (simp add: next_backoff_def initialBackoff_def maxBackoff_def i64_nonneg max_int64_def)

definition watch_inv :: "watch_state \<Rightarrow> bool" where
  "watch_inv s \<longleftrightarrow> initialBackoff \<le> backoff s \<and> backoff s \<le> maxBackoff \<and>
     (phase s = Receiving \<longrightarrow> backoff s = initialBackoff)"

lemma watch_step_inv: "watch_step t c i s = Some s' \<Longrightarrow> watch_inv s \<Longrightarrow> watch_inv s'"
  using next_backoff_exact [of "backoff s"]
  by (auto simp: watch_step_def watch_inv_def watch_record_def sleepOrDone_def initialBackoff_def maxBackoff_def
      split: watch_phase.splits watch_input.splits if_splits)

lemma watch_run_inv: "watch_run t s is s' \<Longrightarrow> watch_inv s \<Longrightarrow> watch_inv s'"
  by (induction rule: watch_run.induct) (auto intro: watch_step_inv)

lemma watch_init_inv: "watch_inv watch_init"
  by (simp add: watch_inv_def watch_init_def initialBackoff_def maxBackoff_def)

text \<open>The sequence of waits after \<open>n\<close> failed starts in a row.\<close>

fun failed_starts :: "goerror \<Rightarrow> nat \<Rightarrow> (bool \<times> watch_input) list" where
  "failed_starts e 0 = []"
| "failed_starts e (Suc n) = (False, StartFailed e) # (False, TimerFired) # failed_starts e n"

lemma failed_starts_backoff:
  "watch_run t s (failed_starts e n) s' \<Longrightarrow> watch_inv s \<Longrightarrow> phase s = Dialing \<Longrightarrow>
     phase s' = Dialing \<and> backoff s' = min (backoff s * 2 ^ n) maxBackoff"
proof (induction n arbitrary: s)
  case 0
  then show ?case by (simp add: watch_run_simps watch_inv_def)
next
  case (Suc n)
  let ?u = "(watch_record LevelWarn ''health watch failed to start, retrying'' (retry_args t (backoff s) e) s)\<lparr>phase := Dialing,
      backoff := next_backoff (backoff s)\<rparr>"
  have run: "watch_run t ?u (failed_starts e n) s'"
    using Suc.prems by (auto simp: watch_run_simps watch_step_def sleepOrDone_def watch_record_def)
  have b: "backoff ?u = min (backoff s * 2) maxBackoff"
    using Suc.prems(2) by (simp add: watch_inv_def next_backoff_exact)
  then have "watch_inv ?u" using Suc.prems(2)
    by (auto simp: watch_inv_def initialBackoff_def maxBackoff_def)
  from Suc.IH [OF run this] b have "phase s' = Dialing"
    "backoff s' = min (min (backoff s * 2) maxBackoff * 2 ^ n) maxBackoff" by auto
  moreover have "x \<le> x * 2 ^ n" if "0 \<le> x" for x :: int
    using mult_left_mono [of 1 "2 ^ n" x] that by simp
  then have "maxBackoff \<le> maxBackoff * 2 ^ n" "0 \<le> backoff s * 2 \<Longrightarrow> backoff s * 2 \<le> backoff s * 2 * 2 ^ n"
    by (simp_all add: maxBackoff_def)
  moreover have "0 \<le> backoff s * 2" using Suc.prems(2) by (simp add: watch_inv_def initialBackoff_def)
  ultimately show ?case by (cases "backoff s * 2 \<le> maxBackoff") (simp_all add: min_def mult.assoc)
qed

text \<open>While the watch cannot be started, the waits double from half a second to thirty seconds:
  after \<open>n\<close> failed starts in a row since the machine began the next wait is half a second times
  two to the \<open>n\<close>, capped; and in every reachable state the wait is between the two bounds.\<close>

theorem watch_backoff_doubles:
  assumes "watch_run t watch_init (failed_starts e n) s" "watch_run t s is s'"
  shows "backoff s = min (500 * millisecond * 2 ^ n) (30 * second) \<and>
         500 * millisecond \<le> backoff s' \<and> backoff s' \<le> 30 * second"
  using failed_starts_backoff [OF assms(1) watch_init_inv] watch_run_inv [OF assms(2) watch_run_inv [OF assms(1) watch_init_inv]]
  by (simp add: watch_init_def watch_inv_def initialBackoff_def maxBackoff_def)

theorem watch_backoff_doubles_witness:
  "\<exists>s. watch_run [] watch_init (failed_starts (ErrorText ''refused'') 2) s \<and> backoff s = 2 * second"
proof -
  obtain s where run: "watch_run [] watch_init (failed_starts (ErrorText ''refused'') 2) s"
    by (simp add: numeral_2_eq_2 watch_run_simps watch_step_def watch_record_def sleepOrDone_def watch_init_def)
  from watch_backoff_doubles [OF run run_nil] run show ?thesis by auto
qed

text \<open>The wait does not grow while streams break: whatever happened before, whenever a stream was
  opened and has ended, the wait that follows is exactly half a second, and it is half a second
  again after the next stream breaks, however often that repeats.\<close>

theorem broken_streams_never_back_off:
  assumes "watch_run t watch_init is s" "phase s = Receiving" "watch_step t c (StreamEnded e) s = Some s'"
    and "phase s' = Sleeping"
  shows "backoff s' = 500 * millisecond \<and>
         (\<exists>u v. watch_run t s' [(False, TimerFired), (False, StreamOpened)] u \<and> phase u = Receiving \<and>
            watch_step t False (StreamEnded e) u = Some v \<and> backoff v = 500 * millisecond)"
proof -
  have "backoff s = initialBackoff"
    using watch_run_inv [OF assms(1) watch_init_inv] assms(2) by (simp add: watch_inv_def)
  then have "backoff s' = initialBackoff"
    using assms(2-4) by (auto simp: watch_step_def watch_record_def split: if_splits)
  then show ?thesis using assms(4)
    by (simp add: watch_run_simps watch_step_def sleepOrDone_def watch_record_def initialBackoff_def)
qed

theorem broken_streams_never_back_off_witness:
  "\<exists>s. watch_run [] watch_init [(False, StreamOpened), (False, StreamEnded (ErrorText ''EOF''))] s \<and> backoff s = 500 * millisecond"
proof -
  let ?s = "watch_init\<lparr>phase := Receiving\<rparr>"
  let ?s' = "watch_record LevelWarn ''health watch stream ended, reconnecting''
      (retry_args [] (backoff ?s) (ErrorText ''EOF'')) ?s\<lparr>phase := Sleeping\<rparr>"
  have run: "watch_run [] watch_init [(False, StreamOpened)] ?s"
    by (simp add: watch_run_simps watch_step_def watch_init_def)
  have step: "watch_step [] False (StreamEnded (ErrorText ''EOF'')) ?s = Some ?s'"
    by (simp add: watch_step_def)
  have "backoff ?s' = 500 * millisecond"
    using broken_streams_never_back_off [OF run _ step] by (simp add: watch_record_def)
  moreover have "watch_run [] watch_init ([(False, StreamOpened)] @ [(False, StreamEnded (ErrorText ''EOF''))]) ?s'"
    using run step by (simp only: watch_run_append) (auto simp: watch_run_simps)
  ultimately show ?thesis by (intro exI [of _ ?s']) simp
qed

text \<open>A cancelled watcher stops: once its context is cancelled, and the library calls return errors
  as they do on a cancelled context, the watcher makes at most one more step in any phase, and
  writes no record in it.\<close>

lemma cancelled_watcher_exits:
  assumes "phase s \<noteq> Exited"
    and "i \<in> (case phase s of Dialing \<Rightarrow> {StartFailed e} | Receiving \<Rightarrow> {StreamEnded e} | _ \<Rightarrow> {ContextDone})"
  shows "\<exists>s'. watch_step t True i s = Some s' \<and> phase s' = Exited \<and> watch_log s' = watch_log s \<and>
           (\<forall>c j. watch_step t c j s' = None)"
  using assms by (cases "phase s") (auto simp: watch_step_def sleepOrDone_def)

end
