(* ===== verification/Client_Watchers.thy ===== *)
theory Client_Watchers
  imports Client_Lifecycle Health_Watch Fair_Runs
begin

text \<open>
  The client's calls together with the watcher goroutines they start: a state is the guarded half of
  the struct with a machine of \<open>Health_Watch\<close> for every watcher. \<^verbatim>\<open>Connect\<close> spawns a machine, \<^verbatim>\<open>Close\<close>
  cancels its context, and each machine goes on at its own pace. A closed client comes to rest:
  its watcher goroutines end.
\<close>

section \<open>The system\<close>

record watch_sys =
  client_part :: life_sys
  machines :: "watch_state list"

definition watch_sys_init :: watch_sys where
  "watch_sys_init = \<lparr>client_part = life_init, machines = []\<rparr>"

abbreviation watchers_of :: "watch_sys \<Rightarrow> watcher list" where
  "watchers_of s \<equiv> watchers (life_of (client_part s))"

definition spawned :: "life_sys \<Rightarrow> watch_state list \<Rightarrow> watch_state list" where
  \<comment> \<open>the \<^verbatim>\<open>go\<close> statement of \<^verbatim>\<open>startHealthWatch\<close>, for a watcher that has no machine yet\<close>
  "spawned l ms = ms @ replicate (length (watchers (life_of l)) - length ms) watch_init"

text \<open>What the library documents of its calls on a cancelled context: they do not succeed.\<close>

fun cancelled_calls_fail :: "bool \<Rightarrow> watch_input \<Rightarrow> bool" where
  "cancelled_calls_fail c StreamOpened = (\<not> c)"
| "cancelled_calls_fail c (StatusReceived st) = (\<not> c)"
| "cancelled_calls_fail c i = True"

inductive watch_sys_step :: "bool \<Rightarrow> string \<Rightarrow> watch_sys \<Rightarrow> watch_sys \<Rightarrow> bool" for hw t where
  client_call: "life_step hw (client_part s) l \<Longrightarrow>
    watch_sys_step hw t s (s\<lparr>client_part := l, machines := spawned l (machines s)\<rparr>)"
| watcher_move: "k < length (machines s) \<Longrightarrow> c = watch_cancelled (watchers_of s ! k) \<Longrightarrow> cancelled_calls_fail c i \<Longrightarrow>
    watch_step t c i (machines s ! k) = Some m \<Longrightarrow>
    watch_sys_step hw t s (s\<lparr>machines := (machines s)[k := m]\<rparr>)"

text \<open>Steps in which no call starts while a \<^verbatim>\<open>Connect\<close> is between its critical sections.\<close>

definition calm_sys_step :: "bool \<Rightarrow> string \<Rightarrow> watch_sys \<Rightarrow> watch_sys \<Rightarrow> bool" where
  "calm_sys_step hw t s u \<longleftrightarrow> watch_sys_step hw t s u \<and>
     (client_part u = client_part s \<or> pending (client_part s) = 0 \<or> pending (client_part u) < pending (client_part s))"

text \<open>A move of the watcher with a number after its context was cancelled. Fairness for it says that
  calls on a cancelled context return; it asks nothing of the calls before.\<close>

definition cancelled_move :: "nat \<Rightarrow> watch_sys \<Rightarrow> watch_sys \<Rightarrow> bool" where
  "cancelled_move k s u \<longleftrightarrow> k < length (machines s) \<and> watch_cancelled (watchers_of s ! k) \<and> machines u ! k \<noteq> machines s ! k"

inductive_cases watch_sys_stepE: "watch_sys_step hw t s u"

section \<open>A cancelled watcher comes to rest\<close>

fun exit_rank :: "watch_phase \<Rightarrow> nat" where
  "exit_rank Exited = 0"
| "exit_rank Dialing = 1"
| "exit_rank Receiving = 1"
| "exit_rank Sleeping = 2"

definition watcher_cancelled :: "nat \<Rightarrow> watch_sys \<Rightarrow> bool" where
  "watcher_cancelled k s \<longleftrightarrow> k < length (machines s) \<and> k < length (watchers_of s) \<and> watch_cancelled (watchers_of s ! k)"

lemma exit_rank_zero: "exit_rank p = 0 \<longleftrightarrow> p = Exited"
  by (cases p) auto

lemma nth_update_at: "k < length xs \<Longrightarrow> xs[i := x] ! k = (if i = k then x else xs ! k)"
  by simp

lemma life_step_watchers:
  "life_step hw s u \<Longrightarrow> length (watchers (life_of s)) \<le> length (watchers (life_of u)) \<and>
     (\<forall>k < length (watchers (life_of s)). watch_cancelled (watchers (life_of s) ! k) \<longrightarrow> watch_cancelled (watchers (life_of u) ! k))"
  by (induction rule: life_step.induct)
    (auto simp: connect_locked_def startHealthWatch_def close_conn_def cancel_watch_def nth_append nth_update_at
      split: if_splits option.splits)

lemma cancelled_step_falls:
  "watch_step t True i m = Some m' \<Longrightarrow> cancelled_calls_fail True i \<Longrightarrow> exit_rank (phase m') < exit_rank (phase m)"
  by (auto simp: watch_step_def sleepOrDone_def split: watch_phase.splits watch_input.splits if_splits)

lemma cancelled_step_enabled:
  "phase m \<noteq> Exited \<Longrightarrow> \<exists>i m'. watch_step t True i m = Some m' \<and> cancelled_calls_fail True i"
proof (cases "phase m")
  case Dialing
  then show ?thesis by (intro exI [of _ "StartFailed (ErrorText [])"]) (simp add: watch_step_def)
next
  case Receiving
  then show ?thesis by (intro exI [of _ "StreamEnded (ErrorText [])"]) (simp add: watch_step_def)
next
  case Sleeping
  then show ?thesis by (intro exI [of _ ContextDone]) (simp add: watch_step_def)
qed simp

lemma watcher_stays_cancelled:
  assumes "watcher_cancelled k s" "watch_sys_step hw t s u"
  shows "watcher_cancelled k u"
  using assms(2,1)
proof (induction rule: watch_sys_step.induct)
  case (client_call s l)
  then show ?case using life_step_watchers [OF client_call(1)] by (auto simp: watcher_cancelled_def spawned_def)
qed (simp add: watcher_cancelled_def)

lemma cancelled_falls:
  assumes "watcher_cancelled k s" "watch_sys_step hw t s u"
  shows "machines u ! k = machines s ! k \<or> exit_rank (phase (machines u ! k)) < exit_rank (phase (machines s ! k))"
  using assms(2,1)
proof (induction rule: watch_sys_step.induct)
  case (client_call s l)
  then show ?case by (simp add: watcher_cancelled_def spawned_def nth_append)
next
  case (watcher_move j s c i m)
  then show ?case using cancelled_step_falls [of t i "machines s ! k" m]
    by (cases "j = k") (auto simp: watcher_cancelled_def)
qed

interpretation watcher: progress "watch_sys_step hw t" "watch_sys_step hw t" "cancelled_move k" "watcher_cancelled k"
    "\<lambda>s. exit_rank (phase (machines s ! k))" for hw t k
proof
  fix s u
  assume s: "watcher_cancelled k s" and su: "watch_sys_step hw t s u"
  show "watcher_cancelled k u" using s su by (rule watcher_stays_cancelled)
  show "exit_rank (phase (machines u ! k)) \<le> exit_rank (phase (machines s ! k)) \<and>
      (cancelled_move k s u \<and> 0 < exit_rank (phase (machines s ! k)) \<longrightarrow>
        exit_rank (phase (machines u ! k)) < exit_rank (phase (machines s ! k)))"
    using cancelled_falls [OF s su] by (auto simp: cancelled_move_def)
next
  fix s
  assume s: "watcher_cancelled k s" and "0 < exit_rank (phase (machines s ! k))"
  then have "phase (machines s ! k) \<noteq> Exited" by auto
  from cancelled_step_enabled [OF this] obtain i m where
    m: "watch_step t True i (machines s ! k) = Some m" "cancelled_calls_fail True i" by blast
  let ?u = "s\<lparr>machines := (machines s)[k := m]\<rparr>"
  have "watch_sys_step hw t s ?u"
    by (rule watcher_move [OF _ _ m(2,1)]) (use s in \<open>simp_all add: watcher_cancelled_def\<close>)
  moreover have "cancelled_move k s ?u"
    using s cancelled_step_falls [OF m] by (auto simp: cancelled_move_def watcher_cancelled_def)
  ultimately show "can (watch_sys_step hw t) (cancelled_move k) s" by (rule canI)
qed

section \<open>A closed client comes to rest\<close>

definition closed :: "watch_sys \<Rightarrow> bool" where
  "closed s \<longleftrightarrow> conn (life_of (client_part s)) = None"

definition calm_sys_inv :: "watch_sys \<Rightarrow> bool" where
  "calm_sys_inv s \<longleftrightarrow> calm_inv (client_part s) \<and> length (machines s) = length (watchers_of s)"

lemma calm_sys_step_inv:
  assumes "calm_sys_step hw t s u" "calm_sys_inv s"
  shows "calm_sys_inv u"
proof -
  have "watch_sys_step hw t s u" using assms(1) by (simp add: calm_sys_step_def)
  then show ?thesis
  proof (cases rule: watch_sys_step.cases)
    case (client_call l)
    have "calm_inv l"
    proof (cases "l = client_part s")
      case False
      then have "pending (client_part s) = 0 \<or> pending l < pending (client_part s)"
        using assms(1) client_call(1) by (simp add: calm_sys_step_def)
      then show ?thesis using calm_step_inv client_call(2) assms(2) by (auto simp: calm_sys_inv_def)
    qed (use assms(2) in \<open>simp add: calm_sys_inv_def\<close>)
    then show ?thesis
      using client_call life_step_watchers [OF client_call(2)] assms(2) by (simp add: calm_sys_inv_def spawned_def)
  next
    case (watcher_move k c i m)
    then show ?thesis using assms(2) by (simp add: calm_sys_inv_def)
  qed
qed

lemma calm_trace_inv: "run_of (calm_sys_step hw t) \<sigma> \<Longrightarrow> \<sigma> 0 = watch_sys_init \<Longrightarrow> calm_sys_inv (\<sigma> i)"
proof (induction i)
  case 0
  then show ?case
    by (simp add: calm_sys_inv_def calm_inv_def watch_sys_init_def life_init_def fresh_life_def watchers_ok_def)
next
  case (Suc i)
  then show ?case using calm_sys_step_inv [of hw t "\<sigma> i" "\<sigma> (Suc i)"] by (simp add: run_of_def)
qed

lemma closed_watchers: "calm_sys_inv s \<Longrightarrow> closed s \<Longrightarrow> k < length (machines s) \<Longrightarrow> watcher_cancelled k s"
  unfolding calm_sys_inv_def calm_inv_def watchers_ok_def closed_def watcher_cancelled_def by metis

text \<open>A client that stays closed starts no watcher.\<close>

lemma closed_step:
  assumes "calm_sys_step hw t s u" "calm_sys_inv s" "closed s" "closed u"
  shows "length (machines u) = length (machines s)"
proof -
  have "pending (client_part s) = 0" using assms(2,3) by (auto simp: calm_sys_inv_def calm_inv_def closed_def)
  moreover have "watch_sys_step hw t s u" using assms(1) by (simp add: calm_sys_step_def)
  ultimately show ?thesis using assms(2,4)
    by (auto simp: closed_def calm_sys_inv_def spawned_def connect_locked_def close_conn_def cancel_watch_def
        elim!: watch_sys_stepE life_stepE split: option.splits if_splits)
qed

lemma eventually_all:
  fixes L :: nat
  assumes "\<And>k. k < L \<Longrightarrow> \<exists>m :: nat. \<forall>i \<ge> m. P i k"
  shows "\<exists>m. \<forall>i \<ge> m. \<forall>k < L. P i k"
  using assms
proof (induction L)
  case (Suc L)
  then obtain m n where "\<forall>i \<ge> m. \<forall>k < L. P i k" "\<forall>i \<ge> n. P i L" by (metis less_Suc_eq)
  then show ?case by (intro exI [of _ "max m n"]) (auto simp: less_Suc_eq)
qed simp

text \<open>C22. A closed client goes quiet: in every run in which calls do not overlap and calls on a cancelled
  context return, a client that from some moment on stays closed has from some later moment on
  only watcher goroutines that have ended, however many it had started and whatever they were
  doing when it was closed.\<close>

theorem closed_client_goes_quiet:
  assumes "run_of (calm_sys_step hw t) \<sigma>" "\<sigma> 0 = watch_sys_init"
    and "\<And>k. fair (watch_sys_step hw t) (cancelled_move k) \<sigma>"
    and "\<And>i. n \<le> i \<Longrightarrow> conn (life_of (client_part (\<sigma> i))) = None"
  shows "\<exists>m. \<forall>i \<ge> m. \<forall>k < length (machines (\<sigma> i)). phase (machines (\<sigma> i) ! k) = Exited"
proof -
  note inv = calm_trace_inv [OF assms(1,2)]
  have run: "run_of (watch_sys_step hw t) \<sigma>" using assms(1) by (simp add: run_of_def calm_sys_step_def)
  have cl: "closed (\<sigma> i)" if "n \<le> i" for i using assms(4) that by (simp add: closed_def)
  have len: "length (machines (\<sigma> i)) = length (machines (\<sigma> n))" if "n \<le> i" for i
    using that
  proof (induction i rule: dec_induct)
    case (step i)
    then show ?case using closed_step [of hw t "\<sigma> i" "\<sigma> (Suc i)"] assms(1) inv cl by (simp add: run_of_def)
  qed simp
  have "\<exists>m. \<forall>i \<ge> m. exit_rank (phase (machines (\<sigma> i) ! k)) = 0" if "k < length (machines (\<sigma> n))" for k
    using watcher.comes_to_rest [OF run assms(3) closed_watchers [OF inv cl [OF order_refl] that]] by blast
  then obtain m where m: "\<forall>i \<ge> m. \<forall>k < length (machines (\<sigma> n)). exit_rank (phase (machines (\<sigma> i) ! k)) = 0"
    using eventually_all [of "length (machines (\<sigma> n))" "\<lambda>i k. exit_rank (phase (machines (\<sigma> i) ! k)) = 0"] by blast
  have "phase (machines (\<sigma> i) ! k) = Exited" if "max m n \<le> i" "k < length (machines (\<sigma> i))" for i k
    using m len [of i] that exit_rank_zero by simp
  then show ?thesis by blast
qed

text \<open>A run for the witness: \<^verbatim>\<open>Connect\<close> with its watcher, \<^verbatim>\<open>Close\<close>, the end of the watcher, and then one
  more \<^verbatim>\<open>Close\<close> after the other.\<close>

definition sample_life :: "nat \<Rightarrow> life_sys" where
  "sample_life n =
     (if n = 0 then life_init
      else if n = 1 then \<lparr>life_of = fresh_life\<lparr>conn := Some 0, conn_open := [True]\<rparr>, pending = 1\<rparr>
      else if n = 2 then \<lparr>life_of = \<lparr>conn = Some 0, healthCancel = Some 0, conn_open = [True],
          watchers = [\<lparr>watched = Some 0, watch_cancelled = False\<rparr>]\<rparr>, pending = 0\<rparr>
      else \<lparr>life_of = \<lparr>conn = None, healthCancel = None, conn_open = [False],
          watchers = [\<lparr>watched = Some 0, watch_cancelled = True\<rparr>]\<rparr>, pending = 0\<rparr>)"

definition sample_watch :: "nat \<Rightarrow> watch_sys" where
  "sample_watch n = \<lparr>client_part = sample_life n,
     machines = (if n \<le> 1 then [] else if n \<le> 3 then [watch_init] else [watch_init\<lparr>phase := Exited\<rparr>])\<rparr>"

lemma sample_client_call:
  assumes "life_step True (sample_life n) (sample_life (Suc n))" "n \<noteq> 3"
    and "pending (sample_life n) = 0 \<or> pending (sample_life (Suc n)) < pending (sample_life n)"
  shows "calm_sys_step True [] (sample_watch n) (sample_watch (Suc n))"
proof -
  have "sample_watch (Suc n) = (sample_watch n)\<lparr>client_part := sample_life (Suc n),
      machines := spawned (sample_life (Suc n)) (machines (sample_watch n))\<rparr>"
    using assms(2) by (auto simp: sample_watch_def sample_life_def spawned_def life_init_def fresh_life_def)
  then show ?thesis
    using client_call [of True "sample_watch n" "sample_life (Suc n)" "[]"] assms(1,3)
    by (simp add: calm_sys_step_def sample_watch_def)
qed

lemma sample_watch_step: "calm_sys_step True [] (sample_watch n) (sample_watch (Suc n))"
proof -
  consider "n = 0" | "n = 1" | "n = 2" | "n = 3" | "3 < n" by linarith
  then show ?thesis
  proof cases
    case 1
    have "connect_locked [] None (life_of (sample_life 0)) = (None, fresh_life\<lparr>conn := Some 0, conn_open := [True]\<rparr>)"
      by (simp add: sample_life_def connect_locked_def life_init_def fresh_life_def)
    from dial_section [OF this, of True] show ?thesis
      by (intro sample_client_call) (simp_all add: 1 sample_life_def life_init_def)
  next
    case 2
    from watch_section [of "sample_life 1" True] show ?thesis
      by (intro sample_client_call) (simp_all add: 2 sample_life_def startHealthWatch_def fresh_life_def)
  next
    case 3
    from close_section [of True "sample_life 2"] show ?thesis
      by (intro sample_client_call) (simp_all add: 3 sample_life_def close_conn_def cancel_watch_def)
  next
    case 4
    have "watch_step [] True (StartFailed (ErrorText [])) watch_init = Some (watch_init\<lparr>phase := Exited\<rparr>)"
      by (simp add: watch_step_def watch_init_def)
    then show ?thesis
      using watcher_move [of 0 "sample_watch 3" True "StartFailed (ErrorText [])" "[]" "watch_init\<lparr>phase := Exited\<rparr>" True]
      by (simp add: 4 calm_sys_step_def sample_watch_def sample_life_def)
  next
    case 5
    from close_section [of True "sample_life n"] show ?thesis
      by (intro sample_client_call) (use 5 in \<open>simp_all add: sample_life_def close_conn_def cancel_watch_def\<close>)
  qed
qed

lemma sample_watch_fair: "fair (watch_sys_step True []) (cancelled_move k) sample_watch"
proof (rule fair_stuck [of 4])
  fix j :: nat
  assume "4 \<le> j"
  then have ms: "machines (sample_watch j) = [watch_init\<lparr>phase := Exited\<rparr>]" by (simp add: sample_watch_def)
  have "machines u ! k = machines (sample_watch j) ! k"
    if "watch_sys_step True [] (sample_watch j) u" "k < length (machines (sample_watch j))" for u
    using that by (cases rule: watch_sys_step.cases) (auto simp: ms spawned_def watch_step_def)
  then show "\<not> can (watch_sys_step True []) (cancelled_move k) (sample_watch j)"
    by (auto simp: can_def cancelled_move_def)
qed

theorem closed_client_goes_quiet_witness:
  "\<exists>m. \<forall>i \<ge> m. \<forall>k < length (machines (sample_watch i)). phase (machines (sample_watch i) ! k) = Exited"
proof (rule closed_client_goes_quiet [where n = 3 and hw = True and t = "[]"])
  show "run_of (calm_sys_step True []) sample_watch" using sample_watch_step by (simp add: run_of_def)
  show "sample_watch 0 = watch_sys_init" by (simp add: sample_watch_def sample_life_def watch_sys_init_def)
  show "conn (life_of (client_part (sample_watch i))) = None" if "3 \<le> i" for i
    using that by (simp add: sample_watch_def sample_life_def)
qed (rule sample_watch_fair)

end
