(* ===== verification/Server_Recovery.thy ===== *)
theory Server_Recovery
  imports Server_Config
begin

text \<open>
  \<^verbatim>\<open>internal/server/interceptor/recovery.go\<close>: the interceptors that turn a panic of anything below
  them into an \<^verbatim>\<open>Internal\<close> error. The logger is resolved before the handler runs, so a handler
  that reconfigures the package does not move the record.
\<close>

definition internal_error :: goerror where
  "internal_error = StatusError Internal ''internal server error''"

definition panic_args :: "string \<Rightarrow> panic_val \<Rightarrow> log_arg list" where
  "panic_args method r =
     [ArgString ''method'', ArgString method, ArgString ''panic'', ArgPanic r, ArgString ''stack'', ArgStack]"

definition Recovery :: "('md, 'req, 'resp) unary_interceptor" where
  "Recovery c req method handler =
     bindc getConfig (\<lambda>cfg.
     bindc (Resolve (cfg_logger cfg)) (\<lambda>l.
       recoverc (handler c req) (\<lambda>r.
         thenc (log_call l LevelError ''panic recovered in gRPC handler'' (panic_args method r))
           (ret (None, Some internal_error)))))"

definition StreamRecovery :: "('md, 'srv) stream_interceptor" where
  "StreamRecovery srv ss method handler =
     bindc getConfig (\<lambda>cfg.
     bindc (Resolve (cfg_logger cfg)) (\<lambda>l.
       recoverc (handler srv ss) (\<lambda>r.
         thenc (log_call l LevelError ''panic recovered in gRPC stream handler'' (panic_args method r))
           (ret (Some internal_error)))))"

text \<open>What recovery makes of an outcome, with the logger it resolved at entry.\<close>

definition panic_record :: "log_handler \<Rightarrow> string \<Rightarrow> string \<Rightarrow> panic_val \<Rightarrow> log_record" where
  "panic_record l msg method p =
     \<lparr>log_sink = sink_of l, log_level = LevelError, log_msg = msg, log_args = panic_args method p\<rparr>"

lemma Recovery_apply [comp_simps]:
  "Recovery c req method h w =
     (case h c req w of
        (Ret r, w') \<Rightarrow> (Ret r, w')
      | (Panic p, w') \<Rightarrow> (Ret (None, Some internal_error),
          w'\<lparr>log_trace := log_trace w' @ [panic_record (resolved (cfg_logger (defaultConfig w)) w)
             ''panic recovered in gRPC handler'' method p]\<rparr>))"
  by (simp add: Recovery_def panic_record_def comp_simps split: prod.splits outcome.splits)

lemma StreamRecovery_apply [comp_simps]:
  "StreamRecovery srv ss method h w =
     (case h srv ss w of
        (Ret r, w') \<Rightarrow> (Ret r, w')
      | (Panic p, w') \<Rightarrow> (Ret (Some internal_error),
          w'\<lparr>log_trace := log_trace w' @ [panic_record (resolved (cfg_logger (defaultConfig w)) w)
             ''panic recovered in gRPC stream handler'' method p]\<rparr>))"
  by (simp add: StreamRecovery_def panic_record_def comp_simps split: prod.splits outcome.splits)

lemma forwarder_Recovery: "forwarder (paired Recovery)"
proof
  fix a :: "'a ctx \<times> 'b" and i and w :: server_world
  obtain c req where a: "a = (c, req)" by (cases a)
  let ?post = "\<lambda>out. case out of (Ret r, w') \<Rightarrow> (Ret r, w')
      | (Panic p, w') \<Rightarrow> (Ret (None, Some internal_error),
          w'\<lparr>log_trace := log_trace w' @ [panic_record (resolved (cfg_logger (defaultConfig w)) w)
             ''panic recovered in gRPC handler'' i p]\<rparr>)"
  have "(\<forall>h. paired Recovery a i h w = ?post (h a w)) \<and> (\<forall>r w''. fst (?post (Ret r, w'')) = Ret r)"
    by (simp add: a Recovery_apply)
  then show "\<exists>a' w' post. (\<forall>h. paired Recovery a i h w = post (h a' w')) \<and>
      (\<forall>r w''. fst (post (Ret r, w'')) = Ret r)" by blast
qed

interpretation recovery: forwarder "paired Recovery"
  by (rule forwarder_Recovery)

end
