(* ===== verification/Server_Logging.thy ===== *)
theory Server_Logging
  imports Peer_Key Server_Recovery
begin

text \<open>
  \<^verbatim>\<open>internal/server/interceptor/logging.go\<close>: one structured record per call, written after the
  handler returned, and \<^verbatim>\<open>RequestIDFromContext\<close> of \<^verbatim>\<open>requestid.go\<close>, which the record reads.
\<close>

definition RequestIDFromContext :: "'md ctx \<Rightarrow> string" where
  "RequestIDFromContext c = (case string_value c RequestIDKey of Some rid \<Rightarrow> rid | None \<Rightarrow> [])"

definition buildLogArgs ::
  "('md, 'b) grpc_api_scheme \<Rightarrow> 'md ctx \<Rightarrow> string \<Rightarrow> int \<Rightarrow> goerror option \<Rightarrow> bool \<Rightarrow> log_arg list" where
  "buildLogArgs G c method duration err trust =
     [ArgString ''method'', ArgString method, ArgString ''duration'', ArgDuration duration,
      ArgString ''code'', ArgString (code_text G (status_code G err))] @
     (let key = peerKey G c trust in
        if key \<noteq> ''unknown'' then [ArgString ''peer'', ArgString key] else []) @
     (let rid = RequestIDFromContext c in
        if rid \<noteq> [] then [ArgString ''request_id'', ArgString rid] else []) @
     (case err of None \<Rightarrow> [] | Some e \<Rightarrow> [ArgString ''error'', ArgString (error_text G e)])"

definition Logging :: "'md srv_env \<Rightarrow> ('md, 'req, 'resp) unary_interceptor" where
  "Logging E c req method handler =
     bindc getConfig (\<lambda>cfg.
     bindc (Resolve (cfg_logger cfg)) (\<lambda>l.
     bindc time_now (\<lambda>start.
     bindc (handler c req) (\<lambda>(resp, err).
     bindc time_now (\<lambda>stop.
       let attrs = buildLogArgs E c method (stop - start) err (trustProxy cfg) in
       thenc
         (if err \<noteq> None then
            bindc (isDemoted cfg method) (\<lambda>demoted.
              if status_code E err = Canceled \<and> demoted then log_call l LevelDebug ''rpc completed'' attrs
              else log_call l LevelError ''rpc failed'' attrs)
          else log_call l LevelInfo ''rpc completed'' attrs)
         (ret (resp, err)))))))"

definition StreamLogging :: "'md srv_env \<Rightarrow> ('md, 'srv) stream_interceptor" where
  "StreamLogging E srv ss method handler =
     bindc getConfig (\<lambda>cfg.
     bindc (Resolve (cfg_logger cfg)) (\<lambda>l.
     bindc time_now (\<lambda>start.
     bindc (handler srv ss) (\<lambda>err.
     bindc time_now (\<lambda>stop.
       let attrs = buildLogArgs E (Context ss) method (stop - start) err (trustProxy cfg) in
       thenc
         (if err \<noteq> None then
            bindc (isDemoted cfg method) (\<lambda>demoted.
              if status_code E err = Canceled \<and> demoted
              then log_call l LevelDebug ''stream rpc completed'' attrs
              else log_call l LevelError ''stream rpc failed'' attrs)
          else log_call l LevelInfo ''stream rpc completed'' attrs)
         (ret err))))))"

section \<open>The record of a call\<close>

definition completion_level :: "('md, 'b) grpc_api_scheme \<Rightarrow> goerror option \<Rightarrow> bool \<Rightarrow> level" where
  "completion_level G err demoted =
     (case err of None \<Rightarrow> LevelInfo
      | Some e \<Rightarrow> if status_code G err = Canceled \<and> demoted then LevelDebug else LevelError)"

definition completion_record ::
  "'md srv_env \<Rightarrow> server_world \<Rightarrow> 'md ctx \<Rightarrow> string \<Rightarrow> string \<Rightarrow> goerror option \<Rightarrow> server_world \<Rightarrow> log_record" where
  \<comment> \<open>entered in state \<open>w\<close>, the handler returned in state \<open>w'\<close>\<close>
  "completion_record E w c method kind err w' =
     (let cfg = defaultConfig w;
          lv = completion_level E err (method \<in> method_maps w' (demotedMethods cfg))
      in \<lparr>log_sink = sink_of (resolved (cfg_logger cfg) w), log_level = lv,
          log_msg = kind @ (if lv = LevelError then ''rpc failed'' else ''rpc completed''),
          log_args = buildLogArgs E c method (now w' - now w) err (trustProxy cfg)\<rparr>)"

definition add_record :: "log_record \<Rightarrow> 'a process_scheme \<Rightarrow> 'a process_scheme" where
  "add_record r w = w\<lparr>log_trace := log_trace w @ [r]\<rparr>"

lemma Logging_apply:
  "Logging E c req method h w =
     (case h c req w of
        (Ret (resp, err), w') \<Rightarrow> (Ret (resp, err), add_record (completion_record E w c method [] err w') w')
      | (Panic p, w') \<Rightarrow> (Panic p, w'))"
  by (auto simp: Logging_def completion_record_def completion_level_def add_record_def time_now_def Let_def
      comp_simps split: prod.splits outcome.splits option.splits)

lemma StreamLogging_apply:
  "StreamLogging E srv ss method h w =
     (case h srv ss w of
        (Ret err, w') \<Rightarrow> (Ret err, add_record (completion_record E w (Context ss) method ''stream '' err w') w')
      | (Panic p, w') \<Rightarrow> (Panic p, w'))"
  by (auto simp: StreamLogging_def completion_record_def completion_level_def add_record_def time_now_def Let_def
      comp_simps split: prod.splits outcome.splits option.splits)

lemma forwarder_Logging: "forwarder (paired (Logging E))"
proof
  fix a :: "'a ctx \<times> 'b" and i and w :: server_world
  obtain c req where a: "a = (c, req)" by (cases a)
  let ?post = "\<lambda>out. case out of
      (Ret (resp, err), w') \<Rightarrow> (Ret (resp, err), add_record (completion_record E w c i [] err w') w')
    | (Panic p, w') \<Rightarrow> (Panic p, w')"
  have "(\<forall>h. paired (Logging E) a i h w = ?post (h a w)) \<and> (\<forall>r w''. fst (?post (Ret r, w'')) = Ret r)"
    by (simp add: a Logging_apply split: prod.splits)
  then show "\<exists>a' w' post. (\<forall>h. paired (Logging E) a i h w = post (h a' w')) \<and>
      (\<forall>r w''. fst (post (Ret r, w'')) = Ret r)" by blast
qed

lemma conduit_Logging: "conduit (paired (Logging E))"
proof
  fix a :: "'a ctx \<times> 'b" and i and w :: server_world
  obtain c req where a: "a = (c, req)" by (cases a)
  let ?post = "\<lambda>(out, w'). (out, case out of
      Ret (resp, err) \<Rightarrow> add_record (completion_record E w c i [] err w') w' | Panic p \<Rightarrow> w')"
  have "(\<forall>h. paired (Logging E) a i h w = ?post (h a w)) \<and> (\<forall>out w''. fst (?post (out, w'')) = out)"
    by (auto simp: a Logging_apply split: prod.splits outcome.splits)
  then show "(\<exists>answer. \<forall>h. paired (Logging E) a i h w = answer) \<or>
      (\<exists>a' w' post. (\<forall>h. paired (Logging E) a i h w = post (h a' w')) \<and> (\<forall>out w''. fst (post (out, w'')) = out))" by blast
qed

interpretation logging: forwarder "paired (Logging E)" for E
  by (rule forwarder_Logging)

interpretation logging_conduit: conduit "paired (Logging E)" for E
  by (rule conduit_Logging)

text \<open>Logging is faithful and complete: a call that returns gives the client exactly what the
  handler returned, and adds exactly one record, on the logger configured at entry; the
  record is at level Error if and only if the call failed other than by cancelling a demoted
  method, it is at Info if and only if the call succeeded, and its duration is the time the
  handler took.\<close>

theorem logging_one_record:
  assumes "h c req w = (Ret (resp, err), w')"
  shows "\<exists>r. Logging E c req path h w = (Ret (resp, err), w'\<lparr>log_trace := log_trace w' @ [r]\<rparr>) \<and>
           log_sink r = sink_of (resolved (cfg_logger (defaultConfig w)) w) \<and>
           (log_level r = LevelInfo \<longleftrightarrow> err = None) \<and>
           (log_level r = LevelError \<longleftrightarrow> err \<noteq> None \<and>
              \<not> (status_code E err = Canceled \<and> path \<in> method_maps w' (demotedMethods (defaultConfig w)))) \<and>
           take 4 (log_args r) = [ArgString ''method'', ArgString path, ArgString ''duration'', ArgDuration (now w' - now w)]"
  using assms
  by (intro exI [of _ "completion_record E w c path [] err w'"])
    (auto simp: Logging_apply completion_record_def completion_level_def add_record_def Let_def buildLogArgs_def
      split: option.splits)

theorem logging_one_record_witness:
  "\<exists>r. Logging sample_env sample_ctx () ''/a/B'' (\<lambda>c r. ret (Some (), None)) sample_world
      = (Ret (Some (), None), sample_world\<lparr>log_trace := [r]\<rparr>) \<and> log_sink r = ToSlog \<and> log_level r = LevelInfo"
proof -
  have "(\<lambda>c r. ret (Some (), None)) sample_ctx () sample_world = (Ret (Some (), None), sample_world)"
    by (simp add: ret_def)
  from logging_one_record [where E = sample_env and h = "\<lambda>c r. ret (Some (), None)" and path = "''/a/B''"
      and c = sample_ctx and req = "()", OF this]
  show ?thesis
    by (elim ex_forward) (simp add: sample_world_def initial_config_def resolved_def)
qed

text \<open>The snapshot a call takes is not a snapshot of the method sets: a handler that demotes
  its own method while it runs, and is then cancelled, is logged at level Debug, though the
  method was not demoted when the call's configuration was copied.\<close>

theorem snapshot_aliases_method_sets:
  assumes "method \<noteq> []" "method \<notin> method_maps w (demotedMethods (defaultConfig w))" "status_laws E"
  shows "\<exists>r w'. Logging E c req method
             (\<lambda>c req. thenc (WithDemotedMethods [method]) (ret (None, Some (StatusError Canceled msg)))) w
           = (Ret (None, Some (StatusError Canceled msg)), w'\<lparr>log_trace := log_trace w @ [r]\<rparr>) \<and>
           log_level r = LevelDebug"
proof -
  let ?err = "Some (StatusError Canceled msg)"
  let ?h = "\<lambda>c req. thenc (WithDemotedMethods [method]) (ret (None, ?err))"
  let ?w' = "snd (WithDemotedMethods [method] w)"
  have "?h c req w = (Ret (None, ?err), ?w')" by (simp add: comp_simps)
  then have "Logging E c req method ?h w =
      (Ret (None, ?err), ?w'\<lparr>log_trace := log_trace w @ [completion_record E w c method [] ?err ?w']\<rparr>)"
    by (simp add: Logging_apply add_record_def comp_simps)
  moreover have "log_level (completion_record E w c method [] ?err ?w') = LevelDebug"
    using assms by (simp add: completion_record_def completion_level_def comp_simps status_laws_def status_code_def Let_def)
  ultimately show ?thesis by (intro exI conjI)
qed

theorem snapshot_aliases_method_sets_witness:
  "\<exists>r w'. Logging sample_env sample_ctx () ''/a/B''
      (\<lambda>c req. thenc (WithDemotedMethods [''/a/B'']) (ret (None :: unit option, Some (StatusError Canceled ''gone'')))) sample_world
    = (Ret (None, Some (StatusError Canceled ''gone'')), w'\<lparr>log_trace := log_trace sample_world @ [r]\<rparr>) \<and>
    log_level r = LevelDebug"
  by (rule snapshot_aliases_method_sets)
    (simp_all add: sample_world_def initial_config_def initial_maps_def defaultDemotedMethods_def sample_env_laws)

end
