(* ===== verification/Request_Id.thy ===== *)
theory Request_Id
  imports Server_Logging
begin

unbundle bit_operations_syntax

text \<open>
  \<^verbatim>\<open>internal/server/interceptor/requestid.go\<close>: the pattern a client's request id has to match, the
  generator of version 4 UUIDs, and the interceptors that put an id into the context and the
  response header.
\<close>

section \<open>The pattern\<close>

datatype id_char = HexDigit | Dash

definition is_hex :: "char \<Rightarrow> bool" where
  "is_hex c \<longleftrightarrow> c \<in> set ''0123456789abcdefABCDEF''"

fun char_matches :: "id_char \<Rightarrow> char \<Rightarrow> bool" where
  "char_matches HexDigit c = is_hex c"
| "char_matches Dash c = (c = CHR ''-'')"

definition uuid_template :: "id_char list" where
  "uuid_template = replicate 8 HexDigit @ [Dash] @ replicate 4 HexDigit @ [Dash] @ replicate 4 HexDigit @ [Dash]
     @ replicate 4 HexDigit @ [Dash] @ replicate 12 HexDigit"

definition uuidPattern :: "string \<Rightarrow> bool" where
  "uuidPattern s = list_all2 char_matches uuid_template s"

lemma uuidPattern_length: "uuidPattern s \<Longrightarrow> length s = 36"
  unfolding uuidPattern_def by (drule list_all2_lengthD) (simp add: uuid_template_def)

lemma uuidPattern_chars: "uuidPattern s \<Longrightarrow> c \<in> set s \<Longrightarrow> is_hex c \<or> c = CHR ''-''"
  unfolding uuidPattern_def by (force simp: list_all2_conv_all_nth in_set_conv_nth elim: char_matches.elims)

section \<open>The generator\<close>

definition hex_digit :: "nat \<Rightarrow> char" where
  "hex_digit n = ''0123456789abcdef'' ! n"

definition hex_byte :: "8 word \<Rightarrow> string" where
  "hex_byte b = [hex_digit (unat b div 16), hex_digit (unat b mod 16)]"

definition fmt_hex :: "nat \<Rightarrow> 8 word list \<Rightarrow> string" where
  \<comment> \<open>the verb \<^verbatim>\<open>%0<width>x\<close> on a byte slice\<close>
  "fmt_hex width bs = (let s = concat (map hex_byte bs) in replicate (width - length s) (CHR ''0'') @ s)"

definition uuid_text :: "8 word list \<Rightarrow> string" where
  \<comment> \<open>the format of \<^verbatim>\<open>generateUUID\<close>; the slice \<^verbatim>\<open>u[a:b]\<close> is \<open>drop a (take b u)\<close>\<close>
  "uuid_text u = fmt_hex 8 (take 4 u) @ ''-'' @ fmt_hex 4 (drop 4 (take 6 u)) @ ''-'' @
     fmt_hex 4 (drop 6 (take 8 u)) @ ''-'' @ fmt_hex 4 (drop 8 (take 10 u)) @ ''-'' @ fmt_hex 12 (drop 10 (take 16 u))"

definition rand_read :: "nat \<Rightarrow> ('a process_scheme, 8 word list) comp" where
  "rand_read n = (\<lambda>w. (Ret (map (entropy w) [0..<n]), w\<lparr>entropy := (\<lambda>i. entropy w (n + i))\<rparr>))"

definition set_version :: "8 word \<Rightarrow> 8 word" where
  "set_version b = (b AND 0x0f) OR 0x40"

definition set_variant :: "8 word \<Rightarrow> 8 word" where
  "set_variant b = (b AND 0x3f) OR 0x80"

definition generateUUID :: "('a process_scheme, string) comp" where
  "generateUUID =
     bindc (rand_read 16) (\<lambda>u.
       let u = u[6 := set_version (u ! 6)]; u = u[8 := set_variant (u ! 8)] in ret (uuid_text u))"

section \<open>Interceptors\<close>

definition ensureRequestID :: "('md, 'b) grpc_api_scheme \<Rightarrow> 'md ctx \<Rightarrow> ('a process_scheme, 'md ctx) comp" where
  "ensureRequestID G c =
     (let generated = bindc generateUUID (\<lambda>rid. ret (with_value c RequestIDKey (StringValue rid))) in
      case incoming_md c of
        None \<Rightarrow> generated
      | Some md \<Rightarrow>
          (case md_get G md ''x-request-id'' of
             [] \<Rightarrow> generated
           | v # _ \<Rightarrow> if uuidPattern v then ret (with_value c RequestIDKey (StringValue v)) else generated))"

definition SetHeader :: "(string \<times> string) list \<Rightarrow> ('a process_scheme, unit) comp" where
  "SetHeader kvs = modifyc (\<lambda>w. w\<lparr>headers_set := headers_set w @ [kvs]\<rparr>)"

definition RequestID :: "'md srv_env \<Rightarrow> ('md, 'req, 'resp) unary_interceptor" where
  "RequestID E c req method handler =
     bindc (ensureRequestID E c) (\<lambda>c'.
       thenc (SetHeader [(''x-request-id'', RequestIDFromContext c')]) (handler c' req))"

definition StreamRequestID :: "'md srv_env \<Rightarrow> ('md, 'srv) stream_interceptor" where
  "StreamRequestID E srv ss method handler =
     bindc (ensureRequestID E (Context ss)) (\<lambda>c'.
       thenc (SetHeader [(''x-request-id'', RequestIDFromContext c')])
         (handler srv (WrappedServerStream ss c')))"

section \<open>Hexadecimal\<close>

definition hex_value :: "char \<Rightarrow> nat" where
  \<comment> \<open>the value of a digit, to state the round trip\<close>
  "hex_value c = length (takeWhile (\<lambda>d. d \<noteq> c) ''0123456789abcdef'')"

fun hex_bytes :: "string \<Rightarrow> 8 word list" where
  "hex_bytes (a # b # cs) = of_nat (16 * hex_value a + hex_value b) # hex_bytes cs"
| "hex_bytes cs = []"

definition uuid_bytes :: "string \<Rightarrow> 8 word list" where
  "uuid_bytes s = hex_bytes (filter (\<lambda>c. c \<noteq> CHR ''-'') s)"

lemma hex_digit_simps:
  "n < 16 \<Longrightarrow> hex_value (hex_digit n) = n"
  "n < 16 \<Longrightarrow> is_hex (hex_digit n)"
  "n < 16 \<Longrightarrow> hex_digit n \<noteq> CHR ''-''"
proof -
  have "\<forall>n \<in> set [0..<16]. hex_value (hex_digit n) = n \<and> is_hex (hex_digit n) \<and> hex_digit n \<noteq> CHR ''-''"
    by code_simp
  then show "n < 16 \<Longrightarrow> hex_value (hex_digit n) = n" "n < 16 \<Longrightarrow> is_hex (hex_digit n)"
    "n < 16 \<Longrightarrow> hex_digit n \<noteq> CHR ''-''" by auto
qed

lemma byte_lt: "unat (b :: 8 word) < 256"
  using unsigned_less [of b] by simp

lemma byte_digits: "unat (b :: 8 word) div 16 < 16" "unat b mod 16 < 16"
  using byte_lt [of b] by auto

lemma hex_byte_simps:
  "length (hex_byte b) = 2"
  "hex_bytes (hex_byte b @ cs) = b # hex_bytes cs"
  "filter (\<lambda>c. c \<noteq> CHR ''-'') (hex_byte b) = hex_byte b"
  "list_all2 char_matches [HexDigit, HexDigit] (hex_byte b)"
  using byte_digits [of b] hex_digit_simps
  by (simp_all add: hex_byte_def del: word_of_nat_less_iff)

lemma fmt_hex_exact: "width = 2 * length bs \<Longrightarrow> fmt_hex width bs = concat (map hex_byte bs)"
proof -
  have "length (concat (map hex_byte bs)) = 2 * length bs"
    by (induction bs) (simp_all add: hex_byte_simps)
  then show "width = 2 * length bs \<Longrightarrow> fmt_hex width bs = concat (map hex_byte bs)"
    by (simp add: fmt_hex_def Let_def)
qed

lemma hex_bytes_concat: "hex_bytes (concat (map hex_byte bs) @ cs) = bs @ hex_bytes cs"
  by (induction bs) (simp_all add: hex_byte_simps)

lemma filter_concat_hex: "filter (\<lambda>c. c \<noteq> CHR ''-'') (concat (map hex_byte bs)) = concat (map hex_byte bs)"
  by (induction bs) (simp_all only: list.map concat.simps filter.simps filter_append hex_byte_simps)

lemma hex_run_matches:
  "n = 2 * length bs \<Longrightarrow> list_all2 char_matches (replicate n HexDigit) (concat (map hex_byte bs))"
proof (induction bs arbitrary: n)
  case (Cons b bs)
  have "list_all2 char_matches ([HexDigit, HexDigit] @ replicate (2 * length bs) HexDigit)
      (hex_byte b @ concat (map hex_byte bs))"
    by (rule list_all2_appendI [OF hex_byte_simps(4) Cons.IH]) simp
  then show ?case by (simp add: Cons.prems)
qed simp

lemma uuid_text_cat:
  assumes "length u = 16"
  shows "uuid_text u = concat (map hex_byte (take 4 u)) @ ''-'' @ concat (map hex_byte (drop 4 (take 6 u))) @ ''-'' @
     concat (map hex_byte (drop 6 (take 8 u))) @ ''-'' @ concat (map hex_byte (drop 8 (take 10 u))) @ ''-'' @
     concat (map hex_byte (drop 10 (take 16 u)))"
  unfolding uuid_text_def by (subst (1 2 3 4 5) fmt_hex_exact) (simp_all add: assms)

lemma uuid_text_matches:
  assumes "length u = 16"
  shows "uuidPattern (uuid_text u)"
  unfolding uuidPattern_def uuid_text_cat [OF assms] uuid_template_def
  by (intro list_all2_appendI hex_run_matches) (simp_all add: assms)

lemma uuid_bytes_text:
  assumes "length u = 16"
  shows "uuid_bytes (uuid_text u) = u"
proof -
  have cut: "take a u @ drop a (take b u) = take b u" if "a \<le> b" for a b
    using that by (metis append_take_drop_id min.absorb1 take_take)
  have "uuid_bytes (uuid_text u) = take 4 u @ drop 4 (take 6 u) @ drop 6 (take 8 u) @ drop 8 (take 10 u) @
      drop 10 (take 16 u)"
    using hex_bytes_concat [of _ "[]"]
    by (simp add: uuid_bytes_def uuid_text_cat [OF assms] filter_concat_hex hex_bytes_concat)
  also have "\<dots> = take 16 u" by (simp only: append_assoc [symmetric]) (simp add: cut)
  finally show ?thesis by (simp add: assms)
qed

lemma version_bits:
  "unat (set_version b) div 16 = 4" "unat (set_version b) mod 16 = unat b mod 16"
  "unat (set_variant b) div 64 = 2" "unat (set_variant b) mod 64 = unat b mod 64"
proof -
  have table: "\<forall>n \<in> set [0..<256].
      unat (set_version (of_nat n)) div 16 = 4 \<and> unat (set_version (of_nat n)) mod 16 = n mod 16 \<and>
      unat (set_variant (of_nat n)) div 64 = 2 \<and> unat (set_variant (of_nat n)) mod 64 = n mod 64"
    by code_simp
  have "unat b \<in> set [0..<256]" using byte_lt [of b] by simp
  from bspec [OF table this]
  show "unat (set_version b) div 16 = 4" "unat (set_version b) mod 16 = unat b mod 16"
    "unat (set_variant b) div 64 = 2" "unat (set_variant b) mod 64 = unat b mod 64"
    by simp_all
qed

section \<open>Generated ids\<close>

definition stamped :: "(nat \<Rightarrow> 8 word) \<Rightarrow> 8 word list" where
  "stamped en = (map en [0..<16])[6 := set_version (en 6), 8 := set_variant (en 8)]"

lemma stamped_nth: "i < 16 \<Longrightarrow> stamped en ! i =
    (if i = 6 then set_version (en 6) else if i = 8 then set_variant (en 8) else en i)"
  and stamped_length [simp]: "length (stamped en) = 16"
  by (auto simp: stamped_def nth_list_update)

lemma generateUUID_apply [comp_simps]:
  "generateUUID w = (Ret (uuid_text (stamped (entropy w))), w\<lparr>entropy := (\<lambda>i. entropy w (16 + i))\<rparr>)"
  by (simp add: generateUUID_def rand_read_def stamped_def Let_def ret_apply bindc_apply nth_list_update
      del: upt_rec_numeral)

text \<open>C32. A generated id is a version 4 UUID that loses no entropy: it has the accepted format, it
  decodes to the sixteen bytes read, the version nibble is 4, the variant bits are 10, and the
  other 122 bits are the ones the random source delivered, which are consumed.\<close>

theorem generated_id_is_uuid4:
  assumes "generateUUID w = (Ret s, w')" "u = uuid_bytes s"
  shows "uuidPattern s \<and> length u = 16 \<and>
         (\<forall>i < 16. i \<noteq> 6 \<longrightarrow> i \<noteq> 8 \<longrightarrow> u ! i = entropy w i) \<and>
         unat (u ! 6) div 16 = 4 \<and> unat (u ! 6) mod 16 = unat (entropy w 6) mod 16 \<and>
         unat (u ! 8) div 64 = 2 \<and> unat (u ! 8) mod 64 = unat (entropy w 8) mod 64 \<and>
         (\<forall>i. entropy w' i = entropy w (16 + i))"
proof -
  have "s = uuid_text (stamped (entropy w))" "w' = w\<lparr>entropy := (\<lambda>i. entropy w (16 + i))\<rparr>"
    using assms(1) by (simp_all add: generateUUID_apply)
  then show ?thesis
    by (simp add: assms(2) uuid_bytes_text uuid_text_matches stamped_nth version_bits)
qed

theorem generated_id_is_uuid4_witness:
  "uuidPattern ''00000000-0000-4000-8000-000000000000''"
proof -
  have "fst (generateUUID sample_world) = Ret ''00000000-0000-4000-8000-000000000000''"
    unfolding generateUUID_apply by (simp add: sample_world_def) code_simp
  then obtain w' where "generateUUID sample_world = (Ret ''00000000-0000-4000-8000-000000000000'', w')"
    by (metis prod.collapse)
  from generated_id_is_uuid4 [OF this refl] show ?thesis by (rule conjunct1)
qed

section \<open>The id of a call\<close>

definition client_id :: "('md, 'b) grpc_api_scheme \<Rightarrow> 'md ctx \<Rightarrow> string option" where
  \<comment> \<open>the id the client sent, when it is well formed\<close>
  "client_id G c =
     (case incoming_md c of
        None \<Rightarrow> None
      | Some md \<Rightarrow> (case md_get G md ''x-request-id'' of
            [] \<Rightarrow> None
          | v # _ \<Rightarrow> if uuidPattern v then Some v else None))"

definition call_id :: "('md, 'b) grpc_api_scheme \<Rightarrow> 'md ctx \<Rightarrow> (nat \<Rightarrow> 8 word) \<Rightarrow> string" where
  "call_id G c en = (case client_id G c of Some v \<Rightarrow> v | None \<Rightarrow> uuid_text (stamped en))"

definition identified :: "('md, 'b) grpc_api_scheme \<Rightarrow> 'md ctx \<Rightarrow> (nat \<Rightarrow> 8 word) \<Rightarrow> 'md ctx" where
  "identified G c en = with_value c RequestIDKey (StringValue (call_id G c en))"

definition entropy_after :: "('md, 'b) grpc_api_scheme \<Rightarrow> 'md ctx \<Rightarrow> (nat \<Rightarrow> 8 word) \<Rightarrow> nat \<Rightarrow> 8 word" where
  "entropy_after G c en = (if client_id G c = None then (\<lambda>i. en (16 + i)) else en)"

lemma ensureRequestID_apply [comp_simps]:
  "ensureRequestID G c w = (Ret (identified G c (entropy w)), w\<lparr>entropy := entropy_after G c (entropy w)\<rparr>)"
  by (simp add: ensureRequestID_def identified_def call_id_def client_id_def entropy_after_def comp_simps
      split: option.splits list.splits)

lemma call_id_matches: "uuidPattern (call_id G c en)"
  by (auto simp: call_id_def client_id_def uuid_text_matches split: option.splits list.splits if_splits)

lemma identified_simps [simp]:
  "RequestIDFromContext (identified G c en) = call_id G c en"
  "incoming_md (identified G c en) = incoming_md c"
  "peer_addr (identified G c en) = peer_addr c"
  by (simp_all add: identified_def RequestIDFromContext_def)

definition announced :: "('md, 'b) grpc_api_scheme \<Rightarrow> 'md ctx \<Rightarrow> 'a process_scheme \<Rightarrow> 'a process_scheme" where
  \<comment> \<open>the state after the id of a call has been chosen and put into the header\<close>
  "announced G c w = w\<lparr>entropy := entropy_after G c (entropy w),
     headers_set := headers_set w @ [[(''x-request-id'', call_id G c (entropy w))]]\<rparr>"

lemma RequestID_apply:
  "RequestID E c req method h w = h (identified E c (entropy w)) req (announced E c w)"
  "StreamRequestID E srv ss method hs w =
     hs srv (WrappedServerStream ss (identified E (Context ss) (entropy w))) (announced E (Context ss) w)"
  by (simp_all add: RequestID_def StreamRequestID_def SetHeader_def announced_def comp_simps)

lemma forwarder_RequestID: "forwarder (paired (RequestID E))"
proof
  fix a :: "'a ctx \<times> 'b" and i and w :: server_world
  obtain c req where a: "a = (c, req)" by (cases a)
  show "\<exists>a' w' post. (\<forall>h. paired (RequestID E) a i h w = post (h a' w')) \<and>
      (\<forall>r w''. fst (post (Ret r, w'')) = Ret r)"
    by (rule exI [of _ "(identified E c (entropy w), req)"], rule exI [of _ "announced E c w"], rule exI [of _ id])
      (simp add: a RequestID_apply)
qed

lemma conduit_RequestID: "conduit (paired (RequestID E))"
proof
  fix a :: "'a ctx \<times> 'b" and i and w :: server_world
  obtain c req where a: "a = (c, req)" by (cases a)
  show "(\<exists>answer. \<forall>h. paired (RequestID E) a i h w = answer) \<or>
      (\<exists>a' w' post. (\<forall>h. paired (RequestID E) a i h w = post (h a' w')) \<and> (\<forall>out w''. fst (post (out, w'')) = out))"
    by (intro disjI2 exI [of _ "(identified E c (entropy w), req)"] exI [of _ "announced E c w"] exI [of _ id])
      (simp add: a RequestID_apply)
qed

interpretation request_id: forwarder "paired (RequestID E)" for E
  by (rule forwarder_RequestID)

interpretation request_id_conduit: conduit "paired (RequestID E)" for E
  by (rule conduit_RequestID)



end
