(* ===== verification/Client_Calls.thy ===== *)
theory Client_Calls
  imports Client_Config
begin

text \<open>
  \<^verbatim>\<open>internal/client/interceptor/timeout.go\<close> and \<^verbatim>\<open>logging.go\<close>: the default deadline of unary calls,
  and the records of calls and of opened streams.
\<close>

section \<open>Timeout\<close>

definition Timeout :: "('md, 'call) unary_client_interceptor" where
  "Timeout c call method invoker =
     bindc getConfig_client (\<lambda>cfg.
       if defaultTimeout cfg > 0 \<and> ctx_deadline c = None
       then bindc time_now (\<lambda>t. invoker (with_timeout c t (defaultTimeout cfg)) call)
       else invoker c call)"

section \<open>Logging\<close>

definition status_message :: "('md, 'b) grpc_api_scheme \<Rightarrow> goerror option \<Rightarrow> string" where
  "status_message G e = snd (fst (from_error G e))"

definition call_args :: "('md, 'b) grpc_api_scheme \<Rightarrow> string \<Rightarrow> goerror option \<Rightarrow> int \<Rightarrow> log_arg list" where
  "call_args G method err duration =
     [ArgString ''method'', ArgString method, ArgString ''code'', ArgString (code_text G (status_code G err)),
      ArgString ''duration'', ArgDuration duration]"

definition Logging_client :: "'md client_env \<Rightarrow> ('md, 'call) unary_client_interceptor" where
  "Logging_client E c call method invoker =
     bindc getConfig_client (\<lambda>cfg.
     bindc (Resolve (clc_logger cfg)) (\<lambda>l.
     bindc time_now (\<lambda>start.
     bindc (invoker c call) (\<lambda>err.
     bindc time_now (\<lambda>stop.
       thenc
         (if err \<noteq> None
          then log_call l LevelError ''RPC failed''
            (call_args E method err (stop - start) @ [ArgString ''error'', ArgString (status_message E err)])
          else log_call l LevelInfo ''RPC completed'' (call_args E method err (stop - start)))
         (ret err))))))"

definition StreamLogging_client :: "'md client_env \<Rightarrow> ('md, 'call, 'cs) stream_client_interceptor" where
  "StreamLogging_client E c call method streamer =
     bindc getConfig_client (\<lambda>cfg.
     bindc (Resolve (clc_logger cfg)) (\<lambda>l.
     thenc (log_call l LevelInfo ''stream opening'' [ArgString ''method'', ArgString method])
     (bindc time_now (\<lambda>start.
      bindc (streamer c call) (\<lambda>(cs, err).
        case err of
          None \<Rightarrow> ret (cs, None)
        | Some e \<Rightarrow>
            bindc time_now (\<lambda>stop.
              thenc (log_call l LevelError ''stream failed to open''
                (call_args E method err (stop - start) @ [ArgString ''error'', ArgString (status_message E err)]))
              (ret (None, Some e))))))))"

section \<open>Both forward\<close>

definition deadlined :: "int \<Rightarrow> int \<Rightarrow> 'md ctx \<Rightarrow> 'md ctx" where
  \<comment> \<open>the context \<^verbatim>\<open>Timeout\<close> calls with, at instant \<open>t\<close>\<close>
  "deadlined d t c = (if d > 0 \<and> ctx_deadline c = None then with_timeout c t d else c)"

lemma Timeout_apply:
  "Timeout c call method h w = h (deadlined (defaultTimeout (clientConfig w)) (now w) c) call w"
  by (simp add: Timeout_def deadlined_def time_now_def comp_simps)

lemma forwarder_Timeout: "forwarder (paired Timeout)"
proof
  fix a :: "'a ctx \<times> 'b" and i and w :: client_world
  obtain c call where a: "a = (c, call)" by (cases a)
  show "\<exists>a' w' post. (\<forall>h. paired Timeout a i h w = post (h a' w')) \<and> (\<forall>r w''. fst (post (Ret r, w'')) = Ret r)"
    by (rule exI [of _ "(deadlined (defaultTimeout (clientConfig w)) (now w) c, call)"], rule exI [of _ w],
        rule exI [of _ id]) (simp add: a Timeout_apply)
qed

interpretation timeout: forwarder "paired Timeout"
  by (rule forwarder_Timeout)

definition call_record ::
  "'md client_env \<Rightarrow> client_world \<Rightarrow> string \<Rightarrow> goerror option \<Rightarrow> client_world \<Rightarrow> log_record" where
  "call_record E w method err w' =
     \<lparr>log_sink = sink_of (resolved (clc_logger (clientConfig w)) w),
      log_level = (if err = None then LevelInfo else LevelError),
      log_msg = (if err = None then ''RPC completed'' else ''RPC failed''),
      log_args = call_args E method err (now w' - now w) @
        (if err = None then [] else [ArgString ''error'', ArgString (status_message E err)])\<rparr>"

lemma Logging_client_apply:
  "Logging_client E c call method h w =
     (case h c call w of
        (Ret err, w') \<Rightarrow> (Ret err, w'\<lparr>log_trace := log_trace w' @ [call_record E w method err w']\<rparr>)
      | (Panic p, w') \<Rightarrow> (Panic p, w'))"
  by (auto simp: Logging_client_def call_record_def time_now_def comp_simps split: prod.splits outcome.splits)

lemma forwarder_Logging_client:
  fixes E :: "'md client_env"
  shows "forwarder (paired (Logging_client E :: ('md, 'call) unary_client_interceptor))"
proof
  let ?I = "paired (Logging_client E :: ('md, 'call) unary_client_interceptor)"
  fix a :: "'md ctx \<times> 'call" and i and w :: client_world
  obtain c call where a: "a = (c, call)" by (cases a)
  let ?post = "\<lambda>out. case out of
      (Ret err, w') \<Rightarrow> (Ret err, w'\<lparr>log_trace := log_trace w' @ [call_record E w i err w']\<rparr>)
    | (Panic p, w') \<Rightarrow> (Panic p, w')"
  show "\<exists>a' w' post. (\<forall>h. ?I a i h w = post (h a' w')) \<and> (\<forall>r w''. fst (post (Ret r, w'')) = Ret r)"
    by (rule exI [of _ a], rule exI [of _ w], rule exI [of _ ?post]) (simp add: a Logging_client_apply)
qed

interpretation logging_client: forwarder "paired (Logging_client E)" for E
  by (rule forwarder_Logging_client)

section \<open>Properties\<close>

text \<open>The deadline of a call below the timeout interceptor: the caller's own if there is one, even
  if it is later than the default; the instant of the call plus the default if there is none
  and a positive default is configured. The call is made exactly once, the context finishes no
  later than that instant, and everything else in the context is the caller's.\<close>

lemma timeout_deadline:
  shows "\<exists>c'. (\<forall>h. Timeout c call method h w = h c' call w) \<and>
           ctx_deadline c' = (case ctx_deadline c of Some t \<Rightarrow> Some t
             | None \<Rightarrow> if 0 < defaultTimeout (clientConfig w) then Some (now w + defaultTimeout (clientConfig w)) else None) \<and>
           (ctx_deadline c = None \<and> 0 < defaultTimeout (clientConfig w) \<longrightarrow>
              (\<exists>t e. done_at c' = Some (t, e) \<and> t \<le> now w + defaultTimeout (clientConfig w))) \<and>
           incoming_md c' = incoming_md c \<and> outgoing_md c' = outgoing_md c \<and> ctx_values c' = ctx_values c"
  by (rule exI [of _ "deadlined (defaultTimeout (clientConfig w)) (now w) c"])
    (auto simp: Timeout_apply deadlined_def with_timeout_def earlier_def split: option.splits)

end
