(* ===== verification/Retry.thy ===== *)
theory Retry
  imports Client_Config
begin

text \<open>
  \<^verbatim>\<open>internal/client/interceptor/retry.go\<close>: the retry loop, the backoff computation on 64-bit
  durations with its shift cap and overflow check, and the retryable codes. The loop
  \<^verbatim>\<open>for attempt := range cfg.retryMax + 1\<close> runs as many times as the wrapped sum says, so it is a
  recursion over that number.
\<close>

section \<open>Definitions\<close>

definition isRetryable :: "code \<Rightarrow> code list \<Rightarrow> bool" where
  "isRetryable c retryable \<longleftrightarrow> c \<in> set retryable"

definition maxBackoffShift :: int where
  "maxBackoffShift = 62"

definition rand_Int64N :: "int \<Rightarrow> ('a process_scheme, int) comp" where
  \<comment> \<open>\<^verbatim>\<open>rand.Int64N\<close>, which panics on a bound that is not positive\<close>
  "rand_Int64N n = (\<lambda>w. if n \<le> 0 then (Panic (PanicString ''invalid argument to Int64N''), w)
                        else (Ret (rand_src w 0 mod n), w\<lparr>rand_src := (\<lambda>i. rand_src w (Suc i))\<rparr>))"

definition backoffDuration :: "int \<Rightarrow> int \<Rightarrow> ('a process_scheme, int) comp" where
  "backoffDuration attempt base =
     (if base \<le> 0 then ret 0
      else
        let attempt = (if attempt > maxBackoffShift then maxBackoffShift else attempt);
            expBackoff = i64 (base * i64 (2 ^ nat attempt));
            expBackoff = (if expBackoff \<le> 0 then max_int64 else expBackoff);
            halfBackoff = go_div expBackoff 2
        in if halfBackoff \<le> 0 then ret expBackoff
           else bindc (rand_Int64N halfBackoff) (\<lambda>jitter. ret (i64 (halfBackoff + jitter))))"

definition warn_args :: "string \<Rightarrow> int \<Rightarrow> int \<Rightarrow> int \<Rightarrow> string \<Rightarrow> log_arg list" where
  "warn_args method attempt retries wait msg =
     [ArgString ''method'', ArgString method, ArgString ''attempt'', ArgInt (i64 (attempt + 1)),
      ArgString ''max_retries'', ArgInt retries, ArgString ''backoff'', ArgDuration wait,
      ArgString ''error'', ArgString msg]"

definition ctx_finished :: "'md ctx \<Rightarrow> goerror option" where
  \<comment> \<open>\<^verbatim>\<open>ctx.Err()\<close> once the context is done\<close>
  "ctx_finished c = map_option (\<lambda>(t, e). ContextError e) (done_at c)"

fun retry_loop ::
  "'md client_env \<Rightarrow> client_config \<Rightarrow> 'md ctx \<Rightarrow> 'call \<Rightarrow> string \<Rightarrow> ('md, 'call, goerror option) invoker
     \<Rightarrow> nat \<Rightarrow> int \<Rightarrow> goerror option \<Rightarrow> goerror option ccomp" where
  "retry_loop E cfg c call method invoker 0 attempt lastErr = ret lastErr"
| "retry_loop E cfg c call method invoker (Suc n) attempt lastErr =
     bindc (invoker c call) (\<lambda>err.
       case err of
         None \<Rightarrow> ret None
       | Some e \<Rightarrow>
           (case from_error E (Some e) of ((code, msg), ok) \<Rightarrow>
              if \<not> ok \<or> \<not> isRetryable code (retryCodes cfg) then ret (Some e)
              else if attempt \<ge> retryMax cfg then ret (Some e)
              else
                bindc (backoffDuration attempt (retryBackoff cfg)) (\<lambda>wait.
                bindc (Resolve (clc_logger cfg)) (\<lambda>l.
                thenc (log_call l LevelWarn ''retrying RPC'' (warn_args method attempt (retryMax cfg) wait msg))
                (bindc (select_timer_done wait (map_option fst (done_at c))) (\<lambda>fired.
                   if fired then retry_loop E cfg c call method invoker n (attempt + 1) (Some e)
                   else ret (ctx_finished c)))))))"

definition Retry :: "'md client_env \<Rightarrow> ('md, 'call) unary_client_interceptor" where
  "Retry E c call method invoker =
     bindc getConfig_client (\<lambda>cfg.
       if retryMax cfg \<le> 0 then invoker c call
       else retry_loop E cfg c call method invoker (nat (i64 (retryMax cfg + 1))) 0 None)"

section \<open>The backoff\<close>

lemma rand_Int64N_apply:
  "0 < n \<Longrightarrow> rand_Int64N n w = (Ret (rand_src w 0 mod n), w\<lparr>rand_src := (\<lambda>i. rand_src w (Suc i))\<rparr>)"
  by (simp add: rand_Int64N_def)

definition exp_backoff :: "int \<Rightarrow> int \<Rightarrow> int" where
  \<comment> \<open>the duration before jitter, as the code computes it\<close>
  "exp_backoff attempt base =
     (let p = i64 (base * i64 (2 ^ nat (min attempt maxBackoffShift))) in if p \<le> 0 then max_int64 else p)"

lemma exp_backoff_range: "0 < exp_backoff attempt base \<and> exp_backoff attempt base \<le> max_int64"
  using i64_range [of "base * i64 (2 ^ nat (min attempt maxBackoffShift))"]
  by (auto simp: exp_backoff_def Let_def max_int64_def)

lemma shift_in_range: "attempt \<le> 62 \<Longrightarrow> i64 (2 ^ nat attempt) = 2 ^ nat attempt"
proof -
  assume "attempt \<le> 62"
  then have "(2 :: int) ^ nat attempt \<le> 2 ^ 62" by (intro power_increasing) auto
  moreover have "(0 :: int) < 2 ^ nat attempt" by simp
  ultimately show ?thesis by (intro i64_nonneg) (simp_all add: max_int64_def)
qed

lemma exp_backoff_exact:
  assumes "0 < base" "0 \<le> attempt" "base * 2 ^ nat attempt \<le> max_int64"
  shows "exp_backoff attempt base = base * 2 ^ nat attempt"
proof -
  have "attempt \<le> 62"
  proof (rule ccontr)
    assume "\<not> attempt \<le> 62"
    then have "(2 :: int) ^ 63 \<le> 2 ^ nat attempt" by (intro power_increasing) auto
    also have "\<dots> \<le> base * 2 ^ nat attempt" using assms(1) by simp
    finally show False using assms(3) by (simp add: max_int64_def)
  qed
  moreover have pos: "0 < base * 2 ^ nat attempt" using assms(1) by simp
  moreover have "i64 (base * 2 ^ nat attempt) = base * 2 ^ nat attempt"
    using pos assms(3) by (intro i64_nonneg) auto
  ultimately show ?thesis by (simp add: exp_backoff_def maxBackoffShift_def shift_in_range Let_def min_def)
qed

lemma backoff_run:
  assumes "0 < base"
  shows "\<exists>r rs. backoffDuration attempt base w = (Ret r, w\<lparr>rand_src := rs\<rparr>) \<and>
           (let x = exp_backoff attempt base in x div 2 \<le> r \<and> r \<le> x \<and> 0 < r \<and> (1 < x \<longrightarrow> r < x))"
proof -
  let ?x = "exp_backoff attempt base"
  have x: "0 < ?x" "?x \<le> max_int64" using exp_backoff_range by blast+
  have half: "go_div ?x 2 = ?x div 2" using x by (intro go_div_nonneg) auto
  have unfold: "backoffDuration attempt base =
      (if ?x div 2 \<le> 0 then ret ?x else bindc (rand_Int64N (?x div 2)) (\<lambda>j. ret (i64 (?x div 2 + j))))"
    using assms half by (auto simp: backoffDuration_def exp_backoff_def Let_def min_def)
  show ?thesis
  proof (cases "?x div 2 \<le> 0")
    case True
    then have "?x = 1" using x by linarith
    then have "backoffDuration attempt base w = (Ret 1, w\<lparr>rand_src := rand_src w\<rparr>)"
      by (simp add: unfold ret_apply)
    then show ?thesis using \<open>?x = 1\<close>
      by (intro exI [of _ 1] exI [of _ "rand_src w"]) (simp add: Let_def)
  next
    case False
    let ?j = "rand_src w 0 mod (?x div 2)"
    have j: "0 \<le> ?j" "?j < ?x div 2" using False by (simp_all add: pos_mod_bound)
    have r: "?x div 2 + ?j < ?x" using j by linarith
    then have "i64 (?x div 2 + ?j) = ?x div 2 + ?j"
      using x j False by (intro i64_nonneg) linarith+
    then have "backoffDuration attempt base w
        = (Ret (?x div 2 + ?j), w\<lparr>rand_src := (\<lambda>i. rand_src w (Suc i))\<rparr>)"
      using False by (simp add: unfold bindc_apply ret_apply rand_Int64N_apply)
    moreover have "0 < ?x div 2 + ?j" using j False by linarith
    ultimately show ?thesis using j r
      by (intro exI [of _ "?x div 2 + ?j"] exI [of _ "\<lambda>i. rand_src w (Suc i)"]) (auto simp: Let_def)
  qed
qed

text \<open>C37. As long as \<^verbatim>\<open>base\<close> times two to the attempt fits in 64 bits, the wait is positive, at least
  half of it and at most it, whatever the random source delivers, and the computation never
  panics.\<close>

theorem backoff_bounds:
  assumes "0 < base" "0 \<le> attempt" "base * 2 ^ nat attempt \<le> max_int64"
    and "backoffDuration attempt base w = (out, w')"
  shows "\<exists>r. out = Ret r \<and> 0 < r \<and> (base * 2 ^ nat attempt) div 2 \<le> r \<and> r \<le> base * 2 ^ nat attempt"
  using backoff_run [OF assms(1), of attempt w] exp_backoff_exact [OF assms(1-3)] assms(4)
  by (auto simp: Let_def)

theorem backoff_bounds_witness:
  "\<exists>r w'. backoffDuration 3 second sample_client = (Ret r, w') \<and> 4 * second \<le> r \<and> r \<le> 8 * second"
proof -
  obtain out w' where run: "backoffDuration 3 second sample_client = (out, w')" by fastforce
  have fits: "second * 2 ^ nat 3 \<le> max_int64" by (simp add: max_int64_def)
  show ?thesis using backoff_bounds [OF _ _ fits run] run by auto
qed

text \<open>The overflow check misses products that wrap around to a positive number: with a base of
  2147483649 nanoseconds the wait after 33 failed attempts is under nine seconds for every
  random source, though the wait after 31 is over seventy years.\<close>

theorem backoff_wraps_around:
  "(\<exists>r. fst (backoffDuration 33 2147483649 w) = Ret r \<and> r < 9 * second) \<and>
   (\<exists>r. fst (backoffDuration 31 2147483649 w) = Ret r \<and> 70 * 365 * 24 * 60 * minute < r)"
proof -
  have x: "exp_backoff 33 2147483649 = 2 ^ 33" "exp_backoff 31 2147483649 = 2 ^ 62 + 2 ^ 31"
    by (simp_all add: exp_backoff_def i64_def maxBackoffShift_def max_int64_def)
  from backoff_run [of 2147483649 33 w] backoff_run [of 2147483649 31 w] show ?thesis
    by (auto simp: x Let_def)
qed

section \<open>The loop\<close>

text \<open>One failed attempt that is tried again: the invocation, and what the loop does to the state
  before the next one (one Warn record, a wait, randomness).\<close>

definition retried ::
  "'md client_env \<Rightarrow> client_config \<Rightarrow> 'md ctx \<Rightarrow> 'call \<Rightarrow> string \<Rightarrow> ('md, 'call, goerror option) invoker
     \<Rightarrow> int \<Rightarrow> client_world \<Rightarrow> goerror \<Rightarrow> client_world \<Rightarrow> bool" where
  "retried E cfg c call method h attempt w e w2 \<longleftrightarrow>
     (\<exists>w1 code msg wait rs t s.
        h c call w = (Ret (Some e), w1) \<and> from_error E (Some e) = ((code, msg), True) \<and>
        isRetryable code (retryCodes cfg) \<and>
        fst (backoffDuration attempt (retryBackoff cfg) w1) = Ret wait \<and> now w1 + max 0 wait \<le> t \<and>
        w2 = w1\<lparr>rand_src := rs, now := t, sched := s,
          log_trace := log_trace w1 @ [\<lparr>log_sink = sink_of (resolved (clc_logger cfg) w1), log_level = LevelWarn,
            log_msg = ''retrying RPC'', log_args = warn_args method attempt (retryMax cfg) wait msg\<rparr>]\<rparr>)"

fun attempts ::
  "'md client_env \<Rightarrow> client_config \<Rightarrow> 'md ctx \<Rightarrow> 'call \<Rightarrow> string \<Rightarrow> ('md, 'call, goerror option) invoker
     \<Rightarrow> int \<Rightarrow> client_world \<Rightarrow> goerror list \<Rightarrow> client_world \<Rightarrow> bool" where
  "attempts E cfg c call method h k w [] w' = (w' = w)"
| "attempts E cfg c call method h k w (e # es) w' =
     (\<exists>w2. retried E cfg c call method h k w e w2 \<and> attempts E cfg c call method h (k + 1) w2 es w')"

definition gives_up :: "'md client_env \<Rightarrow> client_config \<Rightarrow> goerror option outcome \<Rightarrow> bool" where
  \<comment> \<open>an outcome that is never tried again\<close>
  "gives_up E cfg out \<longleftrightarrow>
     (case out of
        Ret (Some e) \<Rightarrow> \<not> snd (from_error E (Some e)) \<or> \<not> isRetryable (status_code E (Some e)) (retryCodes cfg)
      | _ \<Rightarrow> True)"

lemma backoff_returns: "\<exists>r rs. backoffDuration attempt base w = (Ret r, w\<lparr>rand_src := rs\<rparr>) \<and> 0 \<le> r"
proof (cases "0 < base")
  case True
  from backoff_run [OF this, of attempt w] show ?thesis by (fastforce simp: Let_def)
next
  case False
  then have "backoffDuration attempt base w = (Ret 0, w\<lparr>rand_src := rand_src w\<rparr>)"
    by (simp add: backoffDuration_def ret_apply)
  then show ?thesis by blast
qed

lemma loop_body:
  assumes "h c call w = (Ret (Some e), w1)" "from_error E (Some e) = ((code, msg), True)"
    and "isRetryable code (retryCodes cfg)" "k < retryMax cfg"
  shows "\<exists>w2. (retried E cfg c call method h k w e w2 \<and>
             retry_loop E cfg c call method h (Suc n) k prev w = retry_loop E cfg c call method h n (k + 1) (Some e) w2) \<or>
           (\<exists>t x. done_at c = Some (t, x) \<and> t \<le> now w2 \<and>
             retry_loop E cfg c call method h (Suc n) k prev w = (Ret (Some (ContextError x)), w2))"
proof -
  obtain r rs where dur: "backoffDuration k (retryBackoff cfg) w1 = (Ret r, w1\<lparr>rand_src := rs\<rparr>)" "0 \<le> r"
    using backoff_returns by blast
  let ?wl = "w1\<lparr>rand_src := rs, log_trace := log_trace w1 @ [\<lparr>log_sink = sink_of (resolved (clc_logger cfg) w1),
      log_level = LevelWarn, log_msg = ''retrying RPC'', log_args = warn_args method k (retryMax cfg) r msg\<rparr>]\<rparr>"
  have res: "resolved l (w1\<lparr>rand_src := rs\<rparr>) = resolved l w1" for l
    by (cases l) (simp_all add: resolved_def)
  obtain sel w2 where sel: "select_timer_done r (map_option fst (done_at c)) ?wl = (sel, w2)" by fastforce
  obtain t s b where w2: "w2 = ?wl\<lparr>now := t, sched := s\<rparr>" "sel = Ret b"
    using select_timer_done_only_clock [OF sel] by auto
  have run: "retry_loop E cfg c call method h (Suc n) k prev w =
      (if b then retry_loop E cfg c call method h n (k + 1) (Some e) w2 else (Ret (ctx_finished c), w2))"
    using assms dur(1) sel w2(2) by (simp add: comp_simps res)
  show ?thesis
  proof (cases b)
    case True
    then have "now w1 + max 0 r \<le> t" using select_timer_fired sel w2 by fastforce
    then have "retried E cfg c call method h k w e w2"
      using assms dur unfolding retried_def w2(1)
      by (intro exI [of _ w1] exI [of _ code] exI [of _ msg] exI [of _ r] exI [of _ rs] exI [of _ t] exI [of _ s]) simp
    then show ?thesis using run True by auto
  next
    case False
    then show ?thesis using run select_timer_cancelled sel w2(2) by (fastforce simp: ctx_finished_def)
  qed
qed

lemma loop_spec:
  assumes "retry_loop E cfg c call method h (Suc n) k prev w = (out, w')" "k + int n = retryMax cfg"
  shows "\<exists>es wn. attempts E cfg c call method h k w es wn \<and> length es \<le> n \<and>
           (h c call wn = (out, w') \<and> (length es = n \<or> gives_up E cfg out) \<or>
            (\<exists>e t x. fst (h c call wn) = Ret (Some e) \<and> length es < n \<and>
               done_at c = Some (t, x) \<and> t \<le> now w' \<and> out = Ret (Some (ContextError x))))"
  using assms
proof (induction n arbitrary: k prev w)
  case 0
  show ?case
    by (rule exI [of _ "[]"]) (use 0 in \<open>auto simp: comp_simps split: prod.splits outcome.splits option.splits if_splits\<close>)
next
  case (Suc n)
  obtain o1 w1 where h: "h c call w = (o1, w1)" by fastforce
  show ?case
  proof (cases "gives_up E cfg o1")
    case True
    then have "(out, w') = (o1, w1)"
      using Suc.prems(1) h by (auto simp: gives_up_def comp_simps status_code_def split: prod.splits outcome.splits option.splits if_splits)
    then show ?thesis using h True by (intro exI [of _ "[]"] exI [of _ w]) simp
  next
    case False
    then obtain e where e: "o1 = Ret (Some e)" by (auto simp: gives_up_def split: outcome.splits option.splits)
    obtain code msg where st: "from_error E (Some e) = ((code, msg), True)" "isRetryable code (retryCodes cfg)"
      using False e by (cases "from_error E (Some e)") (auto simp: gives_up_def status_code_def)
    have "k < retryMax cfg" using Suc.prems(2) by simp
    from loop_body [OF _ st this, of h c call w w1 "method" "Suc n" prev] h e
    obtain w2 where w2: "retried E cfg c call method h k w e w2 \<and> retry_loop E cfg c call method h (Suc n) (k + 1) (Some e) w2 = (out, w')
        \<or> (\<exists>t x. done_at c = Some (t, x) \<and> t \<le> now w2 \<and> (out, w') = (Ret (Some (ContextError x)), w2))"
      using Suc.prems(1) by metis
    then show ?thesis
    proof
      assume again: "retried E cfg c call method h k w e w2 \<and> retry_loop E cfg c call method h (Suc n) (k + 1) (Some e) w2 = (out, w')"
      have "k + 1 + int n = retryMax cfg" using Suc.prems(2) by simp
      from Suc.IH [OF conjunct2 [OF again] this] obtain es wn where IH:
        "attempts E cfg c call method h (k + 1) w2 es wn" "length es \<le> n"
        "h c call wn = (out, w') \<and> (length es = n \<or> gives_up E cfg out) \<or>
          (\<exists>e t x. fst (h c call wn) = Ret (Some e) \<and> length es < n \<and>
             done_at c = Some (t, x) \<and> t \<le> now w' \<and> out = Ret (Some (ContextError x)))" by blast
      show ?thesis
        by (rule exI [of _ "e # es"], rule exI [of _ wn]) (use IH again in auto)
    next
      assume "\<exists>t x. done_at c = Some (t, x) \<and> t \<le> now w2 \<and> (out, w') = (Ret (Some (ContextError x)), w2)"
      then show ?thesis using h e by (intro exI [of _ "[]"] exI [of _ w]) auto
    qed
  qed
qed

lemma retry_spec:
  assumes "0 < retryMax (clientConfig w)" "retryMax (clientConfig w) < max_int64"
    and "Retry E c call method h w = (out, w')"
  shows "\<exists>es wn. attempts E (clientConfig w) c call method h 0 w es wn \<and> int (length es) \<le> retryMax (clientConfig w) \<and>
           (h c call wn = (out, w') \<and> (int (length es) = retryMax (clientConfig w) \<or> gives_up E (clientConfig w) out) \<or>
            (\<exists>e t x. fst (h c call wn) = Ret (Some e) \<and> int (length es) < retryMax (clientConfig w) \<and>
               done_at c = Some (t, x) \<and> t \<le> now w' \<and> out = Ret (Some (ContextError x))))"
proof -
  let ?cfg = "clientConfig w"
  obtain n where n: "retryMax ?cfg = int n" using assms(1) by (metis nonneg_int_cases less_imp_le)
  have "i64 (retryMax ?cfg + 1) = retryMax ?cfg + 1" using assms(1,2) by (intro i64_nonneg) auto
  then have "retry_loop E ?cfg c call method h (Suc n) 0 None w = (out, w')"
    using assms(1,3) n by (simp add: Retry_def comp_simps nat_add_distrib del: retry_loop.simps)
  from loop_spec [OF this] n show ?thesis by auto
qed

text \<open>C15. What a retried call does, for \<^verbatim>\<open>maxRetries\<close> from 1 up to one below the largest integer: the
  invoker is called at most \<^verbatim>\<open>maxRetries + 1\<close> times, one after the other; every call but the last
  failed with a retryable status, left one Warn record with its number and wait, and was
  followed by a pause of at least that wait; and the result is that of the last call, which was
  a success, not retryable, or the last one allowed, unless the caller's context finished
  during a pause, and then it is the context's error.\<close>

theorem retry_attempts:
  assumes "0 < retryMax (clientConfig w)" "retryMax (clientConfig w) < max_int64"
    and "Retry E c call method h w = (out, w')"
  shows "\<exists>es wn. attempts E (clientConfig w) c call method h 0 w es wn \<and> int (length es) \<le> retryMax (clientConfig w) \<and>
           (h c call wn = (out, w') \<and> (int (length es) = retryMax (clientConfig w) \<or> gives_up E (clientConfig w) out) \<or>
            (\<exists>e t x. fst (h c call wn) = Ret (Some e) \<and> int (length es) < retryMax (clientConfig w) \<and>
               done_at c = Some (t, x) \<and> t \<le> now w' \<and> out = Ret (Some (ContextError x))))"
  using assms by (rule retry_spec)

theorem retry_attempts_witness:
  "\<exists>es wn. attempts sample_client_env (clientConfig (snd (WithRetry 2 0 sample_client))) sample_ctx () ''/a/B''
      (\<lambda>c call. ret (Some (StatusError Unavailable ''down''))) 0 (snd (WithRetry 2 0 sample_client)) es wn \<and>
    length es = 2"
proof -
  let ?w = "snd (WithRetry 2 0 sample_client)" and ?h = "\<lambda>c call. ret (Some (StatusError Unavailable ''down''))"
  have cfg: "retryMax (clientConfig ?w) = 2" "retryCodes (clientConfig ?w) = defaultRetryCodes"
    by (simp_all add: client_option_defs comp_simps sample_client_def initial_client_config_def)
  obtain out w' where run: "Retry sample_client_env sample_ctx () ''/a/B'' ?h ?w = (out, w')" by fastforce
  have "\<not> gives_up sample_client_env (clientConfig ?w) (Ret (Some (StatusError Unavailable ''down'')))"
    by (simp add: gives_up_def cfg defaultRetryCodes_def isRetryable_def status_code_def sample_client_env_def
        sample_from_error_def)
  moreover have "done_at sample_ctx = None" by (simp add: sample_ctx_def)
  ultimately show ?thesis
    using retry_attempts [OF _ _ run] by (auto simp: cfg(1) max_int64_def ret_apply)
qed

text \<open>With the largest integer as \<^verbatim>\<open>maxRetries\<close> the number of iterations wraps around to a
  negative one: the call reports success without the invoker ever being called.\<close>

theorem retry_overflow_skips_call:
  assumes "retryMax (clientConfig w) = max_int64"
  shows "Retry E c call method h w = (Ret None, w)"
proof -
  have "i64 (max_int64 + 1) = - (2 ^ 63)" by (simp add: i64_def max_int64_def)
  then show ?thesis using assms by (simp add: Retry_def comp_simps max_int64_def)
qed

theorem retry_overflow_skips_call_witness:
  "Retry sample_client_env sample_ctx () ''/a/B'' (\<lambda>c call. panicc NilDereference) (snd (WithRetry max_int64 0 sample_client))
     = (Ret None, snd (WithRetry max_int64 0 sample_client))"
  by (rule retry_overflow_skips_call) (simp add: client_option_defs comp_simps)

end
