(* ===== verification/Greeter.thy ===== *)
theory Greeter
  imports Server_Config Client_Config
begin

text \<open>
  \<^verbatim>\<open>internal/service/greeter\<close>: the service's unary and streaming handlers (\<^verbatim>\<open>greeter.go\<close>) and the
  client-side \<^verbatim>\<open>Caller\<close> (\<^verbatim>\<open>caller.go\<close>). The generated messages carry one string each, the name and
  the greeting, and are modelled by it. \<^verbatim>\<open>stream.Send\<close> is the library's, a parameter.
\<close>

section \<open>The service\<close>

record service =
  svc_log :: log_handler

definition NewService :: "log_handler \<Rightarrow> service" where
  "NewService l = \<lparr>svc_log = l\<rparr>"

definition hello :: "string \<Rightarrow> string" where
  "hello name = ''Hello, '' @ name @ ''!''"

definition SayHello :: "service \<Rightarrow> ('md, string, string) unary_handler" where
  "SayHello s c name =
     thenc (log_call (svc_log s) LevelInfo ''received SayHello request'' [ArgString ''name'', ArgString name])
       (ret (Some (hello name), None))"

fun send_greetings :: "(string \<Rightarrow> goerror option scomp) \<Rightarrow> int option \<Rightarrow> string list \<Rightarrow> goerror option scomp" where
  \<comment> \<open>the loop, with the instant at which the stream's context finishes\<close>
  "send_greetings send td [] = ret None"
| "send_greetings send td (g # gs) =
     bindc (send g) (\<lambda>err.
       case err of
         Some e \<Rightarrow> ret (Some (WrapError ''failed to send greeting: '' e))
       | None \<Rightarrow>
           if gs \<noteq> [] then thenc (select_timer_done (500 * millisecond) td) (send_greetings send td gs)
           else send_greetings send td gs)"

definition greetings :: "string \<Rightarrow> string list" where
  "greetings name = [hello name, ''How are you, '' @ name @ ''?'', ''Good to see you, '' @ name @ ''!'']"

definition SayHelloServerStream :: "service \<Rightarrow> (string \<Rightarrow> goerror option scomp) \<Rightarrow> string \<Rightarrow> 'md ctx \<Rightarrow> goerror option scomp" where
  "SayHelloServerStream s send name c =
     thenc (log_call (svc_log s) LevelInfo ''received SayHelloServerStream request'' [ArgString ''name'', ArgString name])
       (send_greetings send (map_option fst (done_at c)) (greetings name))"

section \<open>The caller\<close>

text \<open>The generated client's two methods are parameters of the caller. What a call delivers is the type
  \<open>'r\<close>: the reply and the error and, for a call with the option \<^verbatim>\<open>grpc.Header\<close>, the header.\<close>

record ('md, 'r, 'cs) caller =
  cl_say_hello :: "('md, string, 'r) invoker"
  cl_open_stream :: "('md, string, 'cs) invoker"
  cl_log :: log_handler

definition NewCaller ::
  "('md, string, 'r) invoker \<Rightarrow> ('md, string, 'cs) invoker \<Rightarrow> log_handler \<Rightarrow> ('md, 'r, 'cs) caller" where
  "NewCaller say_hello open_stream l = \<lparr>cl_say_hello = say_hello, cl_open_stream = open_stream, cl_log = l\<rparr>"

definition Caller_SayHello :: "('md, 'r, 'cs) caller \<Rightarrow> 'md ctx \<Rightarrow> string \<Rightarrow> 'r ccomp" where
  "Caller_SayHello k c name =
     thenc (log_call (cl_log k) LevelInfo ''calling SayHello'' [ArgString ''name'', ArgString name]) (cl_say_hello k c name)"

definition Caller_SayHelloServerStream :: "('md, 'r, 'cs) caller \<Rightarrow> 'md ctx \<Rightarrow> string \<Rightarrow> 'cs ccomp" where
  "Caller_SayHelloServerStream k c name =
     thenc (log_call (cl_log k) LevelInfo ''calling SayHelloServerStream'' [ArgString ''name'', ArgString name]) (cl_open_stream k c name)"

section \<open>The stream\<close>

text \<open>Messages delivered one after the other, each sent at least half a second after the one before was
  accepted, unless the context had finished.\<close>

inductive delivered :: "(string \<Rightarrow> goerror option scomp) \<Rightarrow> int option \<Rightarrow> server_world \<Rightarrow> string list \<Rightarrow> server_world \<Rightarrow> bool"
  for send td where
  deliver_last: "send g w = (Ret None, w') \<Longrightarrow> delivered send td w [g] w'"
| deliver_more: "send g w = (Ret None, w1) \<Longrightarrow> w2 = w1\<lparr>now := t, sched := s\<rparr> \<Longrightarrow>
    now w1 + 500 * millisecond \<le> t \<or> (\<exists>d. td = Some d \<and> d \<le> t) \<Longrightarrow>
    delivered send td w2 gs w' \<Longrightarrow> delivered send td w (g # gs) w'"

lemma send_greetings_ok:
  "send_greetings send td gs w = (Ret None, w') \<Longrightarrow> gs \<noteq> [] \<Longrightarrow> delivered send td w gs w'"
proof (induction gs arbitrary: w)
  case (Cons g gs)
  obtain out w1 where g: "send g w = (out, w1)" by fastforce
  then have out: "out = Ret None" using Cons.prems(1) by (auto simp: comp_simps split: outcome.splits option.splits)
  show ?case
  proof (cases "gs = []")
    case True
    then show ?thesis using Cons.prems(1) g out deliver_last by (auto simp: comp_simps)
  next
    case False
    obtain sel w2 where sel: "select_timer_done (500 * millisecond) td w1 = (sel, w2)" by fastforce
    obtain t s b where w2: "w2 = w1\<lparr>now := t, sched := s\<rparr>" "sel = Ret b"
      using select_timer_done_only_clock [OF sel] by auto
    have "now w1 + 500 * millisecond \<le> t \<or> (\<exists>d. td = Some d \<and> d \<le> t)"
      using select_timer_fired [of "500 * millisecond" td w1 w2] select_timer_cancelled [of "500 * millisecond" td w1 w2]
        sel w2 by (cases b) auto
    moreover have "send_greetings send td gs w2 = (Ret None, w')"
      using Cons.prems(1) g out False sel w2(2) by (simp add: comp_simps)
    ultimately show ?thesis using Cons.IH [OF _ False] deliver_more [OF _ w2(1)] g out by blast
  qed
qed simp

lemma send_greetings_error:
  "send_greetings send td gs w = (Ret (Some e), w') \<Longrightarrow>
     \<exists>g w1 e'. g \<in> set gs \<and> send g w1 = (Ret (Some e'), w') \<and> e = WrapError ''failed to send greeting: '' e'"
proof (induction gs arbitrary: w)
  case (Cons g gs)
  obtain out w1 where g: "send g w = (out, w1)" by fastforce
  show ?case
  proof (cases "out = Ret None")
    case True
    obtain sel w2 where sel: "select_timer_done (500 * millisecond) td w1 = (sel, w2)" by fastforce
    obtain b where "sel = Ret b" using select_timer_done_only_clock [OF sel] by auto
    then obtain u where "send_greetings send td gs u = (Ret (Some e), w')"
      using Cons.prems g True sel by (auto simp: comp_simps split: if_splits)
    then show ?thesis using Cons.IH by fastforce
  next
    case False
    then show ?thesis using Cons.prems g
      by (intro exI [of _ g] exI [of _ w]) (auto simp: comp_simps split: outcome.splits option.splits)
  qed
qed (simp add: ret_apply)

text \<open>The streaming handler returns nil only after all three greetings have been accepted by the
  stream, in order, half a second apart unless the client had gone; any error it returns is the
  wrapped error of a send, and nothing is sent after it.\<close>

theorem stream_greets_in_order:
  assumes "SayHelloServerStream s send name c w = (Ret err, w')"
  shows "case err of
           None \<Rightarrow> delivered send (map_option fst (done_at c)) (snd (log_call (svc_log s) LevelInfo
             ''received SayHelloServerStream request'' [ArgString ''name'', ArgString name] w))
             [''Hello, '' @ name @ ''!'', ''How are you, '' @ name @ ''?'', ''Good to see you, '' @ name @ ''!''] w'
         | Some e \<Rightarrow> \<exists>g w1 e'. g \<in> set (greetings name) \<and> send g w1 = (Ret (Some e'), w') \<and>
             e = WrapError ''failed to send greeting: '' e'"
proof -
  have run: "send_greetings send (map_option fst (done_at c)) (greetings name)
      (snd (log_call (svc_log s) LevelInfo ''received SayHelloServerStream request'' [ArgString ''name'', ArgString name] w))
    = (Ret err, w')"
    using assms by (simp add: SayHelloServerStream_def comp_simps)
  show ?thesis
  proof (cases err)
    case None
    then show ?thesis using send_greetings_ok [of send _ "greetings name"] run by (simp add: greetings_def hello_def)
  next
    case (Some e)
    then show ?thesis using send_greetings_error run by fastforce
  qed
qed

theorem stream_greets_in_order_witness:
  "\<exists>w w'. delivered (\<lambda>g. ret None) None w [''Hello, Gopher!'', ''How are you, Gopher?'', ''Good to see you, Gopher!''] w'"
proof -
  obtain out w' where run: "SayHelloServerStream (NewService SlogHandler) (\<lambda>g. ret None) ''Gopher'' sample_ctx sample_world = (out, w')"
    by fastforce
  then have "out = Ret None"
    by (simp add: SayHelloServerStream_def greetings_def comp_simps sample_ctx_def select_timer_done_def Let_def)
  from stream_greets_in_order [OF run [unfolded this]] show ?thesis
    by (simp add: sample_ctx_def) blast
qed

end
