(* ===== verification/Programs.thy ===== *)
theory Programs
  imports Server_Run Request_Id Client Client_Calls Retry Greeter
begin

text \<open>
  The programs of the repository as they configure the two packages: \<^verbatim>\<open>cmd/server/main.go\<close> and the
  options of \<^verbatim>\<open>cmd/client/main.go\<close>, which is continued in \<open>Client_Program\<close>.
\<close>

section \<open>The server program\<close>

definition main_service_config :: string where
  "main_service_config = ''{\"loadBalancingConfig\":[{\"round_robin\":{}}]}''"

definition main_unary :: "'md srv_env \<Rightarrow> ('md, 'req, 'resp) unary_interceptor list" where
  "main_unary E = [RequestID E, Recovery, Logging E]"

definition main_stream :: "'md srv_env \<Rightarrow> ('md, 'srv) stream_interceptor list" where
  "main_stream E = [StreamRequestID E, StreamRecovery, StreamLogging E]"

type_synonym ('md, 'req, 'resp, 'srv) app_server =
  "(('md, 'req, 'resp) unary_interceptor, ('md, 'srv) stream_interceptor) server"

definition server_main :: "'md srv_env \<Rightarrow> nat \<Rightarrow> (service \<times> ('md, 'req, 'resp, 'srv) app_server) scomp" where
  \<comment> \<open>up to the call of \<^verbatim>\<open>Run\<close>; \<open>register\<close> is the \<^verbatim>\<open>Register\<close> method of the service\<close>
  "server_main E register =
     bindc Default (\<lambda>l.
     bindc (New [WithPort ''50051'', WithReflection, server_WithLogger (Some l), WithUnaryInterceptors (main_unary E),
              WithStreamInterceptors (main_stream E), WithDefaultServiceConfig main_service_config]) (\<lambda>srv.
     ret (NewService (server_Logger srv), RegisterService [register] srv)))"

datatype prog_exit = Completed | Fatal string goerror   \<comment> \<open>the text before the error, and the error\<close>

definition server_exit :: "goerror option \<Rightarrow> prog_exit" where
  \<comment> \<open>the end of the server program, given what \<^verbatim>\<open>Run\<close> returned\<close>
  "server_exit err = (case err of None \<Rightarrow> Completed | Some e \<Rightarrow> Fatal [] e)"

section \<open>The client program\<close>

definition client_main_options ::
  "client_host \<Rightarrow> 'md client_env \<Rightarrow> log_handler
     \<Rightarrow> (('md, 'call) unary_client_interceptor, ('md, 'call, 'cs) stream_client_interceptor) client_option list" where
  "client_main_options H E l =
     [WithInsecure, client_WithLogger (Some l), client_WithDefaultTimeout (5 * second), client_WithRetry 3 second,
      client_WithUnaryInterceptors [Logging_client E, Timeout, Retry E],
      client_WithStreamInterceptors [StreamLogging_client E], WithLoadBalancing H ''round_robin'']"

lemma main_service_config_valid: "json_valid main_service_config" "main_service_config \<noteq> []"
  by code_simp+

text \<open>The program ends without an error only when a graceful shutdown was asked for and has drained.\<close>

lemma server_exit_graceful:
  assumes "run_reachable s" "main_at s = Returned r"
  shows "server_exit r = Completed \<longleftrightarrow> stop_called s"
    and "server_exit r = Completed \<Longrightarrow> in_flight s = 0 \<and> ctx_cancelled s"
  using run_reachable_inv [OF assms(1)] assms(2) by (auto simp: server_exit_def run_inv_def split: option.splits)

section \<open>Properties\<close>

text \<open>C40. The server program is configured as it reads: construction succeeds in any state, the
  interceptor package and the greeter service get the program's logger, and \<^verbatim>\<open>Run\<close> creates a plaintext server with the
  request-id, recovery and logging interceptors in this order and the greeter, health and
  reflection services, then listens on port 50051; only the listening can fail.\<close>

theorem server_main_starts:
  fixes out :: "(service \<times> ('md, 'req, 'resp, 'srv) app_server) outcome"
  assumes "server_main E register w = (out, w1)"
  shows "\<exists>svc srv. out = Ret (svc, srv) \<and> svc_log svc = default_handler w \<and> cfg_logger (defaultConfig w1) = Some (default_handler w) \<and>
           (\<exists>r srv' w2. run_start net_listen srv w1 = (Ret (r, srv'), w2) \<and>
             (case net_listen '':50051'' of
                Inl e \<Rightarrow> r = Inl (WrapError ''failed to listen on port 50051: '' e)
              | Inr lis \<Rightarrow> \<exists>g. r = Inr (g, lis) \<and> created_with g = [ChainUnary (main_unary E), ChainStream (main_stream E)] \<and>
                  registered g = [UserService register, HealthService, ReflectionService]))"
proof -
  define srv :: "('md, 'req, 'resp, 'srv) app_server" where "srv = (new_server (default_handler w))\<lparr>reflection := True, unaryInterceptors := main_unary E,
    streamInterceptors := main_stream E, serviceConfig := main_service_config, registrars := [register]\<rparr>"
  have "server_main E register w = (Ret (NewService (default_handler w), srv), w\<lparr>defaultConfig := (defaultConfig w)\<lparr>cfg_logger := Some (default_handler w)\<rparr>\<rparr>)"
    by (simp add: server_main_def New_def Default_def server_option_defs server_WithLogger_def RegisterService_def server_Logger_def
        srv_def new_server_def comp_simps resolved_def main_service_config_valid)
  then have out: "out = Ret (NewService (default_handler w), srv)" "w1 = w\<lparr>defaultConfig := (defaultConfig w)\<lparr>cfg_logger := Some (default_handler w)\<rparr>\<rparr>"
    using assms by simp_all
  have fields: "configErr srv = None" "listener srv = None" "port srv = ''50051''" "tlsConfig srv = None"
    "unaryInterceptors srv = main_unary E" "streamInterceptors srv = main_stream E" "grpcOpts srv = []"
    "registrars srv = [register]" "reflection srv"
    by (simp_all add: srv_def new_server_def)
  have ne: "unaryInterceptors srv \<noteq> []" "streamInterceptors srv \<noteq> []" by (simp_all add: srv_def main_unary_def main_stream_def)
  obtain g s1 w2 where started: "setupServer srv w1 = (Ret (g, s1), w2)" "listener s1 = None" "port s1 = ''50051''"
    using setupServer_returns [of srv w1] fields(2,3) by auto
  have g: "created_with g = [ChainUnary (main_unary E), ChainStream (main_stream E)]"
    "registered g = [UserService register, HealthService, ReflectionService]"
    using started(1) fields ne by (auto simp: setupServer_def buildOptions_def Let_def comp_simps)
  show ?thesis
    by (cases "net_listen '':50051''")
      (use out g started fields in \<open>auto simp: NewService_def run_start_def bindc_apply ret_apply Let_def\<close>)
qed

theorem server_main_starts_witness:
  "\<exists>svc. \<exists>srv :: (string \<Rightarrow> string list, unit, unit, unit) app_server.
     \<exists>w1 g srv' w2. server_main sample_env 7 sample_world = (Ret (svc, srv), w1) \<and>
       run_start (\<lambda>a. Inr 3) srv w1 = (Ret (Inr (g, 3), srv'), w2) \<and> registered g = [UserService 7, HealthService, ReflectionService]"
proof -
  obtain out :: "(service \<times> (string \<Rightarrow> string list, unit, unit, unit) app_server) outcome" and w1 where run: "server_main sample_env 7 sample_world = (out, w1)" by fastforce
  from server_main_starts [OF run, of "\<lambda>a. Inr 3"] show ?thesis using run by auto
qed

end
