(* ===== verification/Client_Auth.thy ===== *)
theory Client_Auth
  imports Client_Config
begin

text \<open>
  \<^verbatim>\<open>internal/client/interceptor/auth.go\<close>: the token of the configured source is put into the
  outgoing metadata of a call, or the call is refused without being made.
\<close>

definition auth_failed :: goerror where
  "auth_failed = StatusError Unauthenticated ''authentication failed''"

definition injectToken ::
  "'md client_env \<Rightarrow> 'md ctx \<Rightarrow> token_source option \<Rightarrow> log_handler \<Rightarrow> 'md ctx fallible ccomp" where
  "injectToken E c src l =
     (case src of
        None \<Rightarrow> ret (c, None)
      | Some s \<Rightarrow>
          bindc (call_source E s c) (\<lambda>(c, err).
            case err of
              Some e \<Rightarrow>
                thenc (log_call l LevelError ''token source failed'' [ArgString ''error'', ArgString (error_text E e)])
                  (ret (c, Some auth_failed))
            | None \<Rightarrow>
                (case string_value c TokenKey of
                   None \<Rightarrow> ret (c, Some auth_failed)
                 | Some token \<Rightarrow>
                     if token = [] then ret (c, Some auth_failed)
                     else
                       (let md = (case outgoing_md c of None \<Rightarrow> md_new E | Some m \<Rightarrow> md_copy E m);
                            md = md_set E md ''authorization'' [''Bearer '' @ token]
                        in ret (c\<lparr>outgoing_md := Some md\<rparr>, None)))))"

definition Auth_client :: "'md client_env \<Rightarrow> ('md, 'call) unary_client_interceptor" where
  "Auth_client E c call method invoker =
     bindc getConfig_client (\<lambda>cfg.
     bindc (Resolve (clc_logger cfg)) (\<lambda>l.
     bindc (injectToken E c (tokenSource cfg) l) (\<lambda>(c, err).
       case err of Some e \<Rightarrow> ret (Some e) | None \<Rightarrow> invoker c call)))"

definition StreamAuth_client :: "'md client_env \<Rightarrow> ('md, 'call, 'cs) stream_client_interceptor" where
  "StreamAuth_client E c call method streamer =
     bindc getConfig_client (\<lambda>cfg.
     bindc (Resolve (clc_logger cfg)) (\<lambda>l.
     bindc (injectToken E c (tokenSource cfg) l) (\<lambda>(c, err).
       case err of Some e \<Rightarrow> ret (None, Some e) | None \<Rightarrow> streamer c call)))"

section \<open>Both are conduits\<close>

lemma Auth_client_apply:
  "Auth_client E c call method h w =
     (case injectToken E c (tokenSource (clientConfig w)) (resolved (clc_logger (clientConfig w)) w) w of
        (Ret (c', None), w') \<Rightarrow> h c' call w'
      | (Ret (c', Some e), w') \<Rightarrow> (Ret (Some e), w')
      | (Panic p, w') \<Rightarrow> (Panic p, w'))"
  "StreamAuth_client E c call method hs w =
     (case injectToken E c (tokenSource (clientConfig w)) (resolved (clc_logger (clientConfig w)) w) w of
        (Ret (c', None), w') \<Rightarrow> hs c' call w'
      | (Ret (c', Some e), w') \<Rightarrow> (Ret (None, Some e), w')
      | (Panic p, w') \<Rightarrow> (Panic p, w'))"
  by (auto simp: Auth_client_def StreamAuth_client_def comp_simps split: prod.splits outcome.splits option.splits)

lemma conduit_Auth_client:
  fixes E :: "'md client_env"
  shows "conduit (paired (Auth_client E :: ('md, 'call) unary_client_interceptor))"
proof
  let ?I = "paired (Auth_client E :: ('md, 'call) unary_client_interceptor)"
  fix a :: "'md ctx \<times> 'call" and i w
  obtain c call where a: "a = (c, call)" by (cases a)
  obtain out w' where inj: "injectToken E c (tokenSource (clientConfig w)) (resolved (clc_logger (clientConfig w)) w) w = (out, w')"
    by fastforce
  show "(\<exists>answer. \<forall>h. ?I a i h w = answer) \<or> (\<exists>a' w' post. (\<forall>h. ?I a i h w = post (h a' w')) \<and> (\<forall>out w''. fst (post (out, w'')) = out))"
  proof (cases "\<exists>c'. out = Ret (c', None)")
    case True
    then obtain c' where "out = Ret (c', None)" ..
    then show ?thesis using inj
      by (intro disjI2 exI [of _ "(c', call)"] exI [of _ w'] exI [of _ id]) (simp add: a Auth_client_apply)
  next
    case False
    then have "\<forall>h. ?I a i h w = ?I a i (\<lambda>_. panicc NilDereference) w" using inj
      by (auto simp: a Auth_client_apply split: outcome.splits option.splits)
    then show ?thesis by (intro disjI1) (rule exI)
  qed
qed

interpretation auth_client: conduit "paired (Auth_client E)" for E
  by (rule conduit_Auth_client)

section \<open>Properties\<close>

lemma injectToken_ok:
  assumes "md_laws E" "call_source E s c w = (Ret (c1, None), w1)" "string_value c1 TokenKey = Some token" "token \<noteq> []"
  shows "\<exists>md. injectToken E c (Some s) l w = (Ret (c1\<lparr>outgoing_md := Some md\<rparr>, None), w1) \<and>
           md_get E md ''authorization'' = [''Bearer '' @ token] \<and>
           (\<forall>k. k \<noteq> ''authorization'' \<longrightarrow> md_get E md k = (case outgoing_md c1 of None \<Rightarrow> [] | Some m \<Rightarrow> md_get E m k))"
  using assms md_laws_get [OF assms(1)]
  by (auto simp: injectToken_def bindc_apply ret_apply Let_def split: option.splits)

text \<open>An authenticated call carries exactly one authorization value, \<^verbatim>\<open>Bearer\<close> and the token of
  the source, replacing any the caller had put there; all other outgoing metadata and the rest
  of the context the source returned reach the invoker unchanged.\<close>

theorem token_injected:
  assumes "md_laws E" "tokenSource (clientConfig w) = Some s"
    and "call_source E s c w = (Ret (c1, None), w1)" "string_value c1 TokenKey = Some token" "token \<noteq> []"
  shows "\<exists>md. (\<forall>h. Auth_client E c call path h w = h (c1\<lparr>outgoing_md := Some md\<rparr>) call w1) \<and>
           md_get E md ''authorization'' = [''Bearer '' @ token] \<and>
           (\<forall>k. k \<noteq> ''authorization'' \<longrightarrow> md_get E md k = (case outgoing_md c1 of None \<Rightarrow> [] | Some m \<Rightarrow> md_get E m k))"
  using injectToken_ok [OF assms(1,3-5), of "resolved (clc_logger (clientConfig w)) w"] assms(2)
  by (auto simp: Auth_client_apply)

lemma sample_static:
  "tokenSource (clientConfig (snd (WithTokenSource (Some (StaticToken t)) sample_client))) = Some (StaticToken t)"
  by (simp add: client_option_defs comp_simps)

theorem token_injected_witness:
  "\<exists>md. (\<forall>h. Auth_client sample_client_env sample_ctx () ''/a/B'' h (snd (WithTokenSource (Some (StaticToken ''abc'')) sample_client))
        = h ((with_value sample_ctx TokenKey (StringValue ''abc''))\<lparr>outgoing_md := Some md\<rparr>) ()
            (snd (WithTokenSource (Some (StaticToken ''abc'')) sample_client))) \<and>
      md_get sample_client_env md ''authorization'' = [''Bearer abc'']"
proof -
  let ?w = "snd (WithTokenSource (Some (StaticToken ''abc'')) sample_client)"
  have "call_source sample_client_env (StaticToken ''abc'') sample_ctx ?w
      = (Ret (with_value sample_ctx TokenKey (StringValue ''abc''), None), ?w)"
    by (simp add: ret_apply)
  moreover have "string_value (with_value sample_ctx TokenKey (StringValue ''abc'')) TokenKey = Some ''abc''" by simp
  moreover have "''abc'' \<noteq> []" by simp
  ultimately obtain md where
    "\<forall>h. Auth_client sample_client_env sample_ctx () ''/a/B'' h ?w
       = h ((with_value sample_ctx TokenKey (StringValue ''abc''))\<lparr>outgoing_md := Some md\<rparr>) () ?w"
    "md_get sample_client_env md ''authorization'' = [''Bearer '' @ ''abc'']"
    using token_injected [OF sample_client_env_laws(2) sample_static, where path = "''/a/B''" and call = "()"]
    by blast
  then show ?thesis by (intro exI [of _ md]) simp
qed

text \<open>C36. No call goes out unauthenticated by accident: with a source configured, if the source fails
  or yields no token, the invoker is never called and the caller gets the one Unauthenticated
  error; the source's own error is in one log record and nowhere else.\<close>

theorem no_token_no_call:
  assumes "tokenSource (clientConfig w) = Some s" "call_source E s c w = (Ret (c1, err), w1)"
    and "err \<noteq> None \<or> string_value c1 TokenKey \<in> {None, Some []}"
  shows "Auth_client E c call method h w =
           (Ret (Some auth_failed),
            case err of None \<Rightarrow> w1
            | Some e \<Rightarrow> w1\<lparr>log_trace := log_trace w1 @
                [\<lparr>log_sink = sink_of (resolved (clc_logger (clientConfig w)) w), log_level = LevelError,
                  log_msg = ''token source failed'', log_args = [ArgString ''error'', ArgString (error_text E e)]\<rparr>]\<rparr>)"
  using assms by (auto simp: Auth_client_apply injectToken_def comp_simps split: option.splits)

theorem no_token_no_call_witness:
  "fst (Auth_client sample_client_env sample_ctx () ''/a/B'' (\<lambda>c call. ret None)
      (snd (WithTokenSource (Some (UserTokenSource 3)) sample_client))) = Ret (Some auth_failed)"
proof -
  let ?w = "snd (WithTokenSource (Some (UserTokenSource 3)) sample_client)"
  have "tokenSource (clientConfig ?w) = Some (UserTokenSource 3)" by (simp add: client_option_defs comp_simps)
  moreover have "call_source sample_client_env (UserTokenSource 3) sample_ctx ?w
      = (Ret (sample_ctx, Some (ForeignError 3 ''no token'')), ?w)"
    by (simp add: sample_client_env_def ret_apply)
  ultimately show ?thesis by (subst no_token_no_call) auto
qed

end
