(* ===== verification/Client_Chain.thy ===== *)
theory Client_Chain
  imports Client_Calls Retry Client_Auth
begin

text \<open>
  Calls through the client's interceptors in the order of \<^verbatim>\<open>cmd/client/main.go\<close>: logging around the
  default timeout around the retries around the transport. One deadline and one record cover
  all the attempts of a call.
\<close>

definition client_chain :: "'md client_env \<Rightarrow> ('md ctx \<times> 'call \<Rightarrow> string
    \<Rightarrow> ('md ctx \<times> 'call \<Rightarrow> goerror option ccomp) \<Rightarrow> goerror option ccomp) list" where
  "client_chain E = map paired [Logging_client E, Timeout, Retry E]"

lemma client_chain_run:
  "nest (client_chain E) (c, call) m h w =
     (case Retry E (deadlined (defaultTimeout (clientConfig w)) (now w) c) call m (\<lambda>c call. h (c, call)) w of
        (Ret err, w') \<Rightarrow> (Ret err, w'\<lparr>log_trace := log_trace w' @ [call_record E w m err w']\<rparr>)
      | (Panic p, w') \<Rightarrow> (Panic p, w'))"
  by (simp add: client_chain_def Logging_client_apply Timeout_apply)

lemma deadlined_done:
  assumes "0 < d" "ctx_deadline c = None"
  shows "ctx_deadline (deadlined d t c) = Some (t + d)"
    and "\<exists>u x. done_at (deadlined d t c) = Some (u, x) \<and> u \<le> t + d"
  using assms by (auto simp: deadlined_def with_timeout_def earlier_def split: option.splits)

text \<open>A call without a deadline of its own, with a default timeout and retries configured: all its
  attempts run under one context, whose deadline is the start of the call plus the default
  timeout; there are at most \<^verbatim>\<open>maxRetries + 1\<close> of them, every one but the last failed with a
  retryable code and was followed by its wait; the caller gets the outcome of the last attempt,
  or the context's error if the context finished during a wait; and the call leaves one record,
  of its final error and its whole duration, after all else.\<close>

theorem client_chain_bounded:
  fixes h :: "'md ctx \<times> 'call \<Rightarrow> goerror option ccomp"
  assumes "0 < defaultTimeout (clientConfig w)" "0 < retryMax (clientConfig w)" "retryMax (clientConfig w) < max_int64"
    and "ctx_deadline c = None" "nest (client_chain E) (c, call) m h w = (out, w')"
  shows "\<exists>c' es wn o1 w1.
           ctx_deadline c' = Some (now w + defaultTimeout (clientConfig w)) \<and>
           (\<exists>t x. done_at c' = Some (t, x) \<and> t \<le> now w + defaultTimeout (clientConfig w)) \<and>
           attempts E (clientConfig w) c' call m (\<lambda>c call. h (c, call)) 0 w es wn \<and> int (length es) \<le> retryMax (clientConfig w) \<and>
           (h (c', call) wn = (o1, w1) \<and> (int (length es) = retryMax (clientConfig w) \<or> gives_up E (clientConfig w) o1) \<or>
            (\<exists>t x. done_at c' = Some (t, x) \<and> t \<le> now w1 \<and> o1 = Ret (Some (ContextError x)))) \<and>
           (case o1 of Ret err \<Rightarrow> out = Ret err \<and> w' = w1\<lparr>log_trace := log_trace w1 @ [call_record E w m err w1]\<rparr>
            | Panic p \<Rightarrow> out = Panic p \<and> w' = w1)"
proof -
  let ?c = "deadlined (defaultTimeout (clientConfig w)) (now w) c" and ?h = "\<lambda>c call. h (c, call)"
  obtain o1 w1 where run: "Retry E ?c call m ?h w = (o1, w1)" by fastforce
  from retry_spec [OF assms(2,3) run] obtain es wn where
    "attempts E (clientConfig w) ?c call m ?h 0 w es wn" "int (length es) \<le> retryMax (clientConfig w)"
    "h (?c, call) wn = (o1, w1) \<and> (int (length es) = retryMax (clientConfig w) \<or> gives_up E (clientConfig w) o1) \<or>
     (\<exists>t x. done_at ?c = Some (t, x) \<and> t \<le> now w1 \<and> o1 = Ret (Some (ContextError x)))"
    by blast
  moreover have "case o1 of Ret err \<Rightarrow> out = Ret err \<and> w' = w1\<lparr>log_trace := log_trace w1 @ [call_record E w m err w1]\<rparr>
      | Panic p \<Rightarrow> out = Panic p \<and> w' = w1"
    using assms(5) run by (cases o1) (auto simp: client_chain_run)
  ultimately show ?thesis using deadlined_done [OF assms(1,4), of "now w"] by blast
qed

theorem client_chain_bounded_witness:
  "\<exists>w c' es wn. clientConfig w = \<lparr>clc_logger = None, defaultTimeout = 5 * second, retryMax = 3, retryBackoff = second,
       retryCodes = defaultRetryCodes, tokenSource = None\<rparr> \<and> ctx_deadline c' = Some (now w + 5 * second) \<and>
     attempts sample_client_env (clientConfig w) c' () ''/a/B'' (\<lambda>c call. ret (Some (StatusError Unavailable ''down''))) 0 w es wn \<and>
     int (length es) \<le> 3"
proof -
  let ?w = "snd (Configure_client [WithDefaultTimeout (5 * second), WithRetry 3 second] sample_client)"
  let ?h = "\<lambda>a. ret (Some (StatusError Unavailable ''down''))"
  have cfg: "clientConfig ?w = \<lparr>clc_logger = None, defaultTimeout = 5 * second, retryMax = 3, retryBackoff = second,
       retryCodes = defaultRetryCodes, tokenSource = None\<rparr>"
    by (simp add: Configure_client_def client_option_defs comp_simps sample_client_def initial_client_config_def)
  obtain out w' where run: "nest (client_chain sample_client_env) (sample_ctx, ()) ''/a/B'' ?h ?w = (out, w')" by fastforce
  have "0 < defaultTimeout (clientConfig ?w)" "0 < retryMax (clientConfig ?w)" "retryMax (clientConfig ?w) < max_int64"
    "ctx_deadline sample_ctx = None"
    unfolding cfg by (simp_all add: max_int64_def sample_ctx_def)
  from client_chain_bounded [OF this run]
  have "\<exists>c' es wn. ctx_deadline c' = Some (now ?w + 5 * second) \<and>
      attempts sample_client_env (clientConfig ?w) c' () ''/a/B'' (\<lambda>c call. ?h (c, call)) 0 ?w es wn \<and> int (length es) \<le> 3"
    unfolding cfg client_config.simps by blast
  then show ?thesis using cfg by blast
qed

end
