(* ===== verification/Client_Program.thy ===== *)
theory Client_Program
  imports Programs Client_Chain
begin

text \<open>
  The whole of \<^verbatim>\<open>cmd/client/main.go\<close>: construction, connection, service discovery, a unary and a
  streaming call, and the two ways the program ends. \<^verbatim>\<open>log.Fatal\<close> exits the process without
  running deferred calls; a return and a panic run the deferred \<^verbatim>\<open>Close\<close>.
\<close>

section \<open>The program\<close>

definition io_EOF :: goerror where
  \<comment> \<open>the value \<^verbatim>\<open>io.EOF\<close>\<close>
  "io_EOF = ForeignError 0 ''EOF''"

text \<open>What the connection with a number does: service discovery, the generated client's two methods, the
  results of receiving on a stream one after the other, and closing.\<close>

record ('md, 'cs) network =
  reflect_open :: "nat \<Rightarrow> goerror option"
  reflect_recv :: "nat \<Rightarrow> goerror + string list option"
  rpc_hello :: "nat \<Rightarrow> ('md, string, string option fallible) invoker"
  rpc_stream :: "nat \<Rightarrow> ('md, string, 'cs option fallible) invoker"
  stream_recv :: "'cs option \<Rightarrow> nat \<Rightarrow> goerror + string"
  conn_close :: "nat \<Rightarrow> goerror option"

definition background :: "'md ctx" where
  \<comment> \<open>\<^verbatim>\<open>context.Background()\<close>\<close>
  "background = \<lparr>incoming_md = None, outgoing_md = None, peer_addr = None, ctx_values = (\<lambda>k. None),
     ctx_deadline = None, done_at = None\<rparr>"

definition get_message :: "string option \<Rightarrow> string" where
  \<comment> \<open>the generated getter, which accepts a nil message\<close>
  "get_message m = (case m of None \<Rightarrow> [] | Some s \<Rightarrow> s)"

type_synonym ('md, 'cs) app_client =
  "(('md, string) unary_client_interceptor, ('md, string, 'cs) stream_client_interceptor) client"

definition client_setup :: "client_host \<Rightarrow> 'md client_env \<Rightarrow> (log_handler \<times> ('md, 'cs) app_client) ccomp" where
  "client_setup H E =
     bindc Default (\<lambda>l. bindc (client_New ''dns:///localhost:50051'' (client_main_options H E l)) (\<lambda>c. ret (l, c)))"

definition client_session ::
  "('md, 'cs) network \<Rightarrow> log_handler \<Rightarrow> ('md, 'cs) app_client \<Rightarrow> life \<Rightarrow> (prog_exit + 'cs option) ccomp" where
  \<comment> \<open>from the service discovery to the opened stream\<close>
  "client_session N l c s =
     bindc (ListServices None (defaultListServices (reflect_open N) (reflect_recv N)) s) (\<lambda>(services, err).
     thenc (case err of
              Some e \<Rightarrow> log_call l LevelError ''ListServices: %v'' [ArgError e]
            | None \<Rightarrow> seqc (map (\<lambda>svc. log_call l LevelInfo ''available service'' [ArgString ''name'', ArgString svc]) services))
     (bindc (Conn s) (\<lambda>p.
      let k = NewCaller (rpc_hello N p) (rpc_stream N p) (client_Logger c) in
      bindc (Caller_SayHello k background ''Gopher'') (\<lambda>(reply, err).
        case err of
          Some e \<Rightarrow> ret (Inl (Fatal ''SayHello failed: '' e))
        | None \<Rightarrow>
            thenc (log_call l LevelInfo ''SayHello response'' [ArgString ''message'', ArgString (get_message reply)])
            (bindc (Caller_SayHelloServerStream k background ''Gopher'') (\<lambda>(cs, err).
              case err of
                Some e \<Rightarrow> ret (Inl (Fatal ''SayHelloServerStream failed: '' e))
              | None \<Rightarrow> ret (Inr cs)))))))"

definition log_received :: "log_handler \<Rightarrow> string \<Rightarrow> client_world \<Rightarrow> client_world" where
  "log_received l msg w = snd (log_call l LevelInfo ''stream response'' [ArgString ''message'', ArgString msg] w)"

text \<open>The receive loop, from the \<open>i\<close>th receive on: \<^const>\<open>None\<close> inside when it ended with \<^verbatim>\<open>io.EOF\<close>, the error it
  failed with otherwise. A stream that never ends keeps the loop going for ever.\<close>

partial_function (option) recv_loop ::
  "(nat \<Rightarrow> goerror + string) \<Rightarrow> log_handler \<Rightarrow> nat \<Rightarrow> client_world \<Rightarrow> (goerror option \<times> client_world) option" where
  "recv_loop recv l i w =
     (case recv i of
        Inl e \<Rightarrow> Some (if e = io_EOF then None else Some e, w)
      | Inr msg \<Rightarrow> recv_loop recv l (i + 1) (log_received l msg w))"

definition client_main ::
  "(string \<Rightarrow> (('md, string) unary_client_interceptor, ('md, string, 'cs) stream_client_interceptor) dial_option list \<Rightarrow> goerror option)
     \<Rightarrow> client_host \<Rightarrow> 'md client_env \<Rightarrow> ('md, 'cs) network \<Rightarrow> client_world
     \<Rightarrow> ((prog_exit \<times> life) outcome \<times> client_world) option" where
  "client_main dial H E N w =
     (case bindc (client_setup H E) (\<lambda>(l, c). bindc (Connect dial c fresh_life) (\<lambda>(err, s). ret (l, c, err, s))) w of
        (Panic p, w1) \<Rightarrow> Some (Panic p, w1)
      | (Ret (l, c, Some e, s), w1) \<Rightarrow> Some (Ret (Fatal [] e, s), w1)
      | (Ret (l, c, None, s), w1) \<Rightarrow>
          (case client_session N l c s w1 of
             (Panic p, w2) \<Rightarrow> Some (Panic p, snd (Close (conn_close N) c s w2))
           | (Ret (Inl x), w2) \<Rightarrow> Some (Ret (x, s), w2)
           | (Ret (Inr cs), w2) \<Rightarrow>
               map_option (\<lambda>(err, w3).
                 case err of
                   Some e \<Rightarrow> (Ret (Fatal ''stream recv failed: '' e, s), w3)
                 | None \<Rightarrow> thenc (log_call l LevelInfo ''client demo completed'' [])
                     (bindc (Close (conn_close N) c s) (\<lambda>(err, s). ret (Completed, s))) w3)
                 (recv_loop (stream_recv N cs) l 0 w2)))"

section \<open>The receive loop\<close>

definition received_record :: "log_handler \<Rightarrow> string \<Rightarrow> log_record" where
  "received_record l msg = \<lparr>log_sink = sink_of l, log_level = LevelInfo, log_msg = ''stream response'',
     log_args = [ArgString ''message'', ArgString msg]\<rparr>"

lemma recv_loop_unfold:
  "recv i = Inl e \<Longrightarrow> recv_loop recv l i w = Some (if e = io_EOF then None else Some e, w)"
  "recv i = Inr msg \<Longrightarrow> recv_loop recv l i w = recv_loop recv l (Suc i) (log_received l msg w)"
  by (subst recv_loop.simps; simp)+

lemma recv_loop_run:
  "(\<forall>j < length msgs. recv (i + j) = Inr (msgs ! j)) \<Longrightarrow> recv (i + length msgs) = Inl e \<Longrightarrow>
     recv_loop recv l i w = Some (if e = io_EOF then None else Some e,
       w\<lparr>log_trace := log_trace w @ map (received_record l) msgs\<rparr>)"
proof (induction msgs arbitrary: i w)
  case Nil
  then show ?case by (simp add: recv_loop_unfold)
next
  case (Cons m ms)
  have "recv i = Inr m" using Cons.prems(1) by force
  moreover have "\<forall>j < length ms. recv (Suc i + j) = Inr (ms ! j)" using Cons.prems(1) by force
  moreover have "recv (Suc i + length ms) = Inl e" using Cons.prems(2) by simp
  ultimately show ?case
    by (simp add: recv_loop_unfold(2) Cons.IH log_received_def received_record_def comp_simps)
qed

lemma recv_loop_ends:
  assumes "recv_loop recv l i w = Some y"
  shows "\<exists>n e. recv n = Inl e"
proof (rule recv_loop.raw_induct [of "\<lambda>recv l i w y. \<exists>n e. recv n = Inl e", OF _ assms])
  fix loop :: "(nat \<Rightarrow> goerror + string) \<Rightarrow> log_handler \<Rightarrow> nat \<Rightarrow> client_world \<Rightarrow> (goerror option \<times> client_world) option"
    and recv l i w y
  assume "\<And>recv l i w y. loop recv l i w = Some y \<Longrightarrow> \<exists>n e. recv n = Inl e"
    and "(case recv i of Inl e \<Rightarrow> Some (if e = io_EOF then None else Some e, w)
          | Inr msg \<Rightarrow> loop recv l (i + 1) (log_received l msg w)) = Some y"
  then show "\<exists>n e. recv n = Inl e" by (cases "recv i") auto
qed

text \<open>Every stream either delivers messages for ever or finitely many and then an error.\<close>

lemma stream_shape:
  "(\<forall>n. \<exists>m. recv n = Inr m) \<or>
   (\<exists>msgs e. (\<forall>j < length msgs. recv j = Inr (msgs ! j)) \<and> recv (length msgs) = Inl e)"
proof (cases "\<exists>n e. recv n = Inl e")
  case True
  define n where "n = (LEAST n. \<exists>e. recv n = Inl e)"
  have n: "\<exists>e. recv n = Inl e" using True unfolding n_def by (rule LeastI_ex)
  have "\<exists>m. recv j = Inr m" if "j < n" for j
    using not_less_Least [of j "\<lambda>n. \<exists>e. recv n = Inl e"] that by (cases "recv j") (auto simp: n_def)
  then obtain f where f: "\<And>j. j < n \<Longrightarrow> recv j = Inr (f j)" by metis
  then have "\<forall>j < length (map f [0..<n]). recv j = Inr (map f [0..<n] ! j)" by simp
  then show ?thesis using n by (metis length_map length_upt diff_zero)
next
  case False
  then show ?thesis by (metis sum.exhaust)
qed

lemma recv_loop_cases:
  fixes recv :: "nat \<Rightarrow> goerror + string"
  obtains (endless) "\<forall>n. \<exists>m. recv n = Inr m" "recv_loop recv l 0 w = None"
  | (ends) msgs e where "\<forall>j < length msgs. recv j = Inr (msgs ! j)" "recv (length msgs) = Inl e"
      "recv_loop recv l 0 w = Some (if e = io_EOF then None else Some e, w\<lparr>log_trace := log_trace w @ map (received_record l) msgs\<rparr>)"
proof -
  consider "\<forall>n. \<exists>m. recv n = Inr m"
    | msgs e where "\<forall>j < length msgs. recv j = Inr (msgs ! j)" "recv (length msgs) = Inl e"
    using stream_shape [of recv] by blast
  then show thesis
  proof cases
    case 1
    then have "recv_loop recv l 0 w = None"
      using recv_loop_ends [of recv l 0 w] by (metis option.exhaust sum.distinct(1))
    with 1 show thesis by (rule endless)
  next
    case 2
    then have "recv_loop recv l 0 w = Some (if e = io_EOF then None else Some e, w\<lparr>log_trace := log_trace w @ map (received_record l) msgs\<rparr>)"
      by (intro recv_loop_run) simp_all
    with 2 show thesis by (rule ends)
  qed
qed

section \<open>Construction and connection\<close>

definition main_dial_options ::
  "'md client_env \<Rightarrow> (('md, string) unary_client_interceptor, ('md, string, 'cs) stream_client_interceptor) dial_option list" where
  "main_dial_options E = [TransportInsecure, WithChainUnary [Logging_client E, Timeout, Retry E],
     WithChainStream [StreamLogging_client E], DefaultServiceConfig ''{\"loadBalancingConfig\": [{\"round_robin\":{}}]}'']"

lemma client_setup_run:
  fixes E :: "'md client_env" and w :: client_world
  assumes "balancer_known H ''round_robin''"
  shows "\<exists>(c :: ('md, 'cs) app_client) w1. client_setup H E w = (Ret (default_handler w, c), w1) \<and>
           clientErr c = None \<and> clientTLS c = None \<and> insecureCreds c \<and> \<not> healthWatch c \<and>
           target c = ''dns:///localhost:50051'' \<and> client_logger c = default_handler w \<and>
           TransportInsecure # [WithChainUnary (unaryChain c), WithChainStream (streamChain c)] @ dialOpts c = main_dial_options E \<and>
           w1 = w\<lparr>clientConfig := (clientConfig w)\<lparr>clc_logger := Some (default_handler w), defaultTimeout := 5 * second,
             retryMax := 3, retryBackoff := second\<rparr>\<rparr>"
  by (simp add: client_setup_def client_New_def client_main_options_def Default_def client_opt_defs client_delegated_defs
      Configure_client_def client_option_defs new_client_def comp_simps assms resolved_def main_dial_options_def)

lemma main_connect:
  fixes E :: "'md client_env" and w :: client_world
  assumes "balancer_known H ''round_robin''"
  shows "\<exists>(c :: ('md, 'cs) app_client) w1. client_logger c = default_handler w \<and>
           target c = ''dns:///localhost:50051'' \<and> retryMax (clientConfig w1) = 3 \<and>
           (\<exists>rs. log_trace w1 = log_trace w @ rs \<and> (\<forall>r \<in> set rs. log_msg r = ''gRPC client connected'')) \<and>
           bindc (client_setup H E) (\<lambda>(l, c). bindc (Connect dial c fresh_life) (\<lambda>(err, s). ret (l, c, err, s))) w =
             (case dial (target c) (main_dial_options E) of
                Some e \<Rightarrow> (Ret (default_handler w, c, Some (WrapError
                  (''client: failed to create connection to dns:///localhost:50051: '') e), fresh_life), w1)
              | None \<Rightarrow> (Ret (default_handler w, c, None, fresh_life\<lparr>conn := Some 0, conn_open := [True]\<rparr>), w1))"
proof -
  obtain c :: "('md, 'cs) app_client" and w1 where c: "client_setup H E w = (Ret (default_handler w, c), w1)"
    "clientErr c = None" "clientTLS c = None" "insecureCreds c" "\<not> healthWatch c"
    "target c = ''dns:///localhost:50051''" "client_logger c = default_handler w"
    "TransportInsecure # [WithChainUnary (unaryChain c), WithChainStream (streamChain c)] @ dialOpts c = main_dial_options E"
    "retryMax (clientConfig w1) = 3" "log_trace w1 = log_trace w"
    using client_setup_run [OF assms, where 'cs = 'cs] by force
  then have chains: "unaryChain c \<noteq> []" "streamChain c \<noteq> []" by (auto simp: main_dial_options_def)
  have opts: "buildDialOpts c w = (Ret (main_dial_options E), w)" for w
    using c(3,4,8) chains by (simp add: buildDialOpts_def comp_simps)
  show ?thesis
    by (cases "dial (target c) (main_dial_options E)")
      (use c in \<open>auto simp: Connect_def opts connect_locked_def fresh_life_def comp_simps intro!: exI [of _ c]\<close>)
qed

section \<open>How the program ends\<close>

definition closing_record :: "log_handler \<Rightarrow> log_record" where
  "closing_record l = \<lparr>log_sink = sink_of l, log_level = LevelInfo, log_msg = ''gRPC client closing'',
     log_args = [ArgString ''target'', ArgString ''dns:///localhost:50051'']\<rparr>"

definition completed_record :: "log_handler \<Rightarrow> log_record" where
  "completed_record l = \<lparr>log_sink = sink_of l, log_level = LevelInfo, log_msg = ''client demo completed'', log_args = []\<rparr>"

text \<open>What the session can end with before the loop: one of two fatal errors.\<close>

lemma session_ends:
  "client_session N l c s w = (Ret (Inl x), w') \<Longrightarrow> \<exists>m e. x = Fatal m e \<and> m \<noteq> []"
  by (auto simp: client_session_def bindc_apply thenc_apply ret_apply Let_def split: prod.splits outcome.splits option.splits)

lemma main_close:
  assumes "client_logger c = l" "target c = ''dns:///localhost:50051''"
  shows "Close close_fn c (fresh_life\<lparr>conn := Some 0, conn_open := [True]\<rparr>) w =
    (Ret (close_fn 0, fresh_life\<lparr>conn := None, conn_open := [False]\<rparr>), w\<lparr>log_trace := log_trace w @ [closing_record l]\<rparr>)"
  using assms by (simp add: Close_def cancel_watch_def close_conn_def closing_record_def fresh_life_def comp_simps)

text \<open>C35. The client program ends, unless a stream delivers messages for ever, and in one of these ways.
  If it completes, the stream ended with \<^verbatim>\<open>io.EOF\<close>, the messages it delivered are the last things
  logged but for the two records of completion and closing, in order, and the one connection made
  has been closed. If dialling fails it exits with that error and there is no connection. In
  every other fatal exit the connection is left to the operating system: the deferred \<^verbatim>\<open>Close\<close> has
  not run.\<close>

theorem client_main_ends:
  fixes N :: "('md, 'cs) network" and w :: client_world
  defines "l \<equiv> default_handler w"
  assumes "balancer_known H ''round_robin''"
  shows "case client_main dial H E N w of
           None \<Rightarrow> \<exists>cs. \<forall>n. \<exists>m. stream_recv N cs n = Inr m
         | Some (Panic p, w') \<Rightarrow> \<exists>w1. w' = w1\<lparr>log_trace := log_trace w1 @ [closing_record l]\<rparr>
         | Some (Ret (Completed, s), w') \<Rightarrow> conn s = None \<and> conn_open s = [False] \<and>
             (\<exists>cs msgs before. (\<forall>j < length msgs. stream_recv N cs j = Inr (msgs ! j)) \<and>
                stream_recv N cs (length msgs) = Inl io_EOF \<and>
                log_trace w' = before @ map (received_record l) msgs @ [completed_record l, closing_record l])
         | Some (Ret (Fatal m e, s), w') \<Rightarrow>
             (if m = [] then conn_open s = [] \<and> dial ''dns:///localhost:50051'' (main_dial_options E) \<noteq> None
              else conn s = Some 0 \<and> conn_open s = [True])"
proof -
  let ?s = "fresh_life\<lparr>conn := Some 0, conn_open := [True]\<rparr>"
  obtain c :: "('md, 'cs) app_client" and w1 where c: "client_logger c = l" "target c = ''dns:///localhost:50051''"
    and run: "bindc (client_setup H E) (\<lambda>(l, c). bindc (Connect dial c fresh_life) (\<lambda>(err, s). ret (l, c, err, s))) w =
      (case dial (target c) (main_dial_options E) of
         Some e \<Rightarrow> (Ret (l, c, Some (WrapError (''client: failed to create connection to dns:///localhost:50051: '') e), fresh_life), w1)
       | None \<Rightarrow> (Ret (l, c, None, ?s), w1))"
    using main_connect [OF assms(2), where 'cs = 'cs] unfolding l_def by blast
  note main = client_main_def [of dial H E N w, unfolded run]
  show ?thesis
  proof (cases "dial (target c) (main_dial_options E)")
    case (Some e)
    then show ?thesis using c(2) by (simp add: main fresh_life_def)
  next
    case None
    obtain o1 w2 where ses: "client_session N l c ?s w1 = (o1, w2)" by fastforce
    consider (panic) p where "o1 = Panic p" | (fatal) m e where "o1 = Ret (Inl (Fatal m e))" "m \<noteq> []"
      | (stream) cs where "o1 = Ret (Inr cs)"
      using ses session_ends by (metis outcome.exhaust sum.exhaust)
    then show ?thesis
    proof cases
      case panic
      then show ?thesis using None ses main_close [OF c] by (auto simp: main)
    next
      case fatal
      then show ?thesis using None ses by (simp add: main)
    next
      case stream
      show ?thesis
      proof (cases rule: recv_loop_cases [of "stream_recv N cs" l w2])
        case endless
        then show ?thesis using None ses stream by (auto simp: main)
      next
        case (ends msgs e)
        show ?thesis
        proof (cases "e = io_EOF")
          case True
          have "client_main dial H E N w = Some (Ret (Completed, fresh_life\<lparr>conn := None, conn_open := [False]\<rparr>),
              w2\<lparr>log_trace := log_trace w2 @ map (received_record l) msgs @ [completed_record l, closing_record l]\<rparr>)"
            using None ses stream ends(3) True
            by (simp add: main thenc_apply bindc_apply ret_apply log_call_apply main_close [OF c] completed_record_def)
          then show ?thesis using ends(1,2) True by (auto simp: fresh_life_def)
        qed (use None ses stream ends(3) in \<open>simp add: main\<close>)
      qed
    qed
  qed
qed

definition sample_network :: "(string \<Rightarrow> string list, unit) network" where
  "sample_network = \<lparr>reflect_open = (\<lambda>p. None), reflect_recv = (\<lambda>p. Inr (Some [''helloworld.v1.GreeterService''])),
     rpc_hello = (\<lambda>p c name. ret (Some (hello name), None)), rpc_stream = (\<lambda>p c name. ret (Some (), None)),
     stream_recv = (\<lambda>cs n. if n < 3 then Inr (greetings ''Gopher'' ! n) else Inl io_EOF), conn_close = (\<lambda>p. None)\<rparr>"

theorem client_main_ends_witness:
  "\<exists>o1 w'. client_main (\<lambda>t opts. None) sample_client_host sample_client_env sample_network sample_client = Some (o1, w')"
proof -
  have "balancer_known sample_client_host ''round_robin''" by (simp add: sample_client_host_def)
  note ends = client_main_ends [OF this, where dial = "\<lambda>t opts. None" and E = sample_client_env and N = sample_network and w = sample_client]
  show ?thesis
  proof (cases "client_main (\<lambda>t opts. None) sample_client_host sample_client_env sample_network sample_client")
    case None
    then obtain cs where "\<forall>n. \<exists>m. stream_recv sample_network cs n = Inr m" using ends by auto
    then have "\<exists>m. stream_recv sample_network cs 3 = Inr m" by (rule spec)
    then show ?thesis by (simp add: sample_network_def)
  qed auto
qed

end
