(* ===== verification/Load_Balancing.thy ===== *)
theory Load_Balancing
  imports Client_Program "HOL-Library.List_Lexorder" "HOL-Library.Char_ord"
begin

text \<open>
  The program \<^verbatim>\<open>examples/loadbalancing\<close>: servers that tag their responses with their address, a client
  that balances over them, and the demo that counts which server answered. The example runs
  both sides in one process, so its state has the configurations of both packages.
\<close>

section \<open>\<^verbatim>\<open>interceptor.go\<close>\<close>

definition serverTag :: "string \<Rightarrow> ('md, 'req, 'resp) unary_interceptor" where
  "serverTag addr c req method handler = thenc (SetHeader [(''x-server-addr'', addr)]) (handler c req)"

definition streamServerTag :: "string \<Rightarrow> ('md, 'srv) stream_interceptor" where
  "streamServerTag addr srv ss method handler = thenc (SetHeader [(''x-server-addr'', addr)]) (handler srv ss)"

lemma forwarder_serverTag:
  "forwarder (paired (serverTag addr :: ('md, 'req, 'resp) unary_interceptor))"
proof
  let ?I = "paired (serverTag addr :: ('md, 'req, 'resp) unary_interceptor)"
  fix a :: "'md ctx \<times> 'req" and i and w :: server_world
  obtain c req where a: "a = (c, req)" by (cases a)
  show "\<exists>a' w' post. (\<forall>h. ?I a i h w = post (h a' w')) \<and> (\<forall>r w''. fst (post (Ret r, w'')) = Ret r)"
    by (rule exI [of _ a], rule exI [of _ "w\<lparr>headers_set := headers_set w @ [[(''x-server-addr'', addr)]]\<rparr>"],
        rule exI [of _ id]) (simp add: a serverTag_def SetHeader_def comp_simps)
qed

interpretation server_tag: forwarder "paired (serverTag addr)" for addr
  by (rule forwarder_serverTag)

section \<open>\<^verbatim>\<open>server.go\<close>\<close>

definition lb_unary :: "'md srv_env \<Rightarrow> string \<Rightarrow> ('md, 'req, 'resp) unary_interceptor list" where
  "lb_unary E addr = [RequestID E, serverTag addr, Logging E]"

definition lb_stream :: "'md srv_env \<Rightarrow> string \<Rightarrow> ('md, 'srv) stream_interceptor list" where
  "lb_stream E addr = [StreamRequestID E, streamServerTag addr, StreamLogging E]"

definition numServers :: nat where "numServers = 3"
definition numRequests :: nat where "numRequests = 12"
definition numStreams :: nat where "numStreams = 6"

definition lb_server ::
  "'md srv_env \<Rightarrow> nat \<Rightarrow> log_handler \<Rightarrow> nat \<Rightarrow> string \<Rightarrow> ('md, 'req, 'resp, 'srv) app_server scomp" where
  \<comment> \<open>the construction of a server around the listener with a number and an address\<close>
  "lb_server E register l lis addr =
     bindc (New [WithListener (Some lis), WithReflection, server_WithLogger (Some l),
                 WithUnaryInterceptors (lb_unary E addr), WithStreamInterceptors (lb_stream E addr)]) (\<lambda>srv.
       ret (RegisterService [register] srv))"

text \<open>The loop of \<^verbatim>\<open>startServers\<close>. \<open>net_listen i\<close> is the result of the \<open>i\<close>th \<^verbatim>\<open>net.Listen\<close>, an error or the
  address of the listener; the result has the listeners in order, each with the server whose
  \<^verbatim>\<open>Run\<close> has been started on it, or is the fatal error of a listen.\<close>

fun startServers ::
  "'md srv_env \<Rightarrow> nat \<Rightarrow> log_handler \<Rightarrow> (nat \<Rightarrow> goerror + string) \<Rightarrow> nat list
     \<Rightarrow> (prog_exit + (string \<times> ('md, 'req, 'resp, 'srv) app_server) list) scomp" where
  "startServers E register l net_listen [] = ret (Inr [])"
| "startServers E register l net_listen (i # is) =
     (case net_listen i of
        Inl e \<Rightarrow> ret (Inl (Fatal ''listen: '' e))
      | Inr addr \<Rightarrow>
          bindc (lb_server E register l i addr) (\<lambda>srv.
          thenc (log_call l LevelInfo ''server started'' [ArgString ''index'', ArgInt (int i), ArgString ''address'', ArgString addr])
          (bindc (startServers E register l net_listen is) (\<lambda>r.
             ret (map_sum id (\<lambda>started. (addr, srv) # started) r)))))"

definition server_goroutine :: "log_handler \<Rightarrow> nat \<Rightarrow> goerror option \<Rightarrow> unit scomp" where
  \<comment> \<open>what the goroutine of a server does with the result of its \<^verbatim>\<open>Run\<close>\<close>
  "server_goroutine l i result =
     (case result of
        None \<Rightarrow> ret ()
      | Some e \<Rightarrow> log_call l LevelError ''server stopped'' [ArgString ''index'', ArgInt (int i), ArgString ''error'', ArgError e])"

section \<open>\<^verbatim>\<open>demo.go\<close>\<close>

fun dec :: "nat \<Rightarrow> string" where
  \<comment> \<open>the verb \<^verbatim>\<open>%d\<close> on a number that is not negative\<close>
  "dec n = (if n < 10 then [''0123456789'' ! n] else dec (n div 10) @ [''0123456789'' ! (n mod 10)])"

declare dec.simps [simp del]

definition addrFromHeader :: "('md, 'b) grpc_api_scheme \<Rightarrow> 'md \<Rightarrow> string" where
  "addrFromHeader G header = (case md_get G header ''x-server-addr'' of v # _ \<Rightarrow> v | [] \<Rightarrow> ''unknown'')"

text \<open>\<^verbatim>\<open>drainStream\<close> over what \<^verbatim>\<open>Recv\<close> gives: messages, then an error (\<^verbatim>\<open>io.EOF\<close> or another) at which
  it stops. A stream that never ends is never drained.\<close>

partial_function (option) drainStream :: "(nat \<Rightarrow> goerror + string) \<Rightarrow> nat \<Rightarrow> nat option" where
  "drainStream recv count =
     (case recv count of Inl e \<Rightarrow> Some count | Inr msg \<Rightarrow> drainStream recv (count + 1))"

definition hit :: "string \<Rightarrow> (string \<Rightarrow> int option) \<Rightarrow> string \<Rightarrow> int option" where
  \<comment> \<open>\<^verbatim>\<open>hits[addr]++\<close> on a map whose missing entries read as zero\<close>
  "hit a m = m(a \<mapsto> (case m a of None \<Rightarrow> 0 | Some n \<Rightarrow> n) + 1)"

text \<open>\<^verbatim>\<open>logSummary\<close>; a range over a map comes in an order the language does not fix, here \<open>order\<close>.\<close>

definition logSummary ::
  "((string \<Rightarrow> int option) \<Rightarrow> string list) \<Rightarrow> log_handler \<Rightarrow> string \<Rightarrow> (string \<Rightarrow> int option) \<Rightarrow> unit ccomp" where
  "logSummary order l rpcType hits =
     thenc (log_call l LevelInfo (rpcType @ '' distribution summary'') [])
       (seqc (map (\<lambda>a. log_call l LevelInfo ''server handled''
          [ArgString ''type'', ArgString rpcType, ArgString ''address'', ArgString a, ArgString ''count'', ArgInt (the (hits a))])
        (order hits)))"

type_synonym ('md, 'cs) lb_caller = "('md, string option fallible \<times> 'md, 'cs option fallible \<times> 'md) caller"

fun unary_requests ::
  "('md, 'b) grpc_api_scheme \<Rightarrow> ('md, 'cs) lb_caller \<Rightarrow> 'md ctx \<Rightarrow> log_handler \<Rightarrow> nat list
     \<Rightarrow> (string \<Rightarrow> int option) \<Rightarrow> (string \<Rightarrow> int option) ccomp" where
  \<comment> \<open>the loop of \<^verbatim>\<open>runUnaryDemo\<close>\<close>
  "unary_requests G k c l [] hits = ret hits"
| "unary_requests G k c l (i # is) hits =
     bindc (Caller_SayHello k c (''Request-'' @ dec (i + 1))) (\<lambda>((reply, err), header).
       case err of
         Some e \<Rightarrow>
           thenc (log_call l LevelError ''SayHello failed'' [ArgString ''request'', ArgInt (int i + 1), ArgString ''error'', ArgError e])
             (unary_requests G k c l is hits)
       | None \<Rightarrow>
           (let a = addrFromHeader G header; hits = hit a hits in
            thenc (log_call l LevelInfo ''request routed'' [ArgString ''request'', ArgInt (int i + 1), ArgString ''server'', ArgString a,
                ArgString ''reply'', ArgString (get_message reply)])
              (unary_requests G k c l is hits)))"

definition runUnaryDemo ::
  "('md, 'b) grpc_api_scheme \<Rightarrow> ((string \<Rightarrow> int option) \<Rightarrow> string list) \<Rightarrow> ('md, 'cs) lb_caller \<Rightarrow> 'md ctx \<Rightarrow> log_handler \<Rightarrow> unit ccomp" where
  "runUnaryDemo G order k c l =
     thenc (log_call l LevelInfo ''starting unary load balancing demo'' [ArgString ''servers'', ArgInt (int numServers),
         ArgString ''requests'', ArgInt (int numRequests), ArgString ''policy'', ArgString ''round_robin''])
     (bindc (unary_requests G k c l [0..<numRequests] Map.empty) (logSummary order l ''unary''))"

text \<open>The loop of \<^verbatim>\<open>runStreamDemo\<close>, which may wait for ever in \<^verbatim>\<open>drainStream\<close>; \<open>recv cs\<close> is what receiving on a
  stream gives.\<close>

fun stream_requests ::
  "('md, 'b) grpc_api_scheme \<Rightarrow> ('cs option \<Rightarrow> nat \<Rightarrow> goerror + string) \<Rightarrow> ('md, 'cs) lb_caller \<Rightarrow> 'md ctx \<Rightarrow> log_handler
     \<Rightarrow> nat list \<Rightarrow> (string \<Rightarrow> int option) \<Rightarrow> client_world \<Rightarrow> ((string \<Rightarrow> int option) outcome \<times> client_world) option" where
  "stream_requests G recv k c l [] hits w = Some (Ret hits, w)"
| "stream_requests G recv k c l (i # is) hits w =
     (case Caller_SayHelloServerStream k c (''Stream-'' @ dec (i + 1)) w of
        (Panic p, w1) \<Rightarrow> Some (Panic p, w1)
      | (Ret ((cs, Some e), header), w1) \<Rightarrow>
          stream_requests G recv k c l is hits (snd (log_call l LevelError ''SayHelloServerStream failed''
            [ArgString ''stream'', ArgInt (int i + 1), ArgString ''error'', ArgError e] w1))
      | (Ret ((cs, None), header), w1) \<Rightarrow>
          (case drainStream (recv cs) 0 of
             None \<Rightarrow> None
           | Some msgCount \<Rightarrow>
               (let a = addrFromHeader G header in
                stream_requests G recv k c l is (hit a hits) (snd (log_call l LevelInfo ''stream routed''
                  [ArgString ''stream'', ArgInt (int i + 1), ArgString ''server'', ArgString a, ArgString ''messages'', ArgInt (int msgCount)] w1)))))"

definition runStreamDemo ::
  "('md, 'b) grpc_api_scheme \<Rightarrow> ((string \<Rightarrow> int option) \<Rightarrow> string list) \<Rightarrow> ('cs option \<Rightarrow> nat \<Rightarrow> goerror + string)
     \<Rightarrow> ('md, 'cs) lb_caller \<Rightarrow> 'md ctx \<Rightarrow> log_handler \<Rightarrow> client_world \<Rightarrow> (unit outcome \<times> client_world) option" where
  "runStreamDemo G order recv k c l w =
     (case stream_requests G recv k c l [0..<numStreams] Map.empty
        (snd (log_call l LevelInfo ''starting streaming load balancing demo''
          [ArgString ''streams'', ArgInt (int numStreams), ArgString ''policy'', ArgString ''round_robin''] w)) of
        None \<Rightarrow> None
      | Some (Panic p, w') \<Rightarrow> Some (Panic p, w')
      | Some (Ret hits, w') \<Rightarrow> Some (logSummary order l ''stream'' hits w'))"

section \<open>The servers\<close>

definition lb_started :: "'md srv_env \<Rightarrow> nat \<Rightarrow> log_handler \<Rightarrow> nat \<Rightarrow> string \<Rightarrow> ('md, 'req, 'resp, 'srv) app_server" where
  "lb_started E register l i addr = (new_server l)\<lparr>listener := Some i, reflection := True,
     unaryInterceptors := lb_unary E addr, streamInterceptors := lb_stream E addr, registrars := [register]\<rparr>"

lemma lb_server_run:
  "\<exists>w'. lb_server E register l i addr w = (Ret (lb_started E register l i addr), w')"
  by (simp add: lb_server_def New_def Default_def server_option_defs server_WithLogger_def RegisterService_def
      lb_started_def new_server_def comp_simps resolved_def)

lemma startServers_run:
  fixes E :: "'md srv_env"
  assumes "\<And>i. i \<in> set is \<Longrightarrow> net_listen i = Inr (addr i)"
  shows "\<exists>w'. startServers E register l net_listen is w
           = (Ret (Inr (map (\<lambda>i. (addr i, lb_started E register l i (addr i) :: ('md, 'req, 'resp, 'srv) app_server)) is)), w')"
  using assms
proof (induction "is" arbitrary: w)
  case Nil
  show ?case by (simp add: ret_apply)
next
  case (Cons i "is")
  let ?srv = "\<lambda>i. lb_started E register l i (addr i) :: ('md, 'req, 'resp, 'srv) app_server"
  obtain w1 where srv: "lb_server E register l i (addr i) w = (Ret (?srv i), w1)"
    using lb_server_run by blast
  obtain w2 where log: "log_call l LevelInfo ''server started'' [ArgString ''index'', ArgInt (int i), ArgString ''address'', ArgString (addr i)] w1 = (Ret (), w2)"
    by (simp add: log_call_apply)
  obtain w3 where "startServers E register l net_listen is w2 = (Ret (Inr (map (\<lambda>i. (addr i, ?srv i)) is)), w3)"
    using Cons.IH [of w2] Cons.prems by auto
  then show ?case using Cons.prems srv log by (simp add: bindc_apply thenc_apply ret_apply)
qed

lemma lb_started_runs:
  fixes E :: "'md srv_env" and register i :: nat and l :: log_handler and addr :: string
  defines "srv \<equiv> lb_started E register l i addr :: ('md, 'req, 'resp, 'srv) app_server"
  shows "\<exists>g s w'. run_start net srv w = (Ret (Inr (g, i), s), w') \<and>
     created_with g = [ChainUnary (lb_unary E addr), ChainStream (lb_stream E addr)] \<and>
     registered g = [UserService register, HealthService, ReflectionService]"
proof -
  have fields: "configErr srv = None" "listener srv = Some i" "tlsConfig srv = None"
    "unaryInterceptors srv = lb_unary E addr" "streamInterceptors srv = lb_stream E addr" "grpcOpts srv = []"
    "registrars srv = [register]" "reflection srv"
    by (simp_all add: srv_def lb_started_def new_server_def)
  have ne: "unaryInterceptors srv \<noteq> []" "streamInterceptors srv \<noteq> []"
    unfolding fields by (simp_all add: lb_unary_def lb_stream_def)
  obtain g s1 w1 where started: "setupServer srv w = (Ret (g, s1), w1)" "listener s1 = Some i"
    using setupServer_returns [of srv w] fields(2) by auto
  have "created_with g = [ChainUnary (lb_unary E addr), ChainStream (lb_stream E addr)]"
    "registered g = [UserService register, HealthService, ReflectionService]"
    using started(1) fields ne by (auto simp: setupServer_def buildOptions_def Let_def comp_simps)
  then show ?thesis using started fields(1) by (auto simp: run_start_def bindc_apply ret_apply Let_def)
qed

text \<open>When the listens succeed the example starts three servers, each on its own listener, in the
  order of the listeners, whatever else it could listen on; each runs the three interceptors with
  its own listener's address in the tag, and the greeter, health and reflection services.\<close>

theorem servers_started:
  fixes E :: "'md srv_env"
  assumes "\<And>i. i < 3 \<Longrightarrow> net_listen i = Inr (addr i)"
  shows "\<exists>(srvs :: (string \<times> ('md, 'req, 'resp, 'srv) app_server) list) w'.
           startServers E register l net_listen [0..<numServers] w = (Ret (Inr srvs), w') \<and>
           map fst srvs = [addr 0, addr 1, addr 2] \<and>
           (\<forall>i < 3. \<forall>net u. \<exists>g s u'. run_start net (snd (srvs ! i)) u = (Ret (Inr (g, i), s), u') \<and>
              created_with g = [ChainUnary (lb_unary E (addr i)), ChainStream (lb_stream E (addr i))] \<and>
              registered g = [UserService register, HealthService, ReflectionService])"
proof -
  let ?srvs = "map (\<lambda>i. (addr i, lb_started E register l i (addr i) :: ('md, 'req, 'resp, 'srv) app_server)) [0..<3]"
  obtain w' where run: "startServers E register l net_listen [0..<numServers] w = (Ret (Inr ?srvs), w')"
    using startServers_run [of "[0..<3]" net_listen addr E register l w] assms unfolding numServers_def by auto
  have "map fst ?srvs = [addr 0, addr 1, addr 2]" by (simp add: upt_rec numeral_eq_Suc)
  moreover have "snd (?srvs ! i) = lb_started E register l i (addr i)" if "i < 3" for i using that by simp
  ultimately show ?thesis using run lb_started_runs by (intro exI [of _ ?srvs] exI [of _ w']) auto
qed

theorem servers_started_witness:
  "\<exists>(srvs :: (string \<times> (string \<Rightarrow> string list, unit, unit, unit) app_server) list) w'.
     startServers sample_env 7 SlogHandler (\<lambda>i. Inr (''127.0.0.1:900'' @ dec i)) [0..<numServers] sample_world = (Ret (Inr srvs), w') \<and>
     map fst srvs = [''127.0.0.1:9000'', ''127.0.0.1:9001'', ''127.0.0.1:9002'']"
proof -
  have dec: "dec 0 = ''0''" "dec (Suc 0) = ''1''" "dec 2 = ''2''" by (simp_all add: dec.simps)
  show ?thesis
    using servers_started [where addr = "\<lambda>i. ''127.0.0.1:900'' @ dec i" and E = sample_env and register = 7
        and l = SlogHandler and w = sample_world and 'req = unit and 'resp = unit and 'srv = unit, OF refl]
    by (elim exE conjE) (intro exI conjI, assumption, simp add: dec)
qed

section \<open>The tag\<close>

text \<open>What a client reads under a key in the header of a response: the values set for it, in the order of
  the calls of \<^verbatim>\<open>grpc.SetHeader\<close>, which merges.\<close>

definition header_values :: "(string \<times> string) list list \<Rightarrow> string \<Rightarrow> string list" where
  "header_values hs k = concat (map (\<lambda>kvs. map snd (filter (\<lambda>kv. fst kv = k) kvs)) hs)"

definition only_adds_headers :: "('a \<Rightarrow> 'b scomp) \<Rightarrow> bool" where
  "only_adds_headers h \<longleftrightarrow> (\<forall>a u. \<exists>more. headers_set (snd (h a u)) = headers_set u @ more)"

lemma headers_log_irrelevant: "headers_set (add_record r w) = headers_set w"
  by (simp add: add_record_def)

lemma lb_unary_headers:
  assumes "only_adds_headers h"
  shows "\<exists>more. headers_set (snd (nest (map paired (lb_unary E addr)) (c, req) i h w)) =
           headers_set w @ [[(''x-request-id'', call_id E c (entropy w))], [(''x-server-addr'', addr)]] @ more"
proof -
  let ?u = "(announced E c w)\<lparr>headers_set := headers_set (announced E c w) @ [[(''x-server-addr'', addr)]]\<rparr>"
  let ?c = "identified E c (entropy w)"
  have "headers_set (snd (nest (map paired (lb_unary E addr)) (c, req) i h w)) = headers_set (snd (h (?c, req) ?u))"
    by (simp add: lb_unary_def RequestID_apply serverTag_def SetHeader_def thenc_apply modifyc_apply Logging_apply
        headers_log_irrelevant split: prod.splits outcome.splits)
  moreover obtain more where "headers_set (snd (h (?c, req) ?u)) = headers_set ?u @ more"
    using assms unfolding only_adds_headers_def by blast
  ultimately show ?thesis by (simp add: announced_def)
qed

lemma lb_stream_headers:
  assumes "only_adds_headers h"
  shows "\<exists>more. headers_set (snd (nest (map paired (lb_stream E addr)) (srv, ss) i h w)) =
           headers_set w @ [[(''x-request-id'', call_id E (Context ss) (entropy w))], [(''x-server-addr'', addr)]] @ more"
proof -
  let ?u = "(announced E (Context ss) w)\<lparr>headers_set := headers_set (announced E (Context ss) w) @ [[(''x-server-addr'', addr)]]\<rparr>"
  let ?a = "(srv, WrappedServerStream ss (identified E (Context ss) (entropy w)))"
  have "headers_set (snd (nest (map paired (lb_stream E addr)) (srv, ss) i h w)) = headers_set (snd (h ?a ?u))"
    by (simp add: lb_stream_def RequestID_apply streamServerTag_def SetHeader_def thenc_apply modifyc_apply StreamLogging_apply
        headers_log_irrelevant split: prod.splits outcome.splits)
  moreover obtain more where "headers_set (snd (h ?a ?u)) = headers_set ?u @ more"
    using assms unfolding only_adds_headers_def by blast
  ultimately show ?thesis by (simp add: announced_def)
qed

text \<open>The tag gets across: whatever the handler does, even if it panics or sets headers of its own, the
  client that reads the header of a unary call or of a stream finds the address of the server that
  handled it.\<close>

theorem tag_round_trip:
  fixes h :: "'md ctx \<times> 'req \<Rightarrow> 'resp option fallible scomp" and hs :: "'srv \<times> 'md server_stream \<Rightarrow> goerror option scomp"
  assumes "only_adds_headers h" "only_adds_headers hs"
    and "w' = snd (nest (map paired (lb_unary E addr)) (c, req) i h w) \<or> w' = snd (nest (map paired (lb_stream E addr)) (srv, ss) i hs w)"
    and "md_get G header ''x-server-addr'' = header_values (drop (length (headers_set w)) (headers_set w')) ''x-server-addr''"
  shows "addrFromHeader G header = addr"
proof -
  obtain rid more where "headers_set w' = headers_set w @ [[(''x-request-id'', rid)], [(''x-server-addr'', addr)]] @ more"
    using assms(3) lb_unary_headers [OF assms(1), where addr = addr and E = E and c = c and req = req and i = i and w = w] 
      lb_stream_headers [OF assms(2), where addr = addr and E = E and srv = srv and ss = ss and i = i and w = w] by auto
  then show ?thesis using assms(4) by (simp add: addrFromHeader_def header_values_def)
qed

theorem tag_round_trip_witness:
  "addrFromHeader sample_api (\<lambda>k. header_values (headers_set (snd (nest (map paired (lb_unary sample_env ''[::1]:9000'')) (sample_ctx, ()) ''/a/B''
     (\<lambda>a. panicc NilDereference :: unit option fallible scomp) sample_world))) k) = ''[::1]:9000''"
  by (rule tag_round_trip [where h = "\<lambda>a. panicc NilDereference :: unit option fallible scomp" and hs = "\<lambda>a. panicc NilDereference"
      and w = sample_world and E = sample_env and c = sample_ctx and req = "()" and i = "''/a/B''", OF _ _ disjI1 [OF refl]])
    (simp_all add: only_adds_headers_def panicc_apply sample_world_def sample_api_def)

section \<open>The counts\<close>

type_synonym 'md demo_result = "string option fallible \<times> 'md"

definition failed :: "'md demo_result \<Rightarrow> bool" where
  "failed r \<longleftrightarrow> snd (fst r) \<noteq> None"

definition routed_to :: "('md, 'b) grpc_api_scheme \<Rightarrow> string \<Rightarrow> 'md demo_result \<Rightarrow> bool" where
  "routed_to G a r \<longleftrightarrow> \<not> failed r \<and> addrFromHeader G (snd r) = a"

definition handled :: "('md, 'b) grpc_api_scheme \<Rightarrow> 'md demo_result list \<Rightarrow> string \<Rightarrow> int" where
  "handled G rs a = int (length (filter (routed_to G a) rs))"

definition tally :: "('md, 'b) grpc_api_scheme \<Rightarrow> 'md demo_result list \<Rightarrow> string \<Rightarrow> int option" where
  "tally G rs a = (if handled G rs a = 0 then None else Some (handled G rs a))"

lemma tally_Nil: "tally G [] = Map.empty"
  by (rule ext) (simp add: tally_def handled_def)

lemma tally_snoc: "tally G (rs @ [r]) = (if failed r then tally G rs else hit (addrFromHeader G (snd r)) (tally G rs))"
  by (rule ext) (auto simp: tally_def handled_def hit_def routed_to_def)

text \<open>Every result that is not a failure is counted for exactly one address.\<close>

lemma handled_sum:
  assumes "finite A" "\<And>r. r \<in> set rs \<Longrightarrow> \<not> failed r \<Longrightarrow> addrFromHeader G (snd r) \<in> A"
  shows "(\<Sum>a \<in> A. handled G rs a) + int (length (filter failed rs)) = int (length rs)"
  using assms(2)
proof (induction rs)
  case (Cons r rs)
  show ?case
  proof (cases "failed r")
    case True
    then have "handled G (r # rs) a = handled G rs a" for a by (simp add: handled_def routed_to_def)
    then show ?thesis using Cons True by simp
  next
    case False
    then have "addrFromHeader G (snd r) \<in> A" using Cons.prems by simp
    moreover have "handled G (r # rs) a = handled G rs a + (if a = addrFromHeader G (snd r) then 1 else 0)" for a
      using False by (simp add: handled_def routed_to_def)
    ultimately show ?thesis using Cons False assms(1) by (simp add: sum.distrib)
  qed
qed (simp add: handled_def)

lemma tally_dom: "dom (tally G rs) = (\<lambda>r. addrFromHeader G (snd r)) ` {r \<in> set rs. \<not> failed r}"
  by (auto simp: tally_def handled_def dom_def routed_to_def filter_empty_conv split: if_splits)

lemma tally_sum:
  assumes "distinct ks" "set ks = dom (tally G rs)"
  shows "sum_list (map (\<lambda>a. the (tally G rs a)) ks) + int (length (filter failed rs)) = int (length rs)"
proof -
  have "sum_list (map (\<lambda>a. the (tally G rs a)) ks) = (\<Sum>a \<in> dom (tally G rs). the (tally G rs a))"
    using sum_list_distinct_conv_sum_set [OF assms(1)] assms(2) by simp
  also have "\<dots> = (\<Sum>a \<in> dom (tally G rs). handled G rs a)"
    by (rule sum.cong) (auto simp: tally_def split: if_splits)
  finally show ?thesis using handled_sum [of "dom (tally G rs)" rs G] tally_dom [of G rs] by auto
qed

lemma unary_requests_spec:
  assumes "unary_requests G k c l is (tally G rs0) w = (Ret hits, w')"
  shows "\<exists>rs. length rs = length is \<and> hits = tally G (rs0 @ rs) \<and>
           (\<forall>j < length is. \<exists>u u'. cl_say_hello k c (''Request-'' @ dec (is ! j + 1)) u = (Ret (rs ! j), u'))"
  using assms
proof (induction "is" arbitrary: rs0 w)
  case Nil
  then show ?case by (simp add: ret_apply)
next
  case (Cons i "is")
  obtain o1 u where call: "Caller_SayHello k c (''Request-'' @ dec (i + 1)) w = (o1, u)" by fastforce
  then obtain r where r: "o1 = Ret r" using Cons.prems by (cases o1) (auto simp: bindc_apply)
  obtain reply err hd where parts: "r = ((reply, err), hd)" by (metis prod.collapse)
  have hello: "\<exists>u0. cl_say_hello k c (''Request-'' @ dec (i + 1)) u0 = (Ret r, u)"
    using call r by (auto simp: Caller_SayHello_def comp_simps)
  obtain w1 where "unary_requests G k c l is (tally G (rs0 @ [r])) w1 = (Ret hits, w')"
    using Cons.prems call r parts
    by (cases err) (auto simp: bindc_apply thenc_apply log_call_apply tally_snoc failed_def Let_def)
  from Cons.IH [OF this] obtain rs where rs: "length rs = length is" "hits = tally G (rs0 @ r # rs)"
    "\<forall>j < length is. \<exists>u u'. cl_say_hello k c (''Request-'' @ dec (is ! j + 1)) u = (Ret (rs ! j), u')"
    by auto
  show ?case
  proof (intro exI [of _ "r # rs"] conjI allI impI)
    fix j assume "j < length (i # is)"
    then show "\<exists>u u'. cl_say_hello k c (''Request-'' @ dec ((i # is) ! j + 1)) u = (Ret ((r # rs) ! j), u')"
      using rs(3) hello by (cases j) (auto)
  qed (use rs in simp_all)
qed

definition summary_records :: "log_handler \<Rightarrow> string \<Rightarrow> (string \<Rightarrow> int option) \<Rightarrow> string list \<Rightarrow> log_record list" where
  "summary_records l rpcType hits ks =
     \<lparr>log_sink = sink_of l, log_level = LevelInfo, log_msg = rpcType @ '' distribution summary'', log_args = []\<rparr> #
     map (\<lambda>a. \<lparr>log_sink = sink_of l, log_level = LevelInfo, log_msg = ''server handled'',
       log_args = [ArgString ''type'', ArgString rpcType, ArgString ''address'', ArgString a, ArgString ''count'', ArgInt (the (hits a))]\<rparr>) ks"

lemma logSummary_run:
  "logSummary order l rpcType hits w = (Ret (), w\<lparr>log_trace := log_trace w @ summary_records l rpcType hits (order hits)\<rparr>)"
  by (simp add: logSummary_def summary_records_def seqc_log_calls comp_simps)

text \<open>C39. The summary of the unary demo is the truth: it has one line for each server that answered, with
  the number of the twelve requests, each sent under its own name, that this server answered; the
  counts and the failures add up to twelve.\<close>

theorem unary_demo_counts:
  assumes "\<And>hits. finite (dom hits) \<Longrightarrow> distinct (order hits) \<and> set (order hits) = dom hits"
    and "runUnaryDemo G order k c l w = (Ret (), w')"
  shows "\<exists>rs before. length rs = 12 \<and>
           (\<forall>j < 12. \<exists>u u'. cl_say_hello k c (''Request-'' @ dec (j + 1)) u = (Ret (rs ! j), u')) \<and>
           log_trace w' = before @ summary_records l ''unary'' (tally G rs) (order (tally G rs)) \<and>
           (\<forall>a \<in> set (order (tally G rs)). tally G rs a = Some (handled G rs a) \<and> 0 < handled G rs a) \<and>
           sum_list (map (\<lambda>a. the (tally G rs a)) (order (tally G rs))) + int (length (filter failed rs)) = 12"
proof -
  obtain w0 hits w1 where loop: "unary_requests G k c l [0..<numRequests] Map.empty w0 = (Ret hits, w1)"
    and sm: "logSummary order l ''unary'' hits w1 = (Ret (), w')"
    using assms(2) by (auto simp: runUnaryDemo_def thenc_apply bindc_apply log_call_apply split: prod.splits outcome.splits)
  from unary_requests_spec [of G k c l "[0..<numRequests]" "[]" w0 hits w1] loop obtain rs where
    rs: "length rs = 12" "hits = tally G rs"
      "\<forall>j < 12. \<exists>u u'. cl_say_hello k c (''Request-'' @ dec (j + 1)) u = (Ret (rs ! j), u')"
    by (auto simp: tally_Nil numRequests_def)
  have order: "distinct (order (tally G rs))" "set (order (tally G rs)) = dom (tally G rs)"
    using assms(1) [of "tally G rs"] by (simp_all add: tally_dom)
  have "log_trace w' = log_trace w1 @ summary_records l ''unary'' (tally G rs) (order (tally G rs))"
    using sm rs(2) by (auto simp: logSummary_run)
  moreover have "\<forall>a \<in> set (order (tally G rs)). tally G rs a = Some (handled G rs a) \<and> 0 < handled G rs a"
    using order(2) by (auto simp: tally_def handled_def split: if_splits)
  moreover have "sum_list (map (\<lambda>a. the (tally G rs a)) (order (tally G rs))) + int (length (filter failed rs)) = 12"
    using tally_sum [OF order] rs(1) by simp
  ultimately show ?thesis using rs(1,3) by blast
qed

definition sample_caller :: "((string \<Rightarrow> string list), unit) lb_caller" where
  "sample_caller = NewCaller (\<lambda>c name. ret ((Some (hello name), None), \<lambda>k. [''127.0.0.1:9000'']))
     (\<lambda>c name. ret ((None, None), \<lambda>k. [])) SlogHandler"

theorem unary_demo_counts_witness:
  "\<exists>rs :: (string \<Rightarrow> string list) demo_result list. length rs = 12 \<and>
     (\<forall>j < 12. \<exists>u u'. cl_say_hello sample_caller background (''Request-'' @ dec (j + 1)) u = (Ret (rs ! j), u')) \<and>
     sum_list (map (\<lambda>a. the (tally sample_api rs a)) (sorted_list_of_set (dom (tally sample_api rs)))) + int (length (filter failed rs)) = 12"
proof -
  let ?order = "\<lambda>hits :: string \<Rightarrow> int option. sorted_list_of_set (dom hits)"
  have call: "Caller_SayHello sample_caller background name w = (Ret ((Some (hello name), None), \<lambda>k. [''127.0.0.1:9000'']),
      snd (log_call SlogHandler LevelInfo ''calling SayHello'' [ArgString ''name'', ArgString name] w))" for name w
    by (simp add: sample_caller_def NewCaller_def Caller_SayHello_def slog_info_def emit_def comp_simps)
  have returns: "\<exists>hits w1. unary_requests sample_api sample_caller background SlogHandler is m w = (Ret hits, w1)" for "is" m w
    by (induction "is" arbitrary: m w) (simp_all add: call bindc_apply thenc_apply slog_info_def emit_def modifyc_apply ret_apply Let_def)
  obtain w' where "runUnaryDemo sample_api ?order sample_caller background SlogHandler sample_client = (Ret (), w')"
  proof -
    let ?w = "snd (log_call SlogHandler LevelInfo ''starting unary load balancing demo'' [ArgString ''servers'', ArgInt (int numServers),
         ArgString ''requests'', ArgInt (int numRequests), ArgString ''policy'', ArgString ''round_robin''] sample_client)"
    obtain hits w1 where "unary_requests sample_api sample_caller background SlogHandler [0..<numRequests] Map.empty ?w = (Ret hits, w1)"
      using returns by blast
    then show ?thesis using that
      by (simp add: runUnaryDemo_def thenc_apply bindc_apply slog_info_def emit_def modifyc_apply logSummary_run)
  qed
  from unary_demo_counts [OF _ this] show ?thesis by fastforce
qed

end
