(* ===== verification/Load_Balancing_Main.thy ===== *)
theory Load_Balancing_Main
  imports Load_Balancing
begin

text \<open>
  \<^verbatim>\<open>main\<close> of \<^verbatim>\<open>examples/loadbalancing\<close>: the servers, the manual resolver, the client and the two demos in
  one process. Its state extends the server's by the client package's configuration; the two
  halves of the program run on their parts of it.
\<close>

record lb_world = server_world +
  lb_client :: client_config

definition client_view :: "lb_world \<Rightarrow> client_world" where
  "client_view w = \<lparr>default_handler = default_handler w, log_trace = log_trace w, now = now w, sched = sched w,
     entropy = entropy w, rand_src = rand_src w, headers_set = headers_set w, objects = objects w,
     sent_msgs = sent_msgs w, clientConfig = lb_client w\<rparr>"

definition put_client :: "client_world \<Rightarrow> lb_world \<Rightarrow> lb_world" where
  "put_client u w = w\<lparr>default_handler := default_handler u, log_trace := log_trace u, now := now u, sched := sched u,
     entropy := entropy u, rand_src := rand_src u, headers_set := headers_set u, objects := objects u,
     sent_msgs := sent_msgs u, lb_client := clientConfig u\<rparr>"

definition on_client :: "'a ccomp \<Rightarrow> (lb_world, 'a) comp" where
  "on_client m = (\<lambda>w. case m (client_view w) of (out, u) \<Rightarrow> (out, put_client u w))"

definition on_server :: "'a scomp \<Rightarrow> (lb_world, 'a) comp" where
  "on_server m = (\<lambda>w. case m (server_world.truncate w) of
     (out, u) \<Rightarrow> (out, server_world.extend u (lb_world.fields (lb_client w))))"

definition lb_client_options ::
  "client_host \<Rightarrow> 'md client_env \<Rightarrow> log_handler
     \<Rightarrow> (('md, 'call) unary_client_interceptor, ('md, 'call, 'cs) stream_client_interceptor) client_option list" where
  "lb_client_options H E l =
     [WithInsecure, client_WithLogger (Some l), client_WithUnaryInterceptors [Logging_client E],
      client_WithStreamInterceptors [StreamLogging_client E], WithLoadBalancing H ''round_robin'']"

text \<open>What surrounds the program: the listens, dialling, the states \<^verbatim>\<open>WaitReady\<close> sees and the error of its
  context, the generated client's methods and streams, closing, and the order of the summaries.\<close>

record ('md, 'cs) lb_net =
  lb_listen :: "nat \<Rightarrow> goerror + string"
  lb_states :: "nat \<Rightarrow> connectivity \<times> bool"
  lb_ctx_err :: ctx_err
  lb_hello :: "nat \<Rightarrow> ('md, string, string option fallible \<times> 'md) invoker"
  lb_open :: "nat \<Rightarrow> ('md, string, 'cs option fallible \<times> 'md) invoker"
  lb_recv :: "'cs option \<Rightarrow> nat \<Rightarrow> goerror + string"
  lb_close :: "nat \<Rightarrow> goerror option"
  lb_order :: "(string \<Rightarrow> int option) \<Rightarrow> string list"

text \<open>The calls made on the connected client, after the resolver has got its addresses: \<^const>\<open>None\<close> when the
  wait or a stream never ends.\<close>

definition lb_session ::
  "'md client_env \<Rightarrow> ('md, 'cs) lb_net \<Rightarrow> log_handler \<Rightarrow> life \<Rightarrow> client_world \<Rightarrow> (prog_exit outcome \<times> client_world) option" where
  "lb_session E N l s w =
     (case WaitReady (lb_states N) (lb_ctx_err N) s w of
        None \<Rightarrow> None
      | Some (Panic p, w1) \<Rightarrow> Some (Panic p, w1)
      | Some (Ret (Some e), w1) \<Rightarrow> Some (Ret (Fatal ''wait ready: '' e), w1)
      | Some (Ret None, w1) \<Rightarrow>
          (case bindc (Conn s) (\<lambda>p. let k = NewCaller (lb_hello N p) (lb_open N p) l in
                 thenc (runUnaryDemo E (lb_order N) k background l) (ret k)) w1 of
             (Panic p, w2) \<Rightarrow> Some (Panic p, w2)
           | (Ret k, w2) \<Rightarrow>
               map_option (\<lambda>(out, w3). case out of Ret u \<Rightarrow> (Ret Completed, w3) | Panic p \<Rightarrow> (Panic p, w3))
                 (runStreamDemo E (lb_order N) (lb_recv N) k background l w2)))"

text \<open>The whole: the exit, the addresses given to the resolver, and the client's connections.\<close>

definition lb_main ::
  "(string \<Rightarrow> (('md, string) unary_client_interceptor, ('md, string, 'cs) stream_client_interceptor) dial_option list \<Rightarrow> goerror option)
     \<Rightarrow> client_host \<Rightarrow> 'md srv_env \<Rightarrow> 'md client_env \<Rightarrow> ('md, 'cs) lb_net \<Rightarrow> nat \<Rightarrow> lb_world
     \<Rightarrow> ((prog_exit \<times> string list \<times> life) outcome \<times> lb_world) option" where
  "lb_main dial H S E N register w0 =
     (case on_server (bindc Default (\<lambda>l. bindc (startServers S register l (lb_listen N) [0..<numServers]
             :: (prog_exit + (string \<times> ('md, string, string, unit) app_server) list) scomp) (\<lambda>r. ret (l, r)))) w0 of
        (Panic p, w1) \<Rightarrow> Some (Panic p, w1)
      | (Ret (l, Inl x), w1) \<Rightarrow> Some (Ret (x, [], fresh_life), w1)
      | (Ret (l, Inr srvs), w1) \<Rightarrow>
          (let w2 = w1\<lparr>now := now w1 + 200 * millisecond\<rparr>; addrs = map fst srvs in
           case on_client (bindc (client_New ''lb-demo:///greeter'' (lb_client_options H E l)) (\<lambda>c.
               bindc (Connect dial c fresh_life) (\<lambda>(err, s). ret (c, err, s)))) w2 of
             (Panic p, w3) \<Rightarrow> Some (Panic p, w3)
           | (Ret (c, Some e, s), w3) \<Rightarrow> Some (Ret (Fatal ''connect: '' e, [], s), w3)
           | (Ret (c, None, s), w3) \<Rightarrow>
               map_option (\<lambda>(out, u). case out of
                   Ret Completed \<Rightarrow>
                     (case Close (lb_close N) c s u of
                        (Ret (err, s'), u') \<Rightarrow> (Ret (Completed, addrs, s'), put_client u' w3)
                      | (Panic p, u') \<Rightarrow> (Panic p, put_client u' w3))
                 | Ret x \<Rightarrow> (Ret (x, addrs, s), put_client u w3)
                 | Panic p \<Rightarrow> (Panic p, put_client (snd (Close (lb_close N) c s u)) w3))
               (lb_session E N l s (client_view w3))))"

section \<open>How the example ends\<close>

lemma map_sum_iffs:
  "map_sum id f r = Inr y \<longleftrightarrow> (\<exists>z. r = Inr z \<and> y = f z)"
  "map_sum id f r = Inl x \<longleftrightarrow> r = Inl x"
  by (cases r; auto)+

lemma startServers_listened:
  "startServers S register l net is w = (Ret (Inr srvs), w') \<Longrightarrow> map Inr (map fst srvs) = map net is"
proof (induction "is" arbitrary: srvs w)
  case (Cons i "is")
  then show ?case
    by (cases "net i") (auto simp: bindc_apply thenc_apply ret_apply map_sum_iffs split: prod.splits outcome.splits)
qed (simp add: ret_apply)

lemma startServers_failed:
  "startServers S register l net is w = (Ret (Inl x), w') \<Longrightarrow> \<exists>e. x = Fatal ''listen: '' e"
proof (induction "is" arbitrary: w)
  case (Cons i "is")
  then show ?case
    by (cases "net i") (auto simp: bindc_apply thenc_apply ret_apply map_sum_iffs split: prod.splits outcome.splits)
qed (simp add: ret_apply)

lemma Connect_fresh:
  "Connect dial c fresh_life w = (Ret (err, s), w') \<Longrightarrow>
     (if err = None then conn s = Some 0 \<and> conn_open s = [True] else s = fresh_life)"
  by (auto simp: Connect_def connect_locked_def fresh_life_def startHealthWatch_def bindc_apply thenc_apply ret_apply
      split: option.splits prod.splits outcome.splits)

lemma Close_connected:
  "conn s = Some 0 \<Longrightarrow> conn_open s = [True] \<Longrightarrow>
     \<exists>s' w'. Close f c s w = (Ret (f 0, s'), w') \<and> conn s' = None \<and> conn_open s' = [False]"
  by (cases "healthCancel s") (auto simp: Close_def cancel_watch_def close_conn_def comp_simps)

lemma lb_session_ends:
  "lb_session E N l s w = Some (Ret x, w') \<Longrightarrow> x = Completed \<or> (\<exists>e. x = Fatal ''wait ready: '' e)"
  by (auto simp: lb_session_def split: option.splits prod.splits outcome.splits) (metis (full_types) old.unit.exhaust outcome.exhaust)

text \<open>If the example completes, every listen had succeeded, the resolver got the addresses of the three
  listeners in order, and its one connection is closed. A failed listen or dial ends it before
  there is a connection; a failed wait ends it with the connection open.\<close>

lemma lb_main_ends:
  assumes "lb_main dial H S E N register w = Some (Ret (x, addrs, s), w')"
  shows "case x of
           Completed \<Rightarrow> map Inr addrs = map (lb_listen N) [0..<3] \<and> conn s = None \<and> conn_open s = [False]
         | Fatal m e \<Rightarrow> m \<in> {''listen: '', ''connect: '', ''wait ready: ''} \<and>
             conn_open s = (if m = ''wait ready: '' then [True] else [])"
proof -
  obtain o1 w1 where start: "on_server (bindc Default (\<lambda>l. bindc (startServers S register l (lb_listen N) [0..<numServers]
      :: (prog_exit + (string \<times> ('a, string, string, unit) app_server) list) scomp) (\<lambda>r. ret (l, r)))) w = (o1, w1)" by fastforce
  then obtain l r where o1: "o1 = Ret (l, r)" using assms by (cases o1) (auto simp: lb_main_def)
  obtain u u' where servers: "startServers S register l (lb_listen N) [0..<numServers] u = (Ret r, u')"
    using start o1 by (auto simp: on_server_def Default_def comp_simps split: prod.splits outcome.splits)
  show ?thesis
  proof (cases r)
    case (Inl y)
    then show ?thesis using assms start o1 startServers_failed servers by (fastforce simp: lb_main_def fresh_life_def)
  next
    case (Inr srvs)
    have addrs: "map Inr (map fst srvs) = map (lb_listen N) [0..<3]"
      using startServers_listened servers Inr by (fastforce simp: numServers_def)
    let ?w2 = "w1\<lparr>now := now w1 + 200 * millisecond\<rparr>"
    obtain o2 w3 where conn: "on_client (bindc (client_New ''lb-demo:///greeter'' (lb_client_options H E l)) (\<lambda>c.
        bindc (Connect dial c fresh_life) (\<lambda>(err, s). ret (c, err, s)))) ?w2 = (o2, w3)" by fastforce
    then obtain c err s1 where o2: "o2 = Ret (c, err, s1)"
      using assms start o1 Inr by (cases o2) (auto simp: lb_main_def Let_def)
    obtain v v' where "Connect dial c fresh_life v = (Ret (err, s1), v')"
      using conn o2 by (auto simp: on_client_def comp_simps split: prod.splits outcome.splits)
    note s1 = Connect_fresh [OF this]
    show ?thesis
    proof (cases err)
      case (Some e)
      then show ?thesis using assms start o1 Inr conn o2 s1 by (auto simp: lb_main_def Let_def fresh_life_def)
    next
      case None
      then have s1: "conn s1 = Some 0" "conn_open s1 = [True]" using s1 by simp_all
      obtain o3 w4 where ses: "lb_session E N l s1 (client_view w3) = Some (o3, w4)"
        using assms start o1 Inr conn o2 None by (auto simp: lb_main_def Let_def)
      then obtain y where y: "o3 = Ret y" using assms start o1 Inr conn o2 None by (cases o3) (auto simp: lb_main_def Let_def)
      obtain s2 w5 where cl: "Close (lb_close N) c s1 w4 = (Ret (lb_close N 0, s2), w5)" "conn s2 = None" "conn_open s2 = [False]"
        using Close_connected [OF s1] by blast
      from lb_session_ends [OF ses [unfolded y]] show ?thesis
        using assms start o1 Inr conn o2 None ses y cl s1 addrs by (auto simp: lb_main_def Let_def)
    qed
  qed
qed

end
