(* ===== verification/Balancers.thy ===== *)
theory Balancers
  imports Client Go_Json
begin

text \<open>
  \<^verbatim>\<open>internal/client/balancer/register.go\<close>: the load-balancing policies a process knows once it has
  imported the package. Each blank import runs an \<^verbatim>\<open>init\<close> that registers the policy named beside it.
  What the library's registry does with other names is left open.
\<close>

definition registered_policies :: "string list" where
  "registered_policies = [''least_request_experimental'', ''pick_first'', ''ring_hash_experimental'',
     ''round_robin'', ''weighted_round_robin'']"

definition imports_balancers :: "client_host \<Rightarrow> bool" where
  "imports_balancers H \<longleftrightarrow> (\<forall>p \<in> set registered_policies. balancer_known H p)"

definition policy_config :: "string \<Rightarrow> string" where
  \<comment> \<open>the service configuration \<^verbatim>\<open>WithLoadBalancing\<close> makes\<close>
  "policy_config p = ''{\"loadBalancingConfig\": [{\"'' @ p @ ''\":{}}]}''"

text \<open>The option puts the policy's name between quotes as it is. For the registered names the result
  is JSON; a name with a quote in it breaks out of its string, into other JSON or into none.\<close>

lemma registered_configs_valid: "list_all (\<lambda>p. json_valid (policy_config p)) registered_policies"
  by code_simp

lemma quoted_name_breaks_config:
  "json_valid (policy_config ''a\":{}},{\"b'') \<and> \<not> json_valid (policy_config ''a\"'')"
  by code_simp

lemma with_registered_policy:
  assumes "imports_balancers H" "p \<in> set registered_policies"
  shows "\<exists>cfg. WithLoadBalancing H p c w = (Ret (c\<lparr>clientErr := None, dialOpts := dialOpts c @ [DefaultServiceConfig cfg]\<rparr>), w) \<and>
           json_valid cfg"
proof -
  have "balancer_known H p" "json_valid (policy_config p)" "p \<noteq> []"
    using assms registered_configs_valid by (auto simp: imports_balancers_def list_all_iff registered_policies_def)
  then show ?thesis
    by (intro exI [of _ "policy_config p"]) (simp add: WithLoadBalancing_def upd_def ret_apply policy_config_def)
qed

end
