(* ===== verification/Client_Deadline.thy ===== *)
theory Client_Deadline
  imports Client_Chain
begin

text \<open>
  How long a call through the client's chain can take. The retries and their waits run under the one
  deadline of the call, so the default timeout bounds the whole: what can come on top is only how
  late the transport and the scheduler notice that the deadline has passed, once per attempt.
\<close>

definition delays_within :: "nat \<Rightarrow> 'a process_scheme \<Rightarrow> bool" where
  \<comment> \<open>no goroutine is woken up later than \<open>D\<close> after it became ready\<close>
  "delays_within D w \<longleftrightarrow> (\<forall>i. fst (sched w i) \<le> D)"

text \<open>What \<^verbatim>\<open>grpc\<close> documents of an invoker, with a tolerance \<open>L\<close>: it returns when its context is done.\<close>

definition prompt :: "int \<Rightarrow> nat \<Rightarrow> ('md, 'call, 'r) invoker \<Rightarrow> bool" where
  "prompt L D h \<longleftrightarrow> (\<forall>c call w. delays_within D w \<longrightarrow>
     delays_within D (snd (h c call w)) \<and>
     (\<forall>t x. done_at c = Some (t, x) \<longrightarrow> now (snd (h c call w)) \<le> max (now w) t + L))"

lemma promptD:
  assumes "prompt L D h" "delays_within D w" "h c call w = (out, w1)"
  shows "delays_within D w1" and "done_at c = Some (t, x) \<Longrightarrow> now w1 \<le> max (now w) t + L"
  using assms unfolding prompt_def by (metis snd_conv)+

lemma i64_le: "0 \<le> n \<Longrightarrow> i64 n \<le> n"
proof -
  assume "0 \<le> n"
  then have "(n + 2 ^ 63) mod 2 ^ 64 \<le> n + 2 ^ 63" by (intro zmod_le_nonneg_dividend) simp
  then show ?thesis by (simp add: i64_def)
qed

lemma select_wakes:
  assumes "select_timer_done d (Some t) w = (out, w1)"
  shows "now w1 = max (now w) (min (now w + max 0 d) t) + int (fst (sched w 0))" and "sched w1 = (\<lambda>i. sched w (Suc i))"
  using assms by (auto simp: select_timer_done_def Let_def)

lemma select_time:
  assumes "select_timer_done d (Some t) w = (out, w1)" "delays_within D w"
  shows "now w1 \<le> max (now w) t + int D" and "delays_within D w1"
proof -
  have "fst (sched w 0) \<le> D" using assms(2) by (simp add: delays_within_def)
  moreover have "max (now w) (min (now w + max 0 d) t) \<le> max (now w) t" by simp
  ultimately show "now w1 \<le> max (now w) t + int D" using select_wakes(1) [OF assms(1)] by linarith
  show "delays_within D w1" using select_wakes(2) [OF assms(1)] assms(2) by (simp add: delays_within_def)
qed

text \<open>One round of the loop, by what it does to the clock: the call returned, or it goes on later.\<close>

lemma loop_round:
  assumes "retry_loop E cfg c call m h (Suc n) k prev w = (out, w')" "h c call w = (o1, w1)" "done_at c = Some (t, x)"
  obtains "w' = w1"
  | w2 where "delays_within D w1 \<longrightarrow> now w2 \<le> max (now w1) t + int D \<and> delays_within D w2"
      "w' = w2 \<or> (\<exists>e. retry_loop E cfg c call m h n (k + 1) (Some e) w2 = (out, w'))"
proof (cases "\<exists>e code msg. o1 = Ret (Some e) \<and> from_error E (Some e) = ((code, msg), True) \<and>
    isRetryable code (retryCodes cfg) \<and> k < retryMax cfg")
  case True
  then obtain e code msg where e: "o1 = Ret (Some e)" "from_error E (Some e) = ((code, msg), True)"
    "isRetryable code (retryCodes cfg)" "k < retryMax cfg" by blast
  obtain r rs where dur: "backoffDuration k (retryBackoff cfg) w1 = (Ret r, w1\<lparr>rand_src := rs\<rparr>)"
    using backoff_returns by blast
  let ?wl = "w1\<lparr>rand_src := rs, log_trace := log_trace w1 @ [\<lparr>log_sink = sink_of (resolved (clc_logger cfg) (w1\<lparr>rand_src := rs\<rparr>)),
      log_level = LevelWarn, log_msg = ''retrying RPC'', log_args = warn_args m k (retryMax cfg) r msg\<rparr>]\<rparr>"
  obtain sel w2 where sel: "select_timer_done r (Some t) ?wl = (sel, w2)" by fastforce
  have run: "retry_loop E cfg c call m h (Suc n) k prev w = (case sel of
      Ret fired \<Rightarrow> if fired then retry_loop E cfg c call m h n (k + 1) (Some e) w2 else (Ret (ctx_finished c), w2)
    | Panic p \<Rightarrow> (Panic p, w2))"
    using assms(2,3) e dur sel by (cases sel) (simp_all add: comp_simps)
  have "delays_within D w1 \<longrightarrow> now w2 \<le> max (now w1) t + int D \<and> delays_within D w2"
    using select_time [OF sel, of D] by (simp add: delays_within_def)
  moreover have "w' = w2 \<or> (\<exists>e. retry_loop E cfg c call m h n (k + 1) (Some e) w2 = (out, w'))"
    using assms(1) run by (auto split: outcome.splits if_splits)
  ultimately show thesis using that(2) by blast
next
  case False
  then have "w' = w1"
    using assms(1,2) by (auto simp: comp_simps split: outcome.splits option.splits prod.splits if_splits)
  then show thesis by (rule that(1))
qed

lemma loop_time:
  assumes "prompt L D h" "0 \<le> L" "done_at c = Some (t, x)"
  shows "retry_loop E cfg c call m h n k prev w = (out, w') \<Longrightarrow> delays_within D w \<Longrightarrow> now w \<le> X \<Longrightarrow> t \<le> X \<Longrightarrow>
    now w' \<le> X + int n * (L + int D)"
proof (induction n arbitrary: k prev w X)
  case 0
  then show ?case by (simp add: ret_apply)
next
  case (Suc n)
  obtain o1 w1 where h: "h c call w = (o1, w1)" by fastforce
  have w1: "now w1 \<le> X + L" "delays_within D w1"
    using promptD [OF assms(1) Suc.prems(2) h] assms(3) Suc.prems(3,4) by fastforce+
  define Z where "Z = int n * (L + int D)"
  have step: "X + L + int D + Z = X + int (Suc n) * (L + int D)" by (simp add: Z_def algebra_simps)
  have nn: "0 \<le> Z" using assms(2) by (simp add: Z_def)
  from Suc.prems(1) h assms(3) show ?case
  proof (cases rule: loop_round [where D = D])
    case 1
    then have "now w' \<le> X + L" using w1(1) by simp
    then show ?thesis using nn assms(2) unfolding step [symmetric] by linarith
  next
    case (2 w2)
    then have w2: "now w2 \<le> X + L + int D" "delays_within D w2" using w1 Suc.prems(4) assms(2) by auto
    from 2(2) show ?thesis
    proof
      assume "w' = w2"
      then have "now w' \<le> X + L + int D" using w2(1) by simp
      then show ?thesis using nn unfolding step [symmetric] by linarith
    next
      assume "\<exists>e. retry_loop E cfg c call m h n (k + 1) (Some e) w2 = (out, w')"
      then obtain e where "retry_loop E cfg c call m h n (k + 1) (Some e) w2 = (out, w')" by blast
      from Suc.IH [OF this w2(2,1)] show ?thesis using Suc.prems(4) assms(2) step by (simp add: Z_def)
    qed
  qed
qed

text \<open>C34. A call through the client's chain is over soon after its deadline: with a transport that
  notices a finished context within \<open>L\<close> and a scheduler that is never later than \<open>D\<close>, a call without a
  deadline of its own ends, however often it is retried and however long the backoffs are, at the
  latest at its start plus the default timeout plus \<open>L + D\<close> for every allowed attempt.\<close>

theorem call_ends_by_deadline:
  fixes h :: "'md ctx \<times> 'call \<Rightarrow> goerror option ccomp"
  assumes "0 < defaultTimeout (clientConfig w)" "ctx_deadline c = None"
    and "prompt L D (\<lambda>c call. h (c, call))" "0 \<le> L" "delays_within D w"
    and "nest (client_chain E) (c, call) m h w = (out, w')"
  shows "now w' \<le> now w + defaultTimeout (clientConfig w) + (max 0 (retryMax (clientConfig w)) + 1) * (L + int D)"
proof -
  let ?cfg = "clientConfig w" and ?c = "deadlined (defaultTimeout (clientConfig w)) (now w) c" and ?h = "\<lambda>c call. h (c, call)"
  let ?X = "now w + defaultTimeout ?cfg"
  obtain t x where t: "done_at ?c = Some (t, x)" "t \<le> ?X" using deadlined_done [OF assms(1,2)] by blast
  obtain o1 w1 where run: "Retry E ?c call m ?h w = (o1, w1)" by fastforce
  have w': "now w' = now w1" using assms(6) run by (cases o1) (auto simp: client_chain_run)
  show ?thesis
  proof (cases "retryMax ?cfg \<le> 0")
    case True
    then have "?h ?c call w = (o1, w1)" using run by (simp add: Retry_def comp_simps)
    then show ?thesis using promptD(2) [OF assms(3,5) _ t(1)] t(2) assms(1) True w' by fastforce
  next
    case False
    let ?n = "nat (i64 (retryMax ?cfg + 1))"
    have "retry_loop E ?cfg ?c call m ?h ?n 0 None w = (o1, w1)"
      using run False by (simp add: Retry_def comp_simps del: retry_loop.simps)
    from loop_time [OF assms(3,4) t(1) this assms(5), of ?X] t(2) assms(1)
    have "now w1 \<le> ?X + int ?n * (L + int D)" by simp
    moreover have "int ?n \<le> max 0 (retryMax ?cfg) + 1" using False by (simp add: i64_le)
    then have "int ?n * (L + int D) \<le> (max 0 (retryMax ?cfg) + 1) * (L + int D)"
      using assms(4) by (intro mult_right_mono) auto
    ultimately show ?thesis using w' by linarith
  qed
qed

theorem call_ends_by_deadline_witness:
  "\<exists>w out w'. clientConfig w = \<lparr>clc_logger = None, defaultTimeout = 5 * second, retryMax = 3, retryBackoff = second,
       retryCodes = defaultRetryCodes, tokenSource = None\<rparr> \<and>
     nest (client_chain sample_client_env) (sample_ctx, ()) ''/a/B'' (\<lambda>a. ret (Some (StatusError Unavailable ''down''))) w = (out, w') \<and>
     now w' \<le> now w + 5 * second"
proof -
  let ?w = "snd (Configure_client [WithDefaultTimeout (5 * second), WithRetry 3 second] sample_client)"
  let ?h = "\<lambda>a. ret (Some (StatusError Unavailable ''down''))"
  have cfg: "clientConfig ?w = \<lparr>clc_logger = None, defaultTimeout = 5 * second, retryMax = 3, retryBackoff = second,
       retryCodes = defaultRetryCodes, tokenSource = None\<rparr>"
    by (simp add: Configure_client_def client_option_defs comp_simps sample_client_def initial_client_config_def)
  obtain out w' where run: "nest (client_chain sample_client_env) (sample_ctx, ()) ''/a/B'' ?h ?w = (out, w')" by fastforce
  have "0 < defaultTimeout (clientConfig ?w)" "ctx_deadline sample_ctx = None"
    unfolding cfg by (simp_all add: sample_ctx_def)
  moreover have "prompt 0 0 (\<lambda>c call. ?h (c, call))" by (simp add: prompt_def ret_apply)
  moreover have "delays_within 0 ?w"
    by (simp add: delays_within_def Configure_client_def client_option_defs comp_simps sample_client_def)
  ultimately have "now w' \<le> now ?w + defaultTimeout (clientConfig ?w) + (max 0 (retryMax (clientConfig ?w)) + 1) * (0 + int 0)"
    using run by (intro call_ends_by_deadline) auto
  then show ?thesis using cfg run by (intro exI [of _ ?w] exI [of _ out] exI [of _ w']) simp
qed

end
