(* ===== verification/Stubs.thy ===== *)
theory Stubs
  imports Programs
begin

text \<open>
  The code generated for the greeter service, \<^verbatim>\<open>pkg/gen/helloworld/v1/helloworld_grpc.pb.go\<close>: the
  client's stubs over a connection and the server's handlers that decode a request and call the
  service through an interceptor. A message is the one string it carries; the response object a
  stub allocates is a cell of \<open>objects\<close>, which the connection fills in.
\<close>

section \<open>Names\<close>

definition SayHello_FullMethodName :: string where
  "SayHello_FullMethodName = ''/helloworld.v1.GreeterService/SayHello''"

definition SayHelloServerStream_FullMethodName :: string where
  "SayHelloServerStream_FullMethodName = ''/helloworld.v1.GreeterService/SayHelloServerStream''"

section \<open>The client's stubs\<close>

text \<open>A connection, \<^verbatim>\<open>grpc.ClientConnInterface\<close>, and what a stub does with the stream it opens.\<close>

record ('md, 'cs) client_conn =
  cc_invoke :: "'md ctx \<Rightarrow> string \<Rightarrow> string \<Rightarrow> nat \<Rightarrow> goerror option ccomp"   \<comment> \<open>context, method, request, address of the response\<close>
  cc_new_stream :: "'md ctx \<Rightarrow> string \<Rightarrow> 'cs option fallible ccomp"
  cs_send_msg :: "'cs option \<Rightarrow> string \<Rightarrow> goerror option ccomp"
  cs_close_send :: "'cs option \<Rightarrow> goerror option ccomp"

definition new_message :: "('a process_scheme, nat) comp" where
  \<comment> \<open>\<^verbatim>\<open>new(SayHelloResponse)\<close>, a message with an empty string\<close>
  "new_message = (\<lambda>w. (Ret (length (objects w)), w\<lparr>objects := objects w @ [[]]\<rparr>))"

definition message_at :: "nat \<Rightarrow> ('a process_scheme, string) comp" where
  "message_at p = getc (\<lambda>w. objects w ! p)"

definition stub_SayHello :: "('md, 'cs) client_conn \<Rightarrow> ('md, string, string option fallible) invoker" where
  "stub_SayHello cc c request =
     bindc new_message (\<lambda>out.
     bindc (cc_invoke cc c SayHello_FullMethodName request out) (\<lambda>err.
       case err of
         Some e \<Rightarrow> ret (None, Some e)
       | None \<Rightarrow> bindc (message_at out) (\<lambda>m. ret (Some m, None))))"

definition stub_SayHelloServerStream :: "('md, 'cs) client_conn \<Rightarrow> ('md, string, 'cs option fallible) invoker" where
  "stub_SayHelloServerStream cc c request =
     bindc (cc_new_stream cc c SayHelloServerStream_FullMethodName) (\<lambda>(cs, err).
       case err of
         Some e \<Rightarrow> ret (None, Some e)
       | None \<Rightarrow>
           bindc (cs_send_msg cc cs request) (\<lambda>err.
             case err of
               Some e \<Rightarrow> ret (None, Some e)
             | None \<Rightarrow>
                 bindc (cs_close_send cc cs) (\<lambda>err.
                   case err of Some e \<Rightarrow> ret (None, Some e) | None \<Rightarrow> ret (cs, None))))"

section \<open>The server's handlers\<close>

text \<open>\<^verbatim>\<open>dec\<close> gives the decoded request or an error; without interceptors the service is called directly.\<close>

definition SayHello_Handler ::
  "service \<Rightarrow> 'md ctx \<Rightarrow> goerror + string \<Rightarrow> ('md, string, string) unary_interceptor option \<Rightarrow> string option fallible scomp" where
  "SayHello_Handler srv c decoded interceptor =
     (case decoded of
        Inl e \<Rightarrow> ret (None, Some e)
      | Inr request \<Rightarrow>
          (case interceptor of
             None \<Rightarrow> SayHello srv c request
           | Some I \<Rightarrow> I c request SayHello_FullMethodName (\<lambda>c request. SayHello srv c request)))"

text \<open>\<open>recv_msg i\<close> and \<open>send i\<close> are \<^verbatim>\<open>RecvMsg\<close> and \<^verbatim>\<open>Send\<close> of the transport's stream with a number.\<close>

definition SayHelloServerStream_Handler ::
  "(nat \<Rightarrow> (goerror + string) scomp) \<Rightarrow> (nat \<Rightarrow> string \<Rightarrow> goerror option scomp) \<Rightarrow> ('md, service) stream_handler" where
  "SayHelloServerStream_Handler recv_msg send srv ss =
     bindc (recv_msg (transport_of ss)) (\<lambda>received.
       case received of
         Inl e \<Rightarrow> ret (Some e)
       | Inr request \<Rightarrow> SayHelloServerStream srv (send (transport_of ss)) request (Context ss))"

text \<open>The description the service is registered with, and the methods of the embedded
  \<^verbatim>\<open>UnimplementedGreeterServiceServer\<close>, which the service overrides.\<close>

definition ServiceDesc :: "string \<times> string list \<times> string list" where
  "ServiceDesc = (''helloworld.v1.GreeterService'', [''SayHello''], [''SayHelloServerStream''])"

definition unimplemented :: "string \<Rightarrow> goerror" where
  "unimplemented m = StatusError Unimplemented (''method '' @ m @ '' not implemented'')"

definition full_method :: "string \<Rightarrow> string \<Rightarrow> string" where
  \<comment> \<open>the path under which the library dispatches a method of a service\<close>
  "full_method service m = ''/'' @ service @ ''/'' @ m"

lemma described_names:
  "map (full_method (fst ServiceDesc)) (fst (snd ServiceDesc)) = [SayHello_FullMethodName]"
  "map (full_method (fst ServiceDesc)) (snd (snd ServiceDesc)) = [SayHelloServerStream_FullMethodName]"
  by (simp_all add: ServiceDesc_def full_method_def SayHello_FullMethodName_def SayHelloServerStream_FullMethodName_def)

text \<open>A method the service did not override is not called again: its error is no default retry code.\<close>

lemma unimplemented_final:
  "status_laws G \<Longrightarrow> status_code G (Some (unimplemented m)) = Unimplemented \<and>
     \<not> isRetryable (status_code G (Some (unimplemented m))) defaultRetryCodes"
  by (simp add: unimplemented_def status_laws_def status_code_def isRetryable_def defaultRetryCodes_def)

section \<open>What the stubs return\<close>

lemma stub_SayHello_apply:
  "stub_SayHello cc c request w =
     (case cc_invoke cc c SayHello_FullMethodName request (length (objects w)) (w\<lparr>objects := objects w @ [[]]\<rparr>) of
        (Ret None, w') \<Rightarrow> (Ret (Some (objects w' ! length (objects w)), None), w')
      | (Ret (Some e), w') \<Rightarrow> (Ret (None, Some e), w')
      | (Panic p, w') \<Rightarrow> (Panic p, w'))"
  by (auto simp: stub_SayHello_def new_message_def message_at_def comp_simps split: prod.splits outcome.splits option.splits)

end
