(* ===== verification/Server_Auth.thy ===== *)
theory Server_Auth
  imports Server_Config
begin

text \<open>
  \<^verbatim>\<open>internal/server/interceptor/auth.go\<close>: bearer token extraction, the call of the configured
  \<^verbatim>\<open>AuthFunc\<close>, and the unary and stream interceptors that stand before a handler.
\<close>

section \<open>Tokens\<close>

definition unauthenticated :: "string \<Rightarrow> goerror" where
  "unauthenticated msg = StatusError Unauthenticated msg"

definition extractBearerToken :: "('md, 'b) grpc_api_scheme \<Rightarrow> 'md ctx \<Rightarrow> goerror + string" where
  "extractBearerToken G c =
     (case incoming_md c of
        None \<Rightarrow> Inl (unauthenticated ''missing metadata'')
      | Some md \<Rightarrow>
          (case md_get G md ''authorization'' of
             [] \<Rightarrow> Inl (unauthenticated ''missing authorization token'')
           | v # _ \<Rightarrow>
               if v = [] then Inl (unauthenticated ''missing authorization token'')
               else
                 (let token = (if 7 \<le> length v \<and> equal_fold (take 7 v) ''bearer '' then drop 7 v else v)
                  in if token = [] then Inl (unauthenticated ''empty bearer token'') else Inr token)))"

definition authenticateContext :: "'md srv_env \<Rightarrow> 'md ctx \<Rightarrow> nat \<Rightarrow> 'md ctx fallible scomp" where
  "authenticateContext E c fn =
     (case extractBearerToken E c of
        Inl e \<Rightarrow> ret (c, Some e)
      | Inr token \<Rightarrow>
          bindc (auth_impl E fn c token) (\<lambda>(c', err).
            case err of
              Some _ \<Rightarrow> ret (c', Some (unauthenticated ''authentication failed''))
            | None \<Rightarrow> ret (c', None)))"

section \<open>Interceptors\<close>

definition Auth :: "'md srv_env \<Rightarrow> ('md, 'req, 'resp) unary_interceptor" where
  "Auth E c req method handler =
     bindc getConfig (\<lambda>cfg.
     bindc (isExcluded cfg method) (\<lambda>excluded.
       if excluded then handler c req
       else
         (case authFunc cfg of
            None \<Rightarrow> handler c req
          | Some fn \<Rightarrow>
              bindc (authenticateContext E c fn) (\<lambda>(c', err).
                case err of
                  Some e \<Rightarrow> ret (None, Some e)
                | None \<Rightarrow> handler c' req))))"

definition StreamAuth :: "'md srv_env \<Rightarrow> ('md, 'srv) stream_interceptor" where
  "StreamAuth E srv ss method handler =
     bindc getConfig (\<lambda>cfg.
     bindc (isExcluded cfg method) (\<lambda>excluded.
       if excluded then handler srv ss
       else
         (case authFunc cfg of
            None \<Rightarrow> handler srv ss
          | Some fn \<Rightarrow>
              bindc (authenticateContext E (Context ss) fn) (\<lambda>(c', err).
                case err of
                  Some e \<Rightarrow> ret (Some e)
                | None \<Rightarrow> handler srv (WrappedServerStream ss c')))))"

section \<open>Token parsing\<close>

lemma scheme_folds:
  "equal_fold ''Bearer '' ''bearer ''" "equal_fold ''BEARER '' ''bearer ''"
  "\<not> equal_fold ''Basic a'' ''bearer ''"
  by code_simp+

lemma extract_value:
  "incoming_md c = Some md \<Longrightarrow> md_get G md ''authorization'' = v # vs \<Longrightarrow> v \<noteq> [] \<Longrightarrow>
     extractBearerToken G c =
       (let token = (if 7 \<le> length v \<and> equal_fold (take 7 v) ''bearer '' then drop 7 v else v)
        in if token = [] then Inl (unauthenticated ''empty bearer token'') else Inr token)"
  by (simp add: extractBearerToken_def)

text \<open>C33. A token in the form \<^verbatim>\<open>Bearer <token>\<close>, the scheme in any mixture of cases, is extracted
  exactly; a value without the scheme is not rejected but taken as the token as it stands; and
  an extracted token is never empty.\<close>

theorem bearer_token_extraction:
  assumes "incoming_md c = Some md" "md_get G md ''authorization'' = v # vs"
  shows "(\<forall>scheme token. v = scheme @ token \<and> equal_fold scheme ''bearer '' \<and> token \<noteq> [] \<longrightarrow>
            extractBearerToken G c = Inr token) \<and>
         (v \<noteq> [] \<and> \<not> equal_fold (take 7 v) ''bearer '' \<longrightarrow> extractBearerToken G c = Inr v) \<and>
         extractBearerToken G c \<noteq> Inr []"
proof (intro conjI allI impI)
  fix scheme token
  assume v: "v = scheme @ token \<and> equal_fold scheme ''bearer '' \<and> token \<noteq> []"
  then have "length (map ascii_lower scheme) = length (map ascii_lower ''bearer '')"
    unfolding equal_fold_def by (metis)
  then have "length scheme = 7" by simp
  then show "extractBearerToken G c = Inr token"
    using v assms by (subst extract_value) auto
qed (use assms in \<open>auto simp: extractBearerToken_def Let_def split: list.splits\<close>)

theorem bearer_token_extraction_witness:
  "extractBearerToken sample_api (sample_ctx\<lparr>incoming_md := Some (\<lambda>k. [''BEARER abc''])\<rparr>) = Inr ''abc'' \<and>
   extractBearerToken sample_api (sample_ctx\<lparr>incoming_md := Some (\<lambda>k. [''Basic abc''])\<rparr>) = Inr ''Basic abc''"
proof
  let ?c = "\<lambda>v. sample_ctx\<lparr>incoming_md := Some (\<lambda>k. [v])\<rparr>"
  have carries: "incoming_md (?c v) = Some (\<lambda>k. [v])" "md_get sample_api (\<lambda>k. [v]) ''authorization'' = v # []" for v
    by (simp_all add: sample_api_def)
  have fold: "equal_fold ''BEARER '' ''bearer ''" "\<not> equal_fold (take 7 ''Basic abc'') ''bearer ''"
    using scheme_folds by simp_all
  have "''BEARER abc'' = ''BEARER '' @ ''abc'' \<and> equal_fold ''BEARER '' ''bearer '' \<and> ''abc'' \<noteq> []"
    using fold(1) by simp
  then show "extractBearerToken sample_api (?c ''BEARER abc'') = Inr ''abc''"
    using bearer_token_extraction [OF carries] by blast
  show "extractBearerToken sample_api (?c ''Basic abc'') = Inr ''Basic abc''"
    using fold(2) bearer_token_extraction [OF carries] by blast
qed

section \<open>The gate\<close>

text \<open>When authentication applies to a call, and when it succeeds, in a state.\<close>

definition auth_required :: "server_world \<Rightarrow> string \<Rightarrow> bool" where
  "auth_required w method \<longleftrightarrow>
     method \<notin> method_maps w (excludedMethods (defaultConfig w)) \<and> authFunc (defaultConfig w) \<noteq> None"

definition auth_accepts :: "'md srv_env \<Rightarrow> 'md ctx \<Rightarrow> server_world \<Rightarrow> 'md ctx \<Rightarrow> server_world \<Rightarrow> bool" where
  "auth_accepts E c w c' w' \<longleftrightarrow>
     (\<exists>fn token. authFunc (defaultConfig w) = Some fn \<and> extractBearerToken E c = Inr token \<and>
        auth_impl E fn c token w = (Ret (c', None), w'))"

definition auth_messages :: "string set" where
  "auth_messages = {''missing metadata'', ''missing authorization token'', ''empty bearer token'',
     ''authentication failed''}"

lemma extract_error: "extractBearerToken G c = Inl e \<Longrightarrow> \<exists>m \<in> auth_messages. e = unauthenticated m"
  by (auto simp: extractBearerToken_def auth_messages_def Let_def split: option.splits list.splits if_splits)

text \<open>What becomes of a call, whatever its handler is.\<close>

datatype 'md auth_verdict =
    Passed | Accepted "'md ctx" server_world | Rejected string server_world | AuthPanicked panic_val server_world

fun after_auth :: "'md ctx \<Rightarrow> 'req \<Rightarrow> server_world \<Rightarrow> 'md auth_verdict
    \<Rightarrow> ('md, 'req, 'resp) unary_handler \<Rightarrow> 'resp option fallible outcome \<times> server_world" where
  "after_auth c req w Passed h = h c req w"
| "after_auth c req w (Accepted c' w') h = h c' req w'"
| "after_auth c req w (Rejected m w') h = (Ret (None, Some (unauthenticated m)), w')"
| "after_auth c req w (AuthPanicked p w') h = (Panic p, w')"

fun verdict_ok :: "'md srv_env \<Rightarrow> 'md ctx \<Rightarrow> server_world \<Rightarrow> string \<Rightarrow> 'md auth_verdict \<Rightarrow> bool" where
  "verdict_ok E c w method Passed \<longleftrightarrow> \<not> auth_required w method"
| "verdict_ok E c w method (Accepted c' w') \<longleftrightarrow> auth_accepts E c w c' w'"
| "verdict_ok E c w method (Rejected m w') \<longleftrightarrow> auth_required w method \<and> m \<in> auth_messages"
| "verdict_ok E c w method (AuthPanicked p w') \<longleftrightarrow> auth_required w method"

lemma Auth_verdict: "\<exists>v. verdict_ok E c w method v \<and>
    (\<forall>h. Auth E c req method h w = after_auth c req w v h)"
proof (cases "auth_required w method")
  case False
  then show ?thesis
    by (intro exI [of _ Passed]) (auto simp: Auth_def auth_required_def comp_simps split: option.splits)
next
  case True
  then obtain fn where fn: "authFunc (defaultConfig w) = Some fn"
    and m: "method \<notin> method_maps w (excludedMethods (defaultConfig w))"
    by (auto simp: auth_required_def)
  note run = Auth_def authenticateContext_def comp_simps fn m
  show ?thesis
  proof (cases "extractBearerToken E c")
    case (Inl e)
    then obtain msg where "msg \<in> auth_messages" "e = unauthenticated msg" using extract_error by blast
    with True Inl show ?thesis by (intro exI [of _ "Rejected msg w"]) (simp add: run)
  next
    case (Inr token)
    obtain oc w' where call: "auth_impl E fn c token w = (oc, w')" by fastforce
    show ?thesis
    proof (cases oc)
      case (Panic p)
      with True Inr call show ?thesis by (intro exI [of _ "AuthPanicked p w'"]) (simp add: run)
    next
      case (Ret r)
      obtain c' err where r: "r = (c', err)" by fastforce
      show ?thesis
      proof (cases err)
        case None
        with True Inr call Ret r fn show ?thesis
          by (intro exI [of _ "Accepted c' w'"]) (simp add: run auth_accepts_def)
      next
        case (Some e)
        with True Inr call Ret r show ?thesis
          by (intro exI [of _ "Rejected ''authentication failed'' w'"]) (simp add: run auth_messages_def)
      qed
    qed
  qed
qed

lemma conduit_Auth:
  fixes E :: "'md srv_env"
  shows "conduit (paired (Auth E :: ('md, 'req, 'resp) unary_interceptor))"
proof
  let ?I = "paired (Auth E :: ('md, 'req, 'resp) unary_interceptor)"
  fix a :: "'md ctx \<times> 'req" and i w
  obtain c req where a: "a = (c, req)" by (cases a)
  obtain v where v: "\<forall>h :: ('md, 'req, 'resp) unary_handler. Auth E c req i h w = after_auth c req w v h"
    by (rule exE [OF Auth_verdict [of E c w i req]], elim conjE, rule that)
  have "\<exists>a' w' post. (\<forall>h. ?I a i h w = post (h a' w')) \<and> (\<forall>out w''. fst (post (out, w'')) = out)"
    if "\<And>h :: ('md, 'req, 'resp) unary_handler. Auth E c req i h w = h c' req w'" for c' w'
    by (rule exI [of _ "(c', req)"], rule exI [of _ w'], rule exI [of _ id]) (simp add: a that)
  then show "(\<exists>answer. \<forall>h. ?I a i h w = answer) \<or>
        (\<exists>a' w' post. (\<forall>h. ?I a i h w = post (h a' w')) \<and> (\<forall>out w''. fst (post (out, w'')) = out))"
    using v by (cases v) (simp_all add: a)
qed

interpretation auth: conduit "paired (Auth E)" for E
  by (rule conduit_Auth)


lemma sample_gate:
  fixes v token :: string
  defines "c \<equiv> sample_ctx\<lparr>incoming_md := Some (\<lambda>k. [''Bearer '' @ token])\<rparr>"
    and "w \<equiv> snd (WithAuthFunc (Some 0) sample_world)"
  shows "auth_required w ''/a/B''"
    and "token \<noteq> [] \<Longrightarrow> extractBearerToken sample_env c = Inr token"
    and "token \<noteq> [] \<Longrightarrow> Auth sample_env c req ''/a/B'' h w =
      (if token = ''good'' then h (with_value c (OtherKey 0) (StringValue token)) req w
       else (Ret (None, Some (unauthenticated ''authentication failed'')), w))"
proof -
  have cfg: "authFunc (defaultConfig w) = Some 0" "method_maps w (excludedMethods (defaultConfig w)) = {}"
    by (simp_all add: w_def comp_simps sample_world_def initial_config_def initial_maps_def)
  then show "auth_required w ''/a/B''" by (simp add: auth_required_def)
  assume "token \<noteq> []"
  then show tok: "extractBearerToken sample_env c = Inr token"
    by (simp add: extractBearerToken_def c_def sample_env_def scheme_folds)
  show "Auth sample_env c req ''/a/B'' h w =
      (if token = ''good'' then h (with_value c (OtherKey 0) (StringValue token)) req w
       else (Ret (None, Some (unauthenticated ''authentication failed'')), w))"
    by (simp add: Auth_def authenticateContext_def tok comp_simps cfg) (simp add: sample_env_def comp_simps)
qed


text \<open>A refused call never tells the client why the function refused: whatever error it returns
  and whatever state it leaves, the answer is an empty response with code Unauthenticated and
  one of four fixed messages, or the function itself panicked.\<close>

theorem auth_refusal_generic:
  fixes E :: "'md srv_env" and req :: 'req
  assumes "auth_required w method" "\<nexists>c' w'. auth_accepts E c w c' w'"
  shows "(\<exists>m \<in> auth_messages. \<forall>h :: ('md, 'req, 'resp) unary_handler. fst (Auth E c req method h w) = Ret (None, Some (unauthenticated m))) \<or>
         (\<exists>p. \<forall>h :: ('md, 'req, 'resp) unary_handler. fst (Auth E c req method h w) = Panic p)"
proof -
  obtain v where "verdict_ok E c w method v" "\<forall>h :: ('md, 'req, 'resp) unary_handler. Auth E c req method h w = after_auth c req w v h"
    by (rule exE [OF Auth_verdict [of E c w "method" req]], elim conjE, rule that)
  then show ?thesis using assms by (cases v) auto
qed

theorem auth_refusal_generic_witness:
  "\<exists>m \<in> auth_messages. \<forall>h. fst (Auth sample_env (sample_ctx\<lparr>incoming_md := Some (\<lambda>k. [''Bearer '' @ ''bad''])\<rparr>) ()
      ''/a/B'' h (snd (WithAuthFunc (Some 0) sample_world)))
    = (Ret (None, Some (unauthenticated m)) :: unit option fallible outcome)"
proof -
  let ?w = "snd (WithAuthFunc (Some 0) sample_world)"
  let ?c = "sample_ctx\<lparr>incoming_md := Some (\<lambda>k. [''Bearer '' @ ''bad''])\<rparr>"
  have answers: "fst (Auth sample_env ?c () ''/a/B'' h ?w)
      = (Ret (None, Some (unauthenticated ''authentication failed'')) :: unit option fallible outcome)" for h
    by (subst sample_gate(3)) simp_all
  have "authFunc (defaultConfig ?w) = Some 0" by (simp add: comp_simps)
  then have rej: "\<nexists>c' w'. auth_accepts sample_env ?c ?w c' w'"
    by (subst auth_accepts_def, subst sample_gate(2)) (simp_all add: sample_env_def ret_def)
  have "\<not> (\<exists>p. \<forall>h. fst (Auth sample_env ?c () ''/a/B'' h ?w) = (Panic p :: unit option fallible outcome))"
    by (simp only: answers) simp
  then show ?thesis
    by (rule contrapos_np) (rule disjE [OF auth_refusal_generic [OF sample_gate(1) rej]], erule notE, assumption+)
qed

end
