(* ===== verification/Server_Chains.thy ===== *)
theory Server_Chains
  imports Server_Auth Server_Gates Programs
begin

text \<open>
  Stream calls through the server's interceptors. The interceptors come in pairs, a unary one and a
  stream one in the same file. The contract \<open>stream_twin\<close> says that the stream one treats a stream
  as the unary one treats a call with the stream's context; the gates satisfy it, it is kept by
  nesting, and recovery and logging satisfy it up to the text of their messages. The chain of
  \<^verbatim>\<open>cmd/server/main.go\<close> gives streams what it gives unary calls.
\<close>

section \<open>Streams as calls\<close>

definition without_response :: "'resp option fallible scomp \<Rightarrow> goerror option scomp" where
  "without_response m = bindc m (\<lambda>(resp, err). ret err)"

text \<open>A stream handler that does what a unary handler does with the stream's context.\<close>

definition on_stream :: "('md, 'srv, 'resp) unary_handler \<Rightarrow> ('md, 'srv) stream_handler" where
  "on_stream h = (\<lambda>srv ss. without_response (h (Context ss) srv))"

lemma without_response_apply [comp_simps]:
  "without_response m w = (case m w of (Ret (resp, err), w') \<Rightarrow> (Ret err, w') | (Panic p, w') \<Rightarrow> (Panic p, w'))"
  by (auto simp: without_response_def comp_simps split: prod.splits outcome.splits)

locale stream_twin =
  fixes unary :: "('md, 'srv, 'resp) unary_interceptor"
    and stream :: "('md, 'srv) stream_interceptor"
  assumes twin: "stream srv ss i (on_stream h) w = without_response (unary (Context ss) srv i h) w"
begin

lemma twin_fun: "stream srv ss i (on_stream h) = without_response (unary (Context ss) srv i h)"
  by (rule ext) (rule twin)

lemma twin_paired:
  "paired stream (srv, ss) i (\<lambda>(srv, ss). on_stream h srv ss) = without_response (paired unary (Context ss, srv) i (\<lambda>(c, r). h c r))"
  by (simp add: twin_fun)

end

section \<open>The gates\<close>

lemma twin_Auth: "stream_twin (Auth E) (StreamAuth E)"
  by unfold_locales
    (simp add: Auth_def StreamAuth_def on_stream_def comp_simps split: prod.splits outcome.splits option.splits)

lemma twin_RateLimit: "stream_twin (RateLimit E) (StreamRateLimit E)"
  by unfold_locales
    (auto simp: RateLimit_def StreamRateLimit_def on_stream_def comp_simps split: prod.splits outcome.splits option.splits)

lemma twin_RequestID: "stream_twin (RequestID E) (StreamRequestID E)"
  by unfold_locales (simp add: RequestID_apply on_stream_def comp_simps)

interpretation auth_twin: stream_twin "Auth E" "StreamAuth E" for E
  by (rule twin_Auth)

interpretation rate_limit_twin: stream_twin "RateLimit E" "StreamRateLimit E" for E
  by (rule twin_RateLimit)

interpretation request_id_twin: stream_twin "RequestID E" "StreamRequestID E" for E
  by (rule twin_RequestID)

datatype gate = AuthGate | RateLimitGate | RequestIDGate

fun unary_gate :: "'md srv_env \<Rightarrow> gate \<Rightarrow> ('md, 'srv, 'resp) unary_interceptor" where
  "unary_gate E AuthGate = Auth E"
| "unary_gate E RateLimitGate = RateLimit E"
| "unary_gate E RequestIDGate = RequestID E"

fun stream_gate :: "'md srv_env \<Rightarrow> gate \<Rightarrow> ('md, 'srv) stream_interceptor" where
  "stream_gate E AuthGate = StreamAuth E"
| "stream_gate E RateLimitGate = StreamRateLimit E"
| "stream_gate E RequestIDGate = StreamRequestID E"

lemma gate_twin: "stream_gate E g srv ss i (on_stream h) = without_response (unary_gate E g (Context ss) srv i h)"
  by (cases g) (simp_all add: auth_twin.twin_fun rate_limit_twin.twin_fun request_id_twin.twin_fun)

text \<open>C27. A client cannot get past a gate by opening a stream: any chain of authentication, rate
  limiting and request-id interceptors, in any order and number, does with a stream exactly what
  the chain of their unary counterparts does with a call that has the stream's context: the same
  refusals and panics, the same contexts for the handler, the same effects on the state.\<close>

theorem stream_gates_agree:
  fixes h :: "('md, 'srv, 'resp) unary_handler"
  shows "nest (map (\<lambda>g. paired (stream_gate E g)) gs) (srv, ss) i (\<lambda>(srv, ss). on_stream h srv ss) =
         without_response (nest (map (\<lambda>g. paired (unary_gate E g)) gs) (Context ss, srv) i (\<lambda>(c, r). h c r))"
proof (induction gs arbitrary: srv ss)
  case Nil
  show ?case by (simp add: on_stream_def)
next
  case (Cons g gs)
  let ?h = "\<lambda>c r. nest (map (\<lambda>g. paired (unary_gate E g)) gs) (c, r) i (\<lambda>(c, r). h c r)"
  have "nest (map (\<lambda>g. paired (stream_gate E g)) gs) (srv, ss) i (\<lambda>(srv, ss). on_stream h srv ss) = on_stream ?h srv ss" for srv ss
    unfolding Cons.IH by (simp add: on_stream_def)
  then show ?case by (simp add: gate_twin [symmetric])
qed

section \<open>Recovery and logging\<close>

definition untitled :: "server_world \<Rightarrow> server_world" where
  "untitled w = w\<lparr>log_trace := map (log_msg_update (\<lambda>_. [])) (log_trace w)\<rparr>"

lemma recovery_logging_twins:
  "fst (StreamRecovery srv ss i (on_stream h) w) = fst (without_response (Recovery (Context ss) srv i h) w)"
  "untitled (snd (StreamRecovery srv ss i (on_stream h) w)) = untitled (snd (without_response (Recovery (Context ss) srv i h) w))"
  "fst (StreamLogging E srv ss i (on_stream h) w) = fst (without_response (Logging E (Context ss) srv i h) w)"
  "untitled (snd (StreamLogging E srv ss i (on_stream h) w)) = untitled (snd (without_response (Logging E (Context ss) srv i h) w))"
  by (auto simp: StreamRecovery_apply Recovery_apply StreamLogging_apply Logging_apply on_stream_def comp_simps
      untitled_def panic_record_def completion_record_def add_record_def Let_def split: prod.splits outcome.splits)

section \<open>The unary chains\<close>

text \<open>The unary interceptors of \<^verbatim>\<open>cmd/server/main.go\<close>, and those of the usage example in
  \<^verbatim>\<open>internal/server/interceptor/doc.go\<close>, as they are nested around a handler.\<close>

definition main_chain :: "'md srv_env \<Rightarrow> ('md ctx \<times> 'req \<Rightarrow> string
    \<Rightarrow> ('md ctx \<times> 'req \<Rightarrow> 'resp option fallible scomp) \<Rightarrow> 'resp option fallible scomp) list" where
  "main_chain E = map paired (main_unary E)"

definition doc_chain :: "'md srv_env \<Rightarrow> 'req validator \<Rightarrow> ('md ctx \<times> 'req \<Rightarrow> string
    \<Rightarrow> ('md ctx \<times> 'req \<Rightarrow> 'resp option fallible scomp) \<Rightarrow> 'resp option fallible scomp) list" where
  "doc_chain E V = [paired Recovery, paired (Logging E), paired (RequestID E), paired (Auth E),
     paired (Validation E V), paired (RateLimit E)]"

lemma main_chain_run:
  "nest (main_chain E) (c, req) method h w =
     (case h (identified E c (entropy w), req) (announced E c w) of
        (Ret (resp, err), w') \<Rightarrow> (Ret (resp, err),
          add_record (completion_record E (announced E c w) (identified E c (entropy w)) method [] err w') w')
      | (Panic p, w') \<Rightarrow> (Ret (None, Some internal_error),
          add_record (panic_record (resolved (cfg_logger (defaultConfig (announced E c w))) (announced E c w))
            ''panic recovered in gRPC handler'' method p) w'))"
  by (simp add: main_chain_def main_unary_def RequestID_apply Recovery_apply Logging_apply add_record_def split: prod.splits outcome.splits)

section \<open>The stream chain of the server program\<close>

definition main_stream_chain :: "'md srv_env \<Rightarrow> ('srv \<times> 'md server_stream \<Rightarrow> string
    \<Rightarrow> ('srv \<times> 'md server_stream \<Rightarrow> goerror option scomp) \<Rightarrow> goerror option scomp) list" where
  "main_stream_chain E = map paired (main_stream E)"

lemma main_stream_chain_run:
  "nest (main_stream_chain E) (srv, ss) i h w =
     (let c = identified E (Context ss) (entropy w); w0 = announced E (Context ss) w; ss' = WrappedServerStream ss c in
      case h (srv, ss') w0 of
        (Ret err, w') \<Rightarrow> (Ret err, add_record (completion_record E w0 c i ''stream '' err w') w')
      | (Panic p, w') \<Rightarrow> (Ret (Some internal_error),
          add_record (panic_record (resolved (cfg_logger (defaultConfig w0)) w0) ''panic recovered in gRPC stream handler'' i p) w'))"
  by (simp add: main_stream_chain_def main_stream_def RequestID_apply StreamRecovery_apply StreamLogging_apply
      add_record_def Let_def split: prod.splits outcome.splits)

lemma record_request_id:
  assumes "RequestIDFromContext c \<noteq> []"
  shows "{ArgString ''request_id'', ArgString (RequestIDFromContext c)}
           \<subseteq> set (log_args (completion_record E w c method kind err w'))"
  using assms by (simp add: completion_record_def buildLogArgs_def Let_def)

lemma record_info: "log_level (completion_record E w c i kind err w') = LevelInfo \<longleftrightarrow> err = None"
  by (cases err) (simp_all add: completion_record_def completion_level_def Let_def)

text \<open>C29. What the server program does with every stream, whatever its handler does: the handler runs
  once, on the transport's own stream but with a context that carries a well-formed request id,
  the one announced in the header; the call never panics; and one record is added after it, with
  the request id if the handler returned, with the panic value at level Error if it panicked.\<close>

theorem main_stream_chain_serves:
  fixes h :: "'srv \<times> 'md server_stream \<Rightarrow> goerror option scomp"
  assumes "nest (main_stream_chain E) (srv, ss) method h w = (out, w')"
  shows "\<exists>ss' w0 o1 w1 rec. h (srv, ss') w0 = (o1, w1) \<and> w' = add_record rec w1 \<and>
           transport_of ss' = transport_of ss \<and> uuidPattern (RequestIDFromContext (Context ss')) \<and>
           headers_set w0 = headers_set w @ [[(''x-request-id'', RequestIDFromContext (Context ss'))]] \<and>
           (case o1 of
              Ret err \<Rightarrow> out = Ret err \<and> {ArgString ''request_id'', ArgString (RequestIDFromContext (Context ss'))} \<subseteq> set (log_args rec) \<and>
                (log_level rec = LevelInfo \<longleftrightarrow> err = None)
            | Panic p \<Rightarrow> out = Ret (Some internal_error) \<and> log_level rec = LevelError \<and> ArgPanic p \<in> set (log_args rec))"
proof -
  let ?c = "identified E (Context ss) (entropy w)" and ?w = "announced E (Context ss) w"
  let ?ss = "WrappedServerStream ss ?c"
  have uuid: "uuidPattern (RequestIDFromContext (Context ?ss))" by (simp add: call_id_matches)
  then have ne: "RequestIDFromContext ?c \<noteq> []" using uuidPattern_length by force
  have hdr: "headers_set ?w = headers_set w @ [[(''x-request-id'', RequestIDFromContext (Context ?ss))]]"
    by (simp add: announced_def)
  obtain o1 w1 where h: "h (srv, ?ss) ?w = (o1, w1)" by fastforce
  have run: "nest (main_stream_chain E) (srv, ss) method h w = (case (o1, w1) of
      (Ret err, w') \<Rightarrow> (Ret err, add_record (completion_record E ?w ?c method ''stream '' err w') w')
    | (Panic p, w') \<Rightarrow> (Ret (Some internal_error), add_record (panic_record (resolved (cfg_logger (defaultConfig ?w)) ?w)
        ''panic recovered in gRPC stream handler'' method p) w'))"
    by (simp add: main_stream_chain_run Let_def h)
  define rec where "rec = (case o1 of Ret err \<Rightarrow> completion_record E ?w ?c method ''stream '' err w1
    | Panic p \<Rightarrow> panic_record (resolved (cfg_logger (defaultConfig ?w)) ?w) ''panic recovered in gRPC stream handler'' method p)"
  have "w' = add_record rec w1" using assms run by (cases o1) (auto simp: rec_def)
  moreover have "case o1 of
      Ret err \<Rightarrow> out = Ret err \<and> {ArgString ''request_id'', ArgString (RequestIDFromContext (Context ?ss))} \<subseteq> set (log_args rec) \<and>
        (log_level rec = LevelInfo \<longleftrightarrow> err = None)
    | Panic p \<Rightarrow> out = Ret (Some internal_error) \<and> log_level rec = LevelError \<and> ArgPanic p \<in> set (log_args rec)"
    using assms run record_request_id [OF ne] by (cases o1) (auto simp: rec_def panic_record_def panic_args_def record_info)
  moreover have "transport_of ?ss = transport_of ss" by simp
  ultimately show ?thesis using h uuid hdr by blast
qed

theorem main_stream_chain_serves_witness:
  "\<exists>out w'. nest (main_stream_chain sample_env) ((), TransportStream 7 sample_ctx) ''/a/B'' (\<lambda>(srv, ss). panicc NilDereference) sample_world
     = (out, w') \<and> out = Ret (Some internal_error)"
proof -
  obtain out w' where run: "nest (main_stream_chain sample_env) ((), TransportStream 7 sample_ctx) ''/a/B''
      (\<lambda>(srv, ss). panicc NilDereference) sample_world = (out, w')" by fastforce
  have "out = Ret (Some internal_error)"
    using main_stream_chain_serves [OF run] by (auto simp: comp_simps)
  with run show ?thesis by blast
qed

end
