(* ===== verification/End_To_End.thy ===== *)
theory End_To_End
  imports Client_Chain Server_Chains
begin

text \<open>
  A call from the client's interceptors through the transport to the server's and back. What
  \<^verbatim>\<open>grpc\<close> does in between is a parameter, the record \<open>wire\<close>, with its documented behaviour as the
  hypothesis \<open>wire_laws\<close>. The server has a state of its own: the one a call meets may be any, since
  other clients use it in the meantime, so it is an arbitrary function of the client's state at the
  attempt (two attempts of a call never have the same one, because of the Warn record between them).
\<close>

section \<open>The transport\<close>

datatype delivery = Delivered | NotSent goerror | ReplyLost goerror

record ('cmd, 'smd) wire =
  carry_ctx :: "'cmd ctx \<Rightarrow> 'smd ctx"                        \<comment> \<open>the context of the server's handler\<close>
  carry_err :: "goerror option \<Rightarrow> goerror option"            \<comment> \<open>the error the client sees for the server's\<close>
  delivery :: "client_world \<Rightarrow> delivery"
  net_time :: "client_world \<Rightarrow> nat"
  crash_err :: goerror                                       \<comment> \<open>what the client sees when the server process ends\<close>

fun seen :: "('cmd, 'smd) wire \<Rightarrow> 'resp option fallible outcome \<Rightarrow> goerror option outcome" where
  "seen N (Ret (resp, err)) = Ret (carry_err N err)"
| "seen N (Panic p) = Ret (Some (crash_err N))"

text \<open>The invoker at the end of the client's chain, for a server that treats calls as \<open>serve\<close> says.\<close>

definition remote :: "('cmd, 'smd) wire \<Rightarrow> (client_world \<Rightarrow> server_world)
    \<Rightarrow> ('smd ctx \<times> 'req \<Rightarrow> 'resp option fallible scomp) \<Rightarrow> 'cmd ctx \<times> 'req \<Rightarrow> goerror option ccomp" where
  "remote N srv serve = (\<lambda>(c, req) w.
     (case delivery N w of
        Delivered \<Rightarrow> seen N (fst (serve (carry_ctx N c, req) (srv w)))
      | NotSent e \<Rightarrow> Ret (Some e)
      | ReplyLost e \<Rightarrow> Ret (Some e),
      w\<lparr>now := now w + int (net_time N w)\<rparr>))"

text \<open>What \<^verbatim>\<open>grpc\<close> documents: the outgoing metadata of the client is the incoming metadata of the server,
  for the keys the program uses; success is success; and an error with a status arrives as it is.\<close>

definition sent_values :: "('md, 'b) grpc_api_scheme \<Rightarrow> 'md ctx \<Rightarrow> string \<Rightarrow> string list" where
  "sent_values G c k = (case outgoing_md c of None \<Rightarrow> [] | Some md \<Rightarrow> md_get G md k)"

definition wire_laws :: "('cmd, 'b) grpc_api_scheme \<Rightarrow> ('smd, 'd) grpc_api_scheme \<Rightarrow> ('cmd, 'smd) wire \<Rightarrow> bool" where
  "wire_laws C S N \<longleftrightarrow>
     (\<forall>c. \<exists>md. incoming_md (carry_ctx N c) = Some md \<and>
        (\<forall>k \<in> {''authorization'', ''x-request-id''}. md_get S md k = sent_values C c k)) \<and>
     carry_err N None = None \<and>
     (\<forall>code msg. code \<noteq> OK \<longrightarrow> carry_err N (Some (StatusError code msg)) = Some (StatusError code msg))"

lemma wire_lawsD:
  assumes "wire_laws C S N"
  shows "carry_err N None = None"
    and "code \<noteq> OK \<Longrightarrow> carry_err N (Some (StatusError code msg)) = Some (StatusError code msg)"
  using assms by (simp_all add: wire_laws_def)

lemma carried_metadata:
  assumes "wire_laws C S N" "k \<in> {''authorization'', ''x-request-id''}"
  obtains md where "incoming_md (carry_ctx N c) = Some md" "md_get S md k = sent_values C c k"
  using assms unfolding wire_laws_def by blast

text \<open>A transport, for witnesses.\<close>

fun sample_carry :: "goerror option \<Rightarrow> goerror option" where
  "sample_carry None = None"
| "sample_carry (Some (StatusError c m)) = Some (StatusError c m)"
| "sample_carry (Some e) = Some (StatusError Unknown ''unknown'')"

definition sample_wire :: "(string \<Rightarrow> string list, string \<Rightarrow> string list) wire" where
  "sample_wire = \<lparr>carry_ctx = (\<lambda>c. c\<lparr>incoming_md := Some (case outgoing_md c of None \<Rightarrow> (\<lambda>k. []) | Some md \<Rightarrow> md)\<rparr>),
     carry_err = sample_carry, delivery = (\<lambda>w. Delivered), net_time = (\<lambda>w. 1), crash_err = StatusError Unavailable ''closed''\<rparr>"

lemma sample_wire_laws: "wire_laws sample_client_env sample_env sample_wire"
  by (simp add: wire_laws_def sent_values_def sample_wire_def sample_client_env_def sample_env_def split: option.splits)

section \<open>Authentication on both sides\<close>

lemma extracts_sent_token:
  assumes "wire_laws C S N" "sent_values C c ''authorization'' = [''Bearer '' @ token]" "token \<noteq> []"
  shows "extractBearerToken S (carry_ctx N c) = Inr token"
proof -
  obtain md where "incoming_md (carry_ctx N c) = Some md" "md_get S md ''authorization'' = [''Bearer '' @ token]"
    using carried_metadata [OF assms(1), of "''authorization''" c] assms(2) by auto
  then show ?thesis using assms(3) scheme_folds(1) by (simp add: extractBearerToken_def)
qed

lemma token_arrives:
  assumes "md_laws C" "wire_laws C S N" "call_source C s c w = (Ret (c1, None), w1)"
    and "string_value c1 TokenKey = Some token" "token \<noteq> []"
  obtains c2 where "injectToken C c (Some s) l w = (Ret (c2, None), w1)"
    "sent_values C c2 ''authorization'' = [''Bearer '' @ token]" "extractBearerToken S (carry_ctx N c2) = Inr token"
proof -
  obtain md where md: "injectToken C c (Some s) l w = (Ret (c1\<lparr>outgoing_md := Some md\<rparr>, None), w1)"
    "md_get C md ''authorization'' = [''Bearer '' @ token]"
    using injectToken_ok [OF assms(1,3-5)] by blast
  have sent: "sent_values C (c1\<lparr>outgoing_md := Some md\<rparr>) ''authorization'' = [''Bearer '' @ token]"
    by (simp add: sent_values_def md(2))
  show thesis by (rule that [OF md(1) sent extracts_sent_token [OF assms(2) sent assms(5)]])
qed

text \<open>C5. A call with the client's authentication and the server's: what the server's function is asked
  about is exactly the token of the client's source; if it accepts, the rest of the server runs with
  the context it returned and the client sees that outcome; if it does not, the client gets the one
  fixed Unauthenticated error, whatever the function's own error was and whatever handler there is.\<close>

theorem authenticated_call:
  assumes "md_laws C" "wire_laws C S N" "tokenSource (clientConfig w) = Some s"
    and "call_source C s c w = (Ret (c1, None), w1)" "string_value c1 TokenKey = Some token" "token \<noteq> []"
    and "delivery N w1 = Delivered" "auth_required (srv w1) m" "authFunc (defaultConfig (srv w1)) = Some fn"
  shows "\<exists>c2. sent_values C c2 ''authorization'' = [''Bearer '' @ token] \<and>
     fst (paired (Auth_client C) (c, req) m (remote N srv (\<lambda>a. nest (paired (Auth S) # chain) a m h)) w) =
       (case auth_impl S fn (carry_ctx N c2) token (srv w1) of
          (Ret (c', None), s') \<Rightarrow> seen N (fst (nest chain (c', req) m h s'))
        | (Ret (c', Some e), s') \<Rightarrow> Ret (Some (StatusError Unauthenticated ''authentication failed''))
        | (Panic p, s') \<Rightarrow> Ret (Some (crash_err N)))"
proof -
  let ?serve = "\<lambda>a. nest (paired (Auth S) # chain) a m h"
  obtain c2 where inj: "injectToken C c (Some s) (resolved (clc_logger (clientConfig w)) w) w = (Ret (c2, None), w1)"
    and sent: "sent_values C c2 ''authorization'' = [''Bearer '' @ token]" and tok: "extractBearerToken S (carry_ctx N c2) = Inr token"
    by (rule token_arrives [OF assms(1,2,4-6)])
  have "fst (paired (Auth_client C) (c, req) m (remote N srv ?serve) w) = seen N (fst (?serve (carry_ctx N c2, req) (srv w1)))"
    by (simp add: Auth_client_apply assms(3) inj remote_def assms(7))
  moreover have "?serve (carry_ctx N c2, req) (srv w1) =
      (case auth_impl S fn (carry_ctx N c2) token (srv w1) of
         (Ret (c', None), s') \<Rightarrow> nest chain (c', req) m h s'
       | (Ret (c', Some e), s') \<Rightarrow> (Ret (None, Some (unauthenticated ''authentication failed'')), s')
       | (Panic p, s') \<Rightarrow> (Panic p, s'))"
    using assms(8,9) tok
    by (auto simp: Auth_def authenticateContext_def auth_required_def comp_simps split: prod.splits outcome.splits option.splits)
  ultimately show ?thesis using sent wire_lawsD(2) [OF assms(2)]
    by (intro exI [of _ c2]) (auto simp: unauthenticated_def split: prod.splits outcome.splits option.splits)
qed

theorem authenticated_call_witness:
  "fst (paired (Auth_client sample_client_env) (sample_ctx, ()) ''/a/B''
      (remote sample_wire (\<lambda>w. snd (WithAuthFunc (Some 0) sample_world))
        (\<lambda>a. nest [paired (Auth sample_env)] a ''/a/B'' (\<lambda>a. ret (Some (), None))))
      (snd (WithTokenSource (Some (StaticToken ''good'')) sample_client))) = Ret None"
proof -
  let ?w = "snd (WithTokenSource (Some (StaticToken ''good'')) sample_client)"
  let ?s = "snd (WithAuthFunc (Some 0) sample_world)"
  have src: "call_source sample_client_env (StaticToken ''good'') sample_ctx ?w
      = (Ret (with_value sample_ctx TokenKey (StringValue ''good''), None), ?w)" by (simp add: ret_apply)
  have tok: "string_value (with_value sample_ctx TokenKey (StringValue ''good'')) TokenKey = Some ''good''" "''good'' \<noteq> []"
    by simp_all
  have deliv: "delivery sample_wire ?w = Delivered" by (simp add: sample_wire_def)
  have fn: "authFunc (defaultConfig ?s) = Some 0" by (simp add: comp_simps)
  have "auth_impl sample_env 0 c ''good'' ?s = (Ret (with_value c (OtherKey 0) (StringValue ''good''), None), ?s)" for c
    by (simp add: sample_env_def ret_def)
  moreover have "seen sample_wire (fst (ret (Some (), None) s)) = Ret None" for s :: server_world
    by (simp add: sample_wire_def ret_apply)
  ultimately show ?thesis
    using authenticated_call [where srv = "\<lambda>w. ?s" and req = "()" and chain = "[]" and h = "\<lambda>a. ret (Some (), None)",
        OF sample_client_env_laws(2) sample_wire_laws sample_static src tok deliv sample_gate(1) fn]
    by auto
qed

section \<open>Authenticated streams\<close>

text \<open>A stream as the client sees it: opening it succeeds as soon as the call is on its way, and what the
  server makes of it arrives later, as the status the last receive returns. A client stream is
  represented by that status.\<close>

fun stream_seen :: "('cmd, 'smd) wire \<Rightarrow> goerror option outcome \<Rightarrow> goerror option outcome" where
  "stream_seen N (Ret err) = Ret (carry_err N err)"
| "stream_seen N (Panic p) = Ret (Some (crash_err N))"

definition remote_stream :: "('cmd, 'smd) wire \<Rightarrow> (client_world \<Rightarrow> server_world) \<Rightarrow> nat
    \<Rightarrow> ('srv \<times> 'smd server_stream \<Rightarrow> goerror option scomp) \<Rightarrow> 'cmd ctx \<times> 'srv
    \<Rightarrow> goerror option outcome option fallible ccomp" where
  "remote_stream N srv i serve = (\<lambda>(c, impl) w.
     (case delivery N w of
        Delivered \<Rightarrow> Ret (Some (stream_seen N (fst (serve (impl, TransportStream i (carry_ctx N c)) (srv w)))), None)
      | NotSent e \<Rightarrow> Ret (None, Some e)
      | ReplyLost e \<Rightarrow> Ret (Some (Ret (Some e)), None),
      w\<lparr>now := now w + int (net_time N w)\<rparr>))"

text \<open>A stream is authenticated as a call is: the same token is asked about, an accepted stream is handled
  on the transport's stream with the function's context, and a refused one ends with the same fixed
  error, which the client reads from the stream it has opened.\<close>

lemma authenticated_stream:
  assumes "md_laws C" "wire_laws C S N" "tokenSource (clientConfig w) = Some s"
    and "call_source C s c w = (Ret (c1, None), w1)" "string_value c1 TokenKey = Some token" "token \<noteq> []"
    and "delivery N w1 = Delivered" "auth_required (srv w1) m" "authFunc (defaultConfig (srv w1)) = Some fn"
  shows "\<exists>c2. sent_values C c2 ''authorization'' = [''Bearer '' @ token] \<and>
     fst (paired (StreamAuth_client C) (c, impl) m (remote_stream N srv i (\<lambda>a. nest (paired (StreamAuth S) # chain) a m h)) w) =
       Ret (Some (case auth_impl S fn (carry_ctx N c2) token (srv w1) of
          (Ret (c', None), s') \<Rightarrow>
            stream_seen N (fst (nest chain (impl, WrappedServerStream (TransportStream i (carry_ctx N c2)) c') m h s'))
        | (Ret (c', Some e), s') \<Rightarrow> Ret (Some (StatusError Unauthenticated ''authentication failed''))
        | (Panic p, s') \<Rightarrow> Ret (Some (crash_err N))), None)"
proof -
  let ?serve = "\<lambda>a. nest (paired (StreamAuth S) # chain) a m h"
  obtain c2 where inj: "injectToken C c (Some s) (resolved (clc_logger (clientConfig w)) w) w = (Ret (c2, None), w1)"
    and sent: "sent_values C c2 ''authorization'' = [''Bearer '' @ token]" and tok: "extractBearerToken S (carry_ctx N c2) = Inr token"
    by (rule token_arrives [OF assms(1,2,4-6)])
  let ?ss = "TransportStream i (carry_ctx N c2)"
  have "fst (paired (StreamAuth_client C) (c, impl) m (remote_stream N srv i ?serve) w) =
      Ret (Some (stream_seen N (fst (?serve (impl, ?ss) (srv w1)))), None)"
    by (simp add: Auth_client_apply assms(3) inj remote_stream_def assms(7))
  moreover have "?serve (impl, ?ss) (srv w1) =
      (case auth_impl S fn (carry_ctx N c2) token (srv w1) of
         (Ret (c', None), s') \<Rightarrow> nest chain (impl, WrappedServerStream ?ss c') m h s'
       | (Ret (c', Some e), s') \<Rightarrow> (Ret (Some (unauthenticated ''authentication failed'')), s')
       | (Panic p, s') \<Rightarrow> (Panic p, s'))"
    using assms(8,9) tok
    by (auto simp: StreamAuth_def authenticateContext_def auth_required_def comp_simps split: prod.splits outcome.splits option.splits)
  ultimately show ?thesis using sent wire_lawsD(2) [OF assms(2)]
    by (intro exI [of _ c2]) (auto simp: unauthenticated_def split: prod.splits outcome.splits option.splits)
qed

section \<open>Request ids\<close>

fun recovered :: "'resp option fallible outcome \<Rightarrow> 'resp option fallible outcome" where
  \<comment> \<open>what the recovery interceptor makes of an outcome\<close>
  "recovered (Ret r) = Ret r"
| "recovered (Panic p) = Ret (None, Some internal_error)"

lemma sent_values_deadlined [simp]: "sent_values G (deadlined d t c) k = sent_values G c k"
  by (simp add: sent_values_def deadlined_def with_timeout_def split: option.splits)

lemma identified_sent:
  assumes "wire_laws C S N" "sent_values C c ''x-request-id'' = rid # vs" "uuidPattern rid"
  shows "RequestIDFromContext (identified S (carry_ctx N c) en) = rid"
proof -
  obtain md where "incoming_md (carry_ctx N c) = Some md" "md_get S md ''x-request-id'' = rid # vs"
    using carried_metadata [OF assms(1), of "''x-request-id''" c] assms(2) by auto
  then show ?thesis using assms(3) by (simp add: identified_def RequestIDFromContext_def call_id_def client_id_def)
qed



section \<open>Retries\<close>

text \<open>The states the attempts of a retried call start in.\<close>

lemma attempts_worlds:
  "attempts E cfg c call m h k w es wn \<Longrightarrow>
     \<exists>ws. length ws = Suc (length es) \<and> ws ! 0 = w \<and> ws ! length es = wn \<and>
       (\<forall>i < length es. retried E cfg c call m h (k + int i) (ws ! i) (es ! i) (ws ! Suc i))"
proof (induction es arbitrary: k w)
  case Nil
  then show ?case by (intro exI [of _ "[w]"]) simp
next
  case (Cons e es)
  then obtain w2 where w2: "retried E cfg c call m h k w e w2" "attempts E cfg c call m h (k + 1) w2 es wn" by auto
  from Cons.IH [OF w2(2)] obtain ws where ws: "length ws = Suc (length es)" "ws ! 0 = w2" "ws ! length es = wn"
    "\<forall>i < length es. retried E cfg c call m h (k + 1 + int i) (ws ! i) (es ! i) (ws ! Suc i)" by blast
  have "retried E cfg c call m h (k + int i) ((w # ws) ! i) ((e # es) ! i) ((w # ws) ! Suc i)" if "i < Suc (length es)" for i
  proof (cases i)
    case 0
    then show ?thesis using w2(1) ws(2) by simp
  next
    case (Suc j)
    then show ?thesis using ws(4) that by (simp add: add.assoc)
  qed
  then show ?case using ws by (intro exI [of _ "w # ws"]) simp
qed

lemma conduit_doc:
  "conduit (nest [paired (Logging E), paired (RequestID E), paired (Auth E), paired (Validation E V), paired (RateLimit E)])"
proof (rule conduit_nest)
  fix I
  assume "I \<in> set [paired (Logging E), paired (RequestID E), paired (Auth E), paired (Validation E V), paired (RateLimit E)]"
  then show "conduit I"
    using logging_conduit.conduit_axioms request_id_conduit.conduit_axioms auth.conduit_axioms validation.conduit_axioms
      rate_limit.conduit_axioms by auto
qed

lemma recovery_over_conduit:
  assumes "conduit J"
  shows "(\<exists>answer. \<forall>h. paired Recovery a m (\<lambda>a'. J a' m h) s = answer) \<or>
         (\<exists>a' s'. \<forall>h. fst (paired Recovery a m (\<lambda>a'. J a' m h) s) = recovered (fst (h a' s')))"
proof -
  obtain c req where a: "a = (c, req)" by (cases a)
  from conduit.conducts [OF assms, of a m s] show ?thesis
  proof
    assume "\<exists>answer. \<forall>h. J a m h s = answer"
    then obtain answer where "\<And>h. J a m h s = answer" by blast
    then have "paired Recovery a m (\<lambda>a'. J a' m h) s = paired Recovery a m (\<lambda>a'. J a' m (\<lambda>_. panicc NilDereference)) s" for h
      by (simp add: a Recovery_apply)
    then show ?thesis by blast
  next
    assume "\<exists>a' w' post. (\<forall>h. J a m h s = post (h a' w')) \<and> (\<forall>out w''. fst (post (out, w'')) = out)"
    then obtain a' w' post where p: "\<And>h. J a m h s = post (h a' w')" "\<And>out w''. fst (post (out, w'')) = out" by blast
    have "fst (paired Recovery a m (\<lambda>a'. J a' m h) s) = recovered (fst (J a m h s))" for h
      by (simp add: a Recovery_apply split: prod.splits outcome.splits)
    moreover have "fst (J a m h s) = fst (h a' w')" for h unfolding p(1) by (cases "h a' w'") (simp add: p(2))
    ultimately show ?thesis by (intro disjI2 exI [of _ a'] exI [of _ w']) simp
  qed
qed

lemma doc_chain_serves:
  fixes S :: "'md srv_env" and V :: "'req validator"
  defines "chain \<equiv> (doc_chain S V :: ('md ctx \<times> 'req \<Rightarrow> string
    \<Rightarrow> ('md ctx \<times> 'req \<Rightarrow> 'resp option fallible scomp) \<Rightarrow> 'resp option fallible scomp) list)"
  shows "(\<exists>answer. \<forall>h. nest chain a m h s = answer) \<or>
         (\<exists>a' s'. \<forall>h. fst (nest chain a m h s) = recovered (fst (h a' s')))"
  using recovery_over_conduit [OF conduit_doc, of a m S V s] unfolding chain_def doc_chain_def nest.simps(2) [of "paired Recovery"] .

definition documented_server :: "'md srv_env \<Rightarrow> 'req validator \<Rightarrow> string \<Rightarrow> ('md ctx \<times> 'req \<Rightarrow> 'resp option fallible scomp)
    \<Rightarrow> 'md ctx \<times> 'req \<Rightarrow> 'resp option fallible scomp" where
  "documented_server S V m h = (\<lambda>a. nest (doc_chain S V) a m h)"

lemma final_outcome:
  fixes h :: "'smd ctx \<times> 'req \<Rightarrow> 'resp option fallible scomp"
  assumes "status_laws C" "wire_laws C S N" "Internal \<notin> set (retryCodes cfg)"
    and "\<And>a s resp e s'. h a s = (Ret (resp, Some e), s') \<Longrightarrow> gives_up C cfg (Ret (carry_err N (Some e)))"
  shows "gives_up C cfg (seen N (recovered (fst (h a s))))"
proof (cases "h a s")
  case (Pair o1 s1)
  show ?thesis
  proof (cases o1)
    case (Panic p)
    have "carry_err N (Some internal_error) = Some internal_error"
      using wire_lawsD(2) [OF assms(2)] by (simp add: internal_error_def)
    then show ?thesis using Pair Panic assms(1,3)
      by (simp add: gives_up_def status_laws_def internal_error_def status_code_def isRetryable_def)
  next
    case (Ret r)
    obtain resp err where r: "r = (resp, err)" by fastforce
    show ?thesis
    proof (cases err)
      case None
      then show ?thesis using Pair Ret r wire_lawsD(1) [OF assms(2)] by (simp add: gives_up_def)
    next
      case (Some e)
      then show ?thesis using Pair Ret r assms(4) [of a s resp e s1] by simp
    qed
  qed
qed



end
