(* ===== verification/Greeting.thy ===== *)
theory Greeting
  imports Stubs End_To_End Client_Program
begin

text \<open>
  The client program against the server program. A call goes from the generated stub through the
  client's interceptors, the transport and the server's interceptors to the greeter service, and the
  reply comes back into the response object the stub has allocated. The connection that the
  program's network gives it is built here from the client program's chains and the server
  program's chains; what remains a parameter is the transport.
\<close>

section \<open>Unary calls\<close>

definition chained :: "('a \<times> 'b \<Rightarrow> 'i \<Rightarrow> ('a \<times> 'b \<Rightarrow> ('w, 'r) comp) \<Rightarrow> ('w, 'r) comp) list
    \<Rightarrow> 'a \<Rightarrow> 'b \<Rightarrow> 'i \<Rightarrow> ('a \<Rightarrow> 'b \<Rightarrow> ('w, 'r) comp) \<Rightarrow> ('w, 'r) comp" where
  \<comment> \<open>interceptors chained into one\<close>
  "chained Is a b i h = nest Is (a, b) i (\<lambda>(a, b). h a b)"

definition greeter_unary :: "'md srv_env \<Rightarrow> service \<Rightarrow> 'md ctx \<times> string \<Rightarrow> string option fallible scomp" where
  \<comment> \<open>a call of \<^verbatim>\<open>SayHello\<close> as the server program treats it\<close>
  "greeter_unary S v = (\<lambda>(c, request). SayHello_Handler v c (Inr request) (Some (chained (main_chain S))))"

fun reply_of :: "string option fallible outcome \<Rightarrow> string" where
  "reply_of (Ret (Some m, err)) = m"
| "reply_of _ = []"

text \<open>The invoker at the end of the client's chain: on success the reply is decoded into the object.\<close>

definition remote_reply :: "('cmd, 'smd) wire \<Rightarrow> (client_world \<Rightarrow> server_world)
    \<Rightarrow> ('smd ctx \<times> string \<Rightarrow> string option fallible scomp) \<Rightarrow> 'cmd ctx \<times> string \<times> nat \<Rightarrow> goerror option ccomp" where
  "remote_reply N srv serve = (\<lambda>(c, request, out) w.
     (case remote N srv serve (c, request) w of
        (Ret None, w') \<Rightarrow> (Ret None, w'\<lparr>objects := (objects w')[out := reply_of (fst (serve (carry_ctx N c, request) (srv w)))]\<rparr>)
      | r \<Rightarrow> r))"

section \<open>Streams and the connection\<close>

text \<open>\<^verbatim>\<open>Send\<close> on the transport's stream with a number, which accepts a message or fails; and what a client
  receives, the accepted messages and then the end of the stream.\<close>

definition send_on :: "(nat \<Rightarrow> string \<Rightarrow> server_world \<Rightarrow> goerror option) \<Rightarrow> nat \<Rightarrow> string \<Rightarrow> goerror option scomp" where
  "send_on refuses i msg = (\<lambda>w. case refuses i msg w of
     None \<Rightarrow> (Ret None, w\<lparr>sent_msgs := sent_msgs w @ [(i, msg)]\<rparr>) | Some e \<Rightarrow> (Ret (Some e), w))"

definition messages_on :: "nat \<Rightarrow> (nat \<times> string) list \<Rightarrow> string list" where
  "messages_on i t = map snd (filter (\<lambda>x. fst x = i) t)"

type_synonym client_stream = "string list \<times> goerror option"

fun stream_status :: "('cmd, 'smd) wire \<Rightarrow> goerror option outcome \<Rightarrow> goerror option" where
  "stream_status N (Ret err) = carry_err N err"
| "stream_status N (Panic p) = Some (crash_err N)"

fun recv_from :: "client_stream option \<Rightarrow> nat \<Rightarrow> goerror + string" where
  "recv_from None i = Inl io_EOF"
| "recv_from (Some (ms, st)) i = (if i < length ms then Inr (ms ! i) else Inl (case st of None \<Rightarrow> io_EOF | Some e \<Rightarrow> e))"

definition greeter_stream :: "'md srv_env \<Rightarrow> service \<Rightarrow> (nat \<Rightarrow> string \<Rightarrow> server_world \<Rightarrow> goerror option) \<Rightarrow> string
    \<Rightarrow> 'md server_stream \<Rightarrow> goerror option scomp" where
  \<comment> \<open>a stream as the server program treats it, on which \<open>request\<close> arrives\<close>
  "greeter_stream S v refuses request = (\<lambda>ss. nest (main_stream_chain S) (v, ss) SayHelloServerStream_FullMethodName
     (\<lambda>(v, ss). SayHelloServerStream_Handler (\<lambda>i. ret (Inr request)) (send_on refuses) v ss))"

definition open_remote :: "('cmd, 'smd) wire \<Rightarrow> (client_world \<Rightarrow> server_world) \<Rightarrow> nat \<Rightarrow> ('smd server_stream \<Rightarrow> goerror option scomp)
    \<Rightarrow> 'cmd ctx \<Rightarrow> client_stream option fallible ccomp" where
  "open_remote N srv i serve = (\<lambda>c w.
     (case delivery N w of
        Delivered \<Rightarrow> (case serve (TransportStream i (carry_ctx N c)) (srv w) of
          (out, s') \<Rightarrow> Ret (Some (messages_on i (drop (length (sent_msgs (srv w))) (sent_msgs s')), stream_status N out), None))
      | NotSent e \<Rightarrow> Ret (None, Some e)
      | ReplyLost e \<Rightarrow> Ret (Some ([], Some e), None),
      w\<lparr>now := now w + int (net_time N w)\<rparr>))"

text \<open>The connection. A stub opens its stream before it sends the request; since a stream is represented by what
  is going to come of it, the connection is indexed by the request that is going to be sent, and by
  the number of the transport's stream.\<close>

definition program_conn :: "'cmd client_env \<Rightarrow> 'smd srv_env \<Rightarrow> service \<Rightarrow> (nat \<Rightarrow> string \<Rightarrow> server_world \<Rightarrow> goerror option)
    \<Rightarrow> ('cmd, 'smd) wire \<Rightarrow> (client_world \<Rightarrow> server_world) \<Rightarrow> nat \<Rightarrow> string \<Rightarrow> ('cmd, client_stream) client_conn" where
  "program_conn C S v refuses N srv i request =
     \<lparr>cc_invoke = (\<lambda>c m request out. nest (client_chain C) (c, request, out) m (remote_reply N srv (greeter_unary S v))),
      cc_new_stream = (\<lambda>c m. StreamLogging_client C c () m (\<lambda>c u. open_remote N srv i (greeter_stream S v refuses request) c)),
      cs_send_msg = (\<lambda>cs m. ret None), cs_close_send = (\<lambda>cs. ret None)\<rparr>"

section \<open>What a call brings\<close>

lemma greeter_unary_run:
  "fst (greeter_unary S v (c, request) s) = Ret (Some (hello request), None)"
  by (simp add: greeter_unary_def SayHello_Handler_def chained_def main_chain_run SayHello_def comp_simps)

text \<open>What one attempt does.\<close>

lemma remote_reply_run:
  assumes "carry_err N None = None"
  shows "remote_reply N srv (greeter_unary S v) (c, request, out) w =
     (case delivery N w of
        Delivered \<Rightarrow> (Ret None, w\<lparr>now := now w + int (net_time N w), objects := (objects w)[out := hello request]\<rparr>)
      | NotSent e \<Rightarrow> (Ret (Some e), w\<lparr>now := now w + int (net_time N w)\<rparr>)
      | ReplyLost e \<Rightarrow> (Ret (Some e), w\<lparr>now := now w + int (net_time N w)\<rparr>))"
  using assms by (auto simp: remote_reply_def remote_def greeter_unary_run split: delivery.splits)

lemma Retry_first_success:
  assumes "0 < retryMax (clientConfig w)" "retryMax (clientConfig w) < max_int64" "h c call w = (Ret None, w1)"
  shows "Retry E c call m h w = (Ret None, w1)"
proof -
  have "i64 (retryMax (clientConfig w) + 1) = retryMax (clientConfig w) + 1" using assms(1,2) by (intro i64_nonneg) auto
  then have "nat (i64 (retryMax (clientConfig w) + 1)) = Suc (nat (retryMax (clientConfig w)))" using assms(1) by simp
  then show ?thesis using assms by (simp add: Retry_def comp_simps)
qed

lemma attempts_objects:
  assumes "\<And>v e v'. h c call v = (Ret (Some e), v') \<Longrightarrow> objects v' = objects v"
  shows "attempts E cfg c call m h k w es wn \<Longrightarrow> objects wn = objects w"
proof (induction es arbitrary: k w)
  case (Cons e es)
  then obtain w2 where w2: "retried E cfg c call m h k w e w2" "attempts E cfg c call m h (k + 1) w2 es wn" by auto
  then have "objects w2 = objects w" using assms by (auto simp: retried_def)
  then show ?case using Cons.IH [OF w2(2)] by simp
qed simp

lemma stub_over_chain:
  fixes C :: "'cmd client_env" and S :: "'smd srv_env"
  defines "h \<equiv> \<lambda>N srv v c (request, out). remote_reply N srv (greeter_unary S v) (c, request, out)"
  shows "stub_SayHello (program_conn C S v refuses N srv i request) c name w =
     (let w0 = w\<lparr>objects := objects w @ [[]]\<rparr> in
      case Retry C (deadlined (defaultTimeout (clientConfig w)) (now w) c) (name, length (objects w)) SayHello_FullMethodName
          (h N srv v) w0 of
        (Ret None, w') \<Rightarrow> (Ret (Some (objects w' ! length (objects w)), None),
          w'\<lparr>log_trace := log_trace w' @ [call_record C w0 SayHello_FullMethodName None w']\<rparr>)
      | (Ret (Some e), w') \<Rightarrow> (Ret (None, Some e), w'\<lparr>log_trace := log_trace w' @ [call_record C w0 SayHello_FullMethodName (Some e) w']\<rparr>)
      | (Panic p, w') \<Rightarrow> (Panic p, w'))"
proof -
  have "(\<lambda>c call. remote_reply N srv (greeter_unary S v) (c, call)) = h N srv v" by (auto simp: h_def fun_eq_iff)
  then show ?thesis
    by (auto simp: stub_SayHello_apply program_conn_def client_chain_run Let_def split: prod.splits outcome.splits option.splits)
qed

text \<open>C7. What a greeting is worth: over a transport that may fail before or after the server has been
  reached, with retries and other clients in between, a call of the stub always returns, with a reply
  or with an error; if it is a reply, it is the greeting of the name that was sent, and if the first
  attempt is delivered it is one.\<close>

theorem greeting_over_the_wire:
  fixes C :: "'cmd client_env" and S :: "'smd srv_env"
  assumes "wire_laws C S N" "0 < retryMax (clientConfig w)" "retryMax (clientConfig w) < max_int64"
  shows "\<exists>r w'. stub_SayHello (program_conn C S v refuses N srv i request) c name w = (Ret r, w') \<and>
           (r = (Some (hello name), None) \<or>
            (\<exists>e. r = (None, Some e)) \<and> delivery N (w\<lparr>objects := objects w @ [[]]\<rparr>) \<noteq> Delivered)"
proof -
  let ?w = "w\<lparr>objects := objects w @ [[]]\<rparr>" and ?c = "deadlined (defaultTimeout (clientConfig w)) (now w) c"
  let ?out = "length (objects w)"
  let ?h = "\<lambda>c (request, out). remote_reply N srv (greeter_unary S v) (c, request, out)"
  note attempt = remote_reply_run [OF wire_lawsD(1) [OF assms(1)], of srv S v]
  obtain o1 w1 where run: "Retry C ?c (name, ?out) SayHello_FullMethodName ?h ?w = (o1, w1)" by fastforce
  have keeps: "objects v' = objects u" if "?h ?c (name, ?out) u = (Ret (Some e), v')" for u e v'
    using that by (auto simp: attempt split: delivery.splits)
  have retry: "0 < retryMax (clientConfig ?w)" "retryMax (clientConfig ?w) < max_int64" using assms(2,3) by simp_all
  have first: "o1 = Ret None" if "delivery N ?w = Delivered"
    using Retry_first_success [OF retry, of ?h ?c "(name, ?out)"] run that by (auto simp: attempt)
  from retry_spec [OF retry run] obtain es wn where
    es: "attempts C (clientConfig ?w) ?c (name, ?out) SayHello_FullMethodName ?h 0 ?w es wn"
    "?h ?c (name, ?out) wn = (o1, w1) \<or> (\<exists>x. o1 = Ret (Some (ContextError x)))" by blast
  have "objects wn = objects ?w" by (rule attempts_objects [OF keeps es(1)])
  then have "o1 = Ret None \<and> objects w1 ! ?out = hello name \<or> (\<exists>e. o1 = Ret (Some e))"
    using es(2) by (auto simp: attempt split: delivery.splits)
  then show ?thesis
    using run first by (auto simp: stub_over_chain Let_def)
qed

theorem greeting_over_the_wire_witness:
  "\<exists>w'. stub_SayHello (program_conn sample_client_env sample_env (NewService SlogHandler) (\<lambda>i m w. None) sample_wire (\<lambda>w. sample_world) 0 []) sample_ctx
      ''Gopher'' (snd (WithRetry 3 second sample_client)) = (Ret (Some ''Hello, Gopher!'', None), w')"
proof -
  let ?w = "snd (WithRetry 3 second sample_client)"
  have "0 < retryMax (clientConfig ?w)" "retryMax (clientConfig ?w) < max_int64"
    by (simp_all add: client_option_defs comp_simps max_int64_def)
  from greeting_over_the_wire [OF sample_wire_laws this, where refuses = "\<lambda>i m w. None" and i = 0 and request = "[]"]
  obtain r w' where "stub_SayHello (program_conn sample_client_env sample_env (NewService SlogHandler) (\<lambda>i m w. None) sample_wire (\<lambda>w. sample_world) 0 [])
      sample_ctx ''Gopher'' ?w = (Ret r, w')" "r = (Some (hello ''Gopher''), None) \<or> \<not> delivery sample_wire
      (?w\<lparr>objects := objects ?w @ [[]]\<rparr>) = Delivered" by blast
  moreover have "delivery sample_wire u = Delivered" for u by (simp add: sample_wire_def)
  ultimately show ?thesis by (auto simp: hello_def)
qed

section \<open>What a stream brings\<close>

lemma send_greetings_sent:
  "send_greetings (send_on refuses i) td gs w = (out, w') \<Longrightarrow>
     \<exists>k. sent_msgs w' = sent_msgs w @ map (Pair i) (take k gs) \<and>
       (out = Ret None \<and> length gs \<le> k \<or>
        (\<exists>g u e. refuses i g u = Some e \<and> out = Ret (Some (WrapError ''failed to send greeting: '' e))))"
proof (induction gs arbitrary: w)
  case Nil
  then show ?case by (simp add: ret_apply)
next
  case (Cons g gs)
  show ?case
  proof (cases "refuses i g w")
    case (Some e)
    then have "send_on refuses i g w = (Ret (Some e), w)" by (simp add: send_on_def)
    then have "out = Ret (Some (WrapError ''failed to send greeting: '' e)) \<and> w' = w"
      using Cons.prems by (auto simp: comp_simps)
    then show ?thesis using Some by (intro exI [of _ 0]) auto
  next
    case None
    let ?w1 = "w\<lparr>sent_msgs := sent_msgs w @ [(i, g)]\<rparr>"
    have sent: "send_on refuses i g w = (Ret None, ?w1)" using None by (simp add: send_on_def)
    obtain w2 where w2: "send_greetings (send_on refuses i) td gs w2 = (out, w')" "sent_msgs w2 = sent_msgs ?w1"
    proof (cases "gs = []")
      case True
      then show ?thesis using Cons.prems sent by (intro that [of ?w1]) (simp_all add: comp_simps)
    next
      case False
      obtain sel w2 where sel: "select_timer_done (500 * millisecond) td ?w1 = (sel, w2)" by fastforce
      then obtain t s b where "w2 = ?w1\<lparr>now := t, sched := s\<rparr>" "sel = Ret b" using select_timer_done_only_clock by blast
      then show ?thesis using Cons.prems sent False sel by (intro that [of w2]) (simp_all add: comp_simps)
    qed
    from Cons.IH [OF w2(1)] obtain k where "sent_msgs w' = sent_msgs w2 @ map (Pair i) (take k gs)"
      "out = Ret None \<and> length gs \<le> k \<or>
        (\<exists>g u e. refuses i g u = Some e \<and> out = Ret (Some (WrapError ''failed to send greeting: '' e)))" by blast
    then show ?thesis using w2(2) by (intro exI [of _ "Suc k"]) auto
  qed
qed

lemma messages_on_own [simp]: "messages_on i (map (Pair i) ms) = ms"
  by (induction ms) (simp_all add: messages_on_def)

lemma add_record_sent [simp]: "sent_msgs (add_record r w) = sent_msgs w"
  by (simp add: add_record_def)

lemma announced_sent [simp]: "sent_msgs (announced E c w) = sent_msgs w"
  by (simp add: announced_def)

lemma greeter_stream_run:
  assumes "greeter_stream S v refuses request (TransportStream i c) w = (out, w')"
  shows "\<exists>k. sent_msgs w' = sent_msgs w @ map (Pair i) (take k (greetings request)) \<and>
    (out = Ret None \<and> take k (greetings request) = greetings request \<or>
     (\<exists>g u e. refuses i g u = Some e \<and> out = Ret (Some (WrapError ''failed to send greeting: '' e))))"
proof -
  let ?ss = "WrappedServerStream (TransportStream i c) (identified S c (entropy w))"
  obtain o1 w1 where h: "SayHelloServerStream v (send_on refuses i) request (Context ?ss) (announced S c w) = (o1, w1)" by fastforce
  let ?w = "snd (log_call (svc_log v) LevelInfo ''received SayHelloServerStream request'' [ArgString ''name'', ArgString request] (announced S c w))"
  have greet: "send_greetings (send_on refuses i) (map_option fst (done_at (Context ?ss))) (greetings request) ?w = (o1, w1)"
    using h by (simp add: SayHelloServerStream_def comp_simps)
  obtain k where k: "sent_msgs w1 = sent_msgs ?w @ map (Pair i) (take k (greetings request))"
    "o1 = Ret None \<and> length (greetings request) \<le> k \<or>
     (\<exists>g u e. refuses i g u = Some e \<and> o1 = Ret (Some (WrapError ''failed to send greeting: '' e)))"
    using send_greetings_sent [OF greet] by blast
  have sent: "sent_msgs ?w = sent_msgs w" by (simp add: comp_simps)
  have "out = o1 \<and> sent_msgs w' = sent_msgs w1"
    using assms h k(2) by (auto simp: greeter_stream_def main_stream_chain_run SayHelloServerStream_Handler_def comp_simps Let_def)
  then show ?thesis using k unfolding sent by (intro exI [of _ k]) auto
qed

text \<open>What \<^verbatim>\<open>grpc\<close> documents of errors: one whose status is not OK arrives as an error, which is not \<^verbatim>\<open>io.EOF\<close>.\<close>

fun ok_status :: "goerror \<Rightarrow> bool" where
  "ok_status (StatusError c m) = (c = OK)"
| "ok_status (WrapError s e) = ok_status e"
| "ok_status _ = False"

definition errors_arrive :: "('cmd, 'smd) wire \<Rightarrow> bool" where
  "errors_arrive N \<longleftrightarrow> (\<forall>e. \<not> ok_status e \<longrightarrow> carry_err N (Some e) \<notin> {None, Some io_EOF}) \<and>
     (\<forall>w e. delivery N w = ReplyLost e \<longrightarrow> e \<noteq> io_EOF)"

lemma stream_stub_run:
  "stub_SayHelloServerStream (program_conn C S v refuses N srv i request) c request w =
     (case StreamLogging_client C c () SayHelloServerStream_FullMethodName
        (\<lambda>c u. open_remote N srv i (greeter_stream S v refuses request) c) w of
        (Ret (cs, None), w') \<Rightarrow> (Ret (cs, None), w')
      | (Ret (cs, Some e), w') \<Rightarrow> (Ret (None, Some e), w')
      | (Panic p, w') \<Rightarrow> (Panic p, w'))"
  by (auto simp: stub_SayHelloServerStream_def program_conn_def comp_simps split: prod.splits outcome.splits option.splits)

definition opening_record :: "client_world \<Rightarrow> log_record" where
  "opening_record w = \<lparr>log_sink = sink_of (resolved (clc_logger (clientConfig w)) w), log_level = LevelInfo,
     log_msg = ''stream opening'', log_args = [ArgString ''method'', ArgString SayHelloServerStream_FullMethodName]\<rparr>"

lemma stream_opened:
  "stub_SayHelloServerStream (program_conn C S v refuses N srv i request) c request w = (Ret (cs, None), w') \<longleftrightarrow>
     open_remote N srv i (greeter_stream S v refuses request) c (add_record (opening_record w) w) = (Ret (cs, None), w')"
  by (auto simp: stream_stub_run StreamLogging_client_def opening_record_def add_record_def time_now_def comp_simps
      split: prod.splits outcome.splits option.splits)


lemma sample_errors_arrive: "errors_arrive sample_wire"
proof -
  have "sample_carry (Some e) \<notin> {None, Some io_EOF}" for e by (cases e) (simp_all add: io_EOF_def)
  then show ?thesis by (auto simp: errors_arrive_def sample_wire_def)
qed


section \<open>The two programs\<close>

text \<open>The network of the client program, with the server program at its other end. Service discovery and
  closing stay parameters.\<close>

definition program_network :: "(nat \<Rightarrow> goerror option) \<Rightarrow> (nat \<Rightarrow> goerror + string list option) \<Rightarrow> (nat \<Rightarrow> goerror option)
    \<Rightarrow> (string \<Rightarrow> ('cmd, client_stream) client_conn) \<Rightarrow> ('cmd, client_stream) network" where
  "program_network ro rr close conn_for = \<lparr>reflect_open = ro, reflect_recv = rr, rpc_hello = (\<lambda>p c name. stub_SayHello (conn_for name) c name),
     rpc_stream = (\<lambda>p c name. stub_SayHelloServerStream (conn_for name) c name), stream_recv = recv_from, conn_close = close\<rparr>"

text \<open>The responses the program has logged, among its records.\<close>

definition is_response :: "log_record \<Rightarrow> bool" where
  "is_response r \<longleftrightarrow> log_msg r \<in> {''SayHello response'', ''stream response''}"

definition responses :: "log_record list \<Rightarrow> log_arg list list" where
  "responses t = map log_args (filter is_response t)"

lemma responses_append [simp]: "responses (t @ u) = responses t @ responses u"
  by (simp add: responses_def)

lemma responses_none: "(\<forall>r \<in> set rs. \<not> is_response r) \<Longrightarrow> responses rs = []"
  by (simp add: responses_def filter_empty_conv)

lemma responses_received: "responses (map (received_record l) ms) = map (\<lambda>m. [ArgString ''message'', ArgString m]) ms"
  by (induction ms) (simp_all add: responses_def received_record_def is_response_def)

text \<open>A delivered call and a delivered stream, with what they log.\<close>

lemma stub_delivered:
  assumes "carry_err N None = None" "0 < retryMax (clientConfig w)" "retryMax (clientConfig w) < max_int64" "\<forall>u. delivery N u = Delivered"
  shows "\<exists>w'. stub_SayHello (program_conn C S v refuses N srv i request) c name w = (Ret (Some (hello name), None), w') \<and>
           responses (log_trace w') = responses (log_trace w)"
proof -
  let ?w = "w\<lparr>objects := objects w @ [[]]\<rparr>"
  let ?h = "\<lambda>c (request, out). remote_reply N srv (greeter_unary S v) (c, request, out)"
  let ?w1 = "?w\<lparr>now := now w + int (net_time N ?w), objects := (objects ?w)[length (objects w) := hello name]\<rparr>"
  let ?c = "deadlined (defaultTimeout (clientConfig w)) (now w) c" and ?out = "length (objects w)"
  have h: "?h ?c (name, ?out) ?w = (Ret None, ?w1)"
    by (simp add: remote_reply_run [OF assms(1)] assms(4))
  have "\<not> is_response (call_record C ?w SayHello_FullMethodName None ?w1)" by (simp add: call_record_def is_response_def)
  then have "responses [call_record C ?w SayHello_FullMethodName None ?w1] = []" by (simp add: responses_none)
  moreover have "0 < retryMax (clientConfig ?w)" "retryMax (clientConfig ?w) < max_int64" using assms(2,3) by simp_all
  from Retry_first_success [OF this, of ?h ?c "(name, ?out)", OF h]
  have "Retry C ?c (name, ?out) SayHello_FullMethodName ?h ?w = (Ret None, ?w1)" .
  ultimately show ?thesis by (simp add: stub_over_chain Let_def)
qed

lemma stream_delivered:
  assumes "carry_err N None = None" "\<forall>u. delivery N u = Delivered" "\<forall>i g u. refuses i g u = None"
  shows "\<exists>w'. stub_SayHelloServerStream (program_conn C S v refuses N srv i request) c request w = (Ret (Some (greetings request, None), None), w') \<and>
           responses (log_trace w') = responses (log_trace w)"
proof -
  let ?w = "add_record (opening_record w) w"
  obtain out s' where serve: "greeter_stream S v refuses request (TransportStream i (carry_ctx N c)) (srv ?w) = (out, s')" by fastforce
  from greeter_stream_run [OF serve] assms(3) have "out = Ret None" "sent_msgs s' = sent_msgs (srv ?w) @ map (Pair i) (greetings request)"
    by auto
  then have "open_remote N srv i (greeter_stream S v refuses request) c ?w =
      (Ret (Some (greetings request, None), None), ?w\<lparr>now := now ?w + int (net_time N ?w)\<rparr>)"
    using serve by (simp add: open_remote_def assms(1,2))
  moreover have "responses (log_trace ?w) = responses (log_trace w)"
    by (simp add: add_record_def opening_record_def responses_none is_response_def)
  ultimately show ?thesis unfolding stream_opened by simp
qed

text \<open>What the discovery logs is no response, whatever it brings.\<close>

lemma discovery_logged:
  fixes w :: client_world
  shows "\<exists>rs. (case err of
       Some e \<Rightarrow> log_call l LevelError ''ListServices: %v'' [ArgError e]
     | None \<Rightarrow> seqc (map (\<lambda>svc. log_call l LevelInfo ''available service'' [ArgString ''name'', ArgString svc]) services)) w =
       (Ret (), w\<lparr>log_trace := log_trace w @ rs\<rparr>) \<and> responses rs = []"
proof (cases err)
  case None
  let ?f = "\<lambda>svc. \<lparr>log_sink = sink_of l, log_level = LevelInfo, log_msg = ''available service'', log_args = [ArgString ''name'', ArgString svc]\<rparr>"
  have "responses (map ?f services) = []" by (rule responses_none) (auto simp: is_response_def)
  moreover have "seqc (map (\<lambda>svc. log_call l LevelInfo ''available service'' [ArgString ''name'', ArgString svc]) services) w =
      (Ret (), w\<lparr>log_trace := log_trace w @ map ?f services\<rparr>)"
    by (rule seqc_log_calls)
  ultimately show ?thesis by (auto simp: None)
qed (auto simp: log_call_apply responses_none is_response_def)

lemma session_greets:
  fixes C :: "'cmd client_env" and S :: "'smd srv_env"
  assumes "carry_err N None = None" "retryMax (clientConfig w) = 3" "\<forall>u. delivery N u = Delivered" "\<forall>i g u. refuses i g u = None"
  shows "\<exists>w'. client_session (program_network ro rr close (program_conn C S v refuses N srv i)) l c (fresh_life\<lparr>conn := Some 0, conn_open := [True]\<rparr>) w =
      (Ret (Inr (Some (greetings ''Gopher'', None))), w') \<and>
     responses (log_trace w') = responses (log_trace w) @ [[ArgString ''message'', ArgString (hello ''Gopher'')]]"
proof -
  obtain services err where listed: "defaultListServices ro rr 0 = (services, err)" by fastforce
  obtain rs where rs: "(case err of
       Some e \<Rightarrow> log_call l LevelError ''ListServices: %v'' [ArgError e]
     | None \<Rightarrow> seqc (map (\<lambda>svc. log_call l LevelInfo ''available service'' [ArgString ''name'', ArgString svc]) services)) w =
       (Ret (), w\<lparr>log_trace := log_trace w @ rs\<rparr>)" "responses rs = []"
    using discovery_logged [where err = err and l = l and services = services and w = w] by (elim exE conjE)
  let ?call = "snd (log_call (client_Logger c) LevelInfo ''calling SayHello'' [ArgString ''name'', ArgString ''Gopher''] (w\<lparr>log_trace := log_trace w @ rs\<rparr>))"
  have bounds: "0 < retryMax (clientConfig ?call)" "retryMax (clientConfig ?call) < max_int64"
    using assms(2) by (simp_all add: log_call_apply max_int64_def)
  obtain w1 where hello: "stub_SayHello (program_conn C S v refuses N srv i ''Gopher'') background ''Gopher'' ?call = (Ret (Some (hello ''Gopher''), None), w1)"
    "responses (log_trace w1) = responses (log_trace ?call)"
    using stub_delivered [OF assms(1) bounds assms(3)] by blast
  let ?open = "snd (log_call (client_Logger c) LevelInfo ''calling SayHelloServerStream'' [ArgString ''name'', ArgString ''Gopher'']
      (snd (log_call l LevelInfo ''SayHello response'' [ArgString ''message'', ArgString (hello ''Gopher'')] w1)))"
  obtain w2 where stream: "stub_SayHelloServerStream (program_conn C S v refuses N srv i ''Gopher'') background ''Gopher'' ?open =
      (Ret (Some (greetings ''Gopher'', None), None), w2)" "responses (log_trace w2) = responses (log_trace ?open)"
    using stream_delivered [OF assms(1,3,4)] by blast
  have "client_session (program_network ro rr close (program_conn C S v refuses N srv i)) l c (fresh_life\<lparr>conn := Some 0, conn_open := [True]\<rparr>) w =
      (Ret (Inr (Some (greetings ''Gopher'', None))), w2)"
    using rs(1) hello(1) stream(1)
    by (simp add: client_session_def ListServices_def Conn_def program_network_def listed NewCaller_def Caller_SayHello_def
        Caller_SayHelloServerStream_def get_message_def comp_simps)
  moreover have "responses (log_trace ?call) = responses (log_trace w)" "responses (log_trace ?open) =
      responses (log_trace w1) @ [[ArgString ''message'', ArgString (hello ''Gopher'')]]"
    using rs(2) by (simp_all add: log_call_apply responses_def is_response_def)
  ultimately show ?thesis using hello(2) stream(2) by auto
qed



end
