(* ===== verification/Setups.thy ===== *)
theory Setups
  imports Server_Chains End_To_End Client
begin

text \<open>
  Set-ups as the documentation shows them, \<^verbatim>\<open>doc.go\<close> of the packages \<^verbatim>\<open>server\<close>, \<^verbatim>\<open>client\<close> and of their
  \<^verbatim>\<open>interceptor\<close> packages. Every option of a server and of a client is here a value, so that one can
  speak of any sequence of them: what it means for the interceptor package is the sequence of the
  package's own options, whatever other options there are.
\<close>

section \<open>Options of a server\<close>

datatype ('ui, 'si) server_setting =
    Port string | Reflection | Tls tls_opt | Unary "'ui list" | Streams "'si list" | GrpcOptions "('ui, 'si) grpc_option list"
  | Keepalive nat nat | MaxMsgSize int | ConcurrentStreams "32 word" | Listener "nat option" | ServiceConfigJson string
  | SetLogger "log_handler option" | SetAuthFunc "nat option" | Excluded "string list" | Demoted "string list"
  | RateOf float64 int | Limiter "rate_limiter option" | TrustProxy bool

fun server_option_of :: "host_env \<Rightarrow> 'md srv_env \<Rightarrow> ('ui, 'si) server_setting \<Rightarrow> ('ui, 'si) server_option" where
  "server_option_of H E (Port p) = WithPort p"
| "server_option_of H E Reflection = WithReflection"
| "server_option_of H E (Tls t) = tls_option H t"
| "server_option_of H E (Unary is) = WithUnaryInterceptors is"
| "server_option_of H E (Streams is) = WithStreamInterceptors is"
| "server_option_of H E (GrpcOptions os) = WithGrpcOptions os"
| "server_option_of H E (Keepalive p q) = WithKeepalive p q"
| "server_option_of H E (MaxMsgSize n) = WithMaxMsgSize n"
| "server_option_of H E (ConcurrentStreams n) = WithMaxConcurrentStreams n"
| "server_option_of H E (Listener l) = WithListener l"
| "server_option_of H E (ServiceConfigJson j) = WithDefaultServiceConfig j"
| "server_option_of H E (SetLogger l) = server_WithLogger l"
| "server_option_of H E (SetAuthFunc fn) = server_WithAuthFunc fn"
| "server_option_of H E (Excluded ms) = server_WithExcludedMethods ms"
| "server_option_of H E (Demoted ms) = server_WithDemotedMethods ms"
| "server_option_of H E (RateOf r b) = server_WithRateLimit E r b"
| "server_option_of H E (Limiter l) = server_WithRateLimiter E l"
| "server_option_of H E (TrustProxy b) = server_WithTrustProxy b"

text \<open>What an option says to the interceptor package.\<close>

fun package_part :: "'md srv_env \<Rightarrow> ('ui, 'si) server_setting \<Rightarrow> unit scomp list" where
  "package_part E (SetLogger l) = [WithLogger l]"
| "package_part E (SetAuthFunc fn) = [WithAuthFunc fn]"
| "package_part E (Excluded ms) = [WithExcludedMethods ms]"
| "package_part E (Demoted ms) = [WithDemotedMethods ms]"
| "package_part E (RateOf r b) = [WithRateLimit E r b]"
| "package_part E (Limiter l) = [WithRateLimiter E l]"
| "package_part E (TrustProxy b) = [WithTrustProxy b]"
| "package_part E _ = []"

definition same_effect :: "('w, 'a) comp \<Rightarrow> ('w, unit) comp \<Rightarrow> bool" where
  \<comment> \<open>the same changes of state and the same panics\<close>
  "same_effect m k \<longleftrightarrow> thenc m (ret ()) = k"

lemma same_effect_bind:
  assumes "same_effect m k" "\<And>x. same_effect (f x) l"
  shows "same_effect (bindc m f) (thenc k l)"
proof -
  have "f x w = (Ret y, w') \<Longrightarrow> l w = (Ret (), w')" "f x w = (Panic p, w') \<Longrightarrow> l w = (Panic p, w')" for x y p w w'
    using fun_cong [OF assms(2) [of x, unfolded same_effect_def], of w] by (simp_all add: thenc_apply ret_apply)
  moreover have "m w = (Ret x, w') \<Longrightarrow> k w = (Ret (), w')" "m w = (Panic p, w') \<Longrightarrow> k w = (Panic p, w')" for x p w w'
    using fun_cong [OF assms(1) [unfolded same_effect_def], of w] by (simp_all add: thenc_apply ret_apply)
  ultimately show ?thesis
    by (fastforce simp: same_effect_def fun_eq_iff bindc_apply thenc_apply ret_apply split: prod.splits outcome.splits)
qed

lemma server_option_effect:
  "same_effect (server_option_of H E s srv) (Configure (package_part E s))"
proof (cases s)
  case (Tls t)
  then show ?thesis
    by (cases t) (simp_all add: same_effect_def fun_eq_iff server_option_defs comp_simps)
qed (auto simp: same_effect_def fun_eq_iff server_option_defs delegated_option_defs comp_simps
    split: prod.splits outcome.splits)

lemma apply_opts_effect:
  "same_effect (apply_opts (map (server_option_of H E) ss) srv) (Configure (concat (map (package_part E) ss)))"
proof (induction ss arbitrary: srv)
  case (Cons s ss)
  have "Configure (concat (map (package_part E) (s # ss))) =
      thenc (Configure (package_part E s)) (Configure (concat (map (package_part E) ss)))"
    by (simp add: Configure_def seqc_append)
  moreover have "same_effect (bindc (server_option_of H E s srv) (apply_opts (map (server_option_of H E) ss)))
      (thenc (Configure (package_part E s)) (Configure (concat (map (package_part E) ss))))"
    by (intro same_effect_bind server_option_effect Cons.IH)
  ultimately show ?case by simp
qed (simp add: same_effect_def fun_eq_iff comp_simps)

section \<open>Options of a client\<close>

datatype ('ui, 'si) client_setting =
    Cred cred_opt | CallChain "'ui list" | StreamChain "'si list" | DialOptions "('ui, 'si) dial_option list"
  | KeepaliveC nat | MaxMsgSizeC int | WatchHealth | SetLoggerC "log_handler option" | DefaultTimeout int
  | RetryOf int int | RetryCodes "code list" | TokenSource "token_source option"

fun client_option_of :: "client_host \<Rightarrow> ('ui, 'si) client_setting \<Rightarrow> ('ui, 'si) client_option" where
  "client_option_of H (Cred k) = cred_option H k"
| "client_option_of H (CallChain is) = client_WithUnaryInterceptors is"
| "client_option_of H (StreamChain is) = client_WithStreamInterceptors is"
| "client_option_of H (DialOptions os) = WithDialOptions os"
| "client_option_of H (KeepaliveC p) = client_WithKeepalive p"
| "client_option_of H (MaxMsgSizeC n) = client_WithMaxMsgSize n"
| "client_option_of H WatchHealth = WithHealthWatch"
| "client_option_of H (SetLoggerC l) = client_WithLogger l"
| "client_option_of H (DefaultTimeout d) = client_WithDefaultTimeout d"
| "client_option_of H (RetryOf n b) = client_WithRetry n b"
| "client_option_of H (RetryCodes cs) = client_WithRetryCodes cs"
| "client_option_of H (TokenSource s) = client_WithTokenSource s"

fun client_package_part :: "('ui, 'si) client_setting \<Rightarrow> unit ccomp list" where
  "client_package_part (SetLoggerC l) = [WithLogger_client l]"
| "client_package_part (DefaultTimeout d) = [WithDefaultTimeout d]"
| "client_package_part (RetryOf n b) = [WithRetry n b]"
| "client_package_part (RetryCodes cs) = [WithRetryCodes cs]"
| "client_package_part (TokenSource s) = [WithTokenSource s]"
| "client_package_part _ = []"

lemma client_option_effect:
  "same_effect (client_option_of H s c) (Configure_client (client_package_part s))"
proof (cases s)
  case (Cred k)
  then show ?thesis
    by (cases k) (simp_all add: same_effect_def fun_eq_iff client_opt_defs Configure_client_def comp_simps)
qed (simp_all add: same_effect_def fun_eq_iff client_opt_defs client_delegated_defs Configure_client_def client_option_defs comp_simps)

lemma run_opts_effect:
  "same_effect (run_opts (map (client_option_of H) ss) c) (Configure_client (concat (map client_package_part ss)))"
proof (induction ss arbitrary: c)
  case (Cons s ss)
  have "Configure_client (concat (map client_package_part (s # ss))) =
      thenc (Configure_client (client_package_part s)) (Configure_client (concat (map client_package_part ss)))"
    by (simp add: Configure_client_def seqc_append)
  moreover have "same_effect (bindc (client_option_of H s c) (run_opts (map (client_option_of H) ss)))
      (thenc (Configure_client (client_package_part s)) (Configure_client (concat (map client_package_part ss))))"
    by (intro same_effect_bind client_option_effect Cons.IH)
  ultimately show ?case by simp
qed (simp add: same_effect_def fun_eq_iff Configure_client_def comp_simps)

text \<open>C28. One place for the configuration: to build a server or a client with any options, in any order, does
  to the process what calling \<^verbatim>\<open>interceptor.Configure\<close> directly with the corresponding options would do,
  no more and no less, and it panics exactly when that would.\<close>

theorem options_delegate:
  "same_effect (New (map (server_option_of H E) ss)) (Configure (concat (map (package_part E) ss))) \<and>
   same_effect (client_New t (map (client_option_of G) cs)) (Configure_client (concat (map client_package_part cs)))"
  using apply_opts_effect [of H E ss] run_opts_effect [of G cs]
  by (simp add: same_effect_def fun_eq_iff New_def client_New_def Default_def thenc_apply bindc_apply comp_simps)

section \<open>The documented server\<close>

abbreviation "health_check \<equiv> ''/grpc.health.v1.Health/Check''"

definition documented_unary :: "'md srv_env \<Rightarrow> ('md, 'req, 'resp) unary_interceptor list" where
  "documented_unary E = [Recovery, Logging E, Auth E, RateLimit E]"

definition documented_streams :: "'md srv_env \<Rightarrow> ('md, 'srv) stream_interceptor list" where
  "documented_streams E = [StreamRecovery, StreamLogging E, StreamAuth E, StreamRateLimit E]"

definition documented_server_settings :: "'md srv_env \<Rightarrow> log_handler option \<Rightarrow> nat option
    \<Rightarrow> (('md, 'req, 'resp) unary_interceptor, ('md, 'srv) stream_interceptor) server_setting list" where
  \<comment> \<open>the example of the package \<^verbatim>\<open>server\<close>, with \<open>l\<close> for \<^verbatim>\<open>myLogger\<close> and \<open>fn\<close> for \<^verbatim>\<open>myAuthFunc\<close>\<close>
  "documented_server_settings E l fn =
     [Port ''50051'', Reflection, SetLogger l, SetAuthFunc fn, Excluded [health_check], RateOf (Finite 100) 200, TrustProxy True,
      Unary (documented_unary E), Streams (documented_streams E)]"

definition documented_package :: "'md srv_env \<Rightarrow> log_handler option \<Rightarrow> nat option \<Rightarrow> unit scomp list" where
  \<comment> \<open>the example of its \<^verbatim>\<open>interceptor\<close> package\<close>
  "documented_package E l fn = [WithLogger l, WithAuthFunc fn, WithExcludedMethods [health_check],
     WithDemotedMethods [''/myapp.v1.LongPoll/Watch''], WithRateLimit E (Finite 100) 200, WithTrustProxy True]"

definition at_start :: "server_world \<Rightarrow> bool" where
  \<comment> \<open>nothing has been configured yet\<close>
  "at_start w \<longleftrightarrow> defaultConfig w = initial_config \<and> method_maps w = initial_maps"

lemma first_rate_limit:
  assumes "rateLimiter (defaultConfig w) = None"
  shows "WithRateLimit E r b w = (Ret (), w\<lparr>mem_limiters := mem_limiters w @ [NewMemoryRateLimiter r b (10 * minute)],
    defaultConfig := (defaultConfig w)\<lparr>rateLimiter := Some (MemoryLimiter (length (mem_limiters w)))\<rparr>\<rparr>)"
  using assms by (simp add: option_defs comp_simps)

lemma documented_package_state:
  assumes "at_start w" "Configure (documented_package E l fn) w = (out, w1)"
  shows "out = Ret () \<and> cfg_logger (defaultConfig w1) = l \<and> authFunc (defaultConfig w1) = fn \<and> trustProxy (defaultConfig w1) \<and>
    method_maps w1 (excludedMethods (defaultConfig w1)) = {health_check} \<and>
    method_maps w1 (demotedMethods (defaultConfig w1)) = defaultDemotedMethods \<union> {''/myapp.v1.LongPoll/Watch''} \<and>
    rateLimiter (defaultConfig w1) = Some (MemoryLimiter (length (mem_limiters w))) \<and>
    mem_limiters w1 = mem_limiters w @ [NewMemoryRateLimiter (Finite 100) 200 (10 * minute)]"
  using assms by (auto simp: at_start_def documented_package_def comp_simps first_rate_limit initial_config_def initial_maps_def add_methods_eq)

lemma documented_server_state:
  fixes out :: "(('md, 'req, 'resp) unary_interceptor, ('md, 'srv) stream_interceptor) server outcome"
  assumes "at_start w" "New (map (server_option_of H E) (documented_server_settings E l (Some fn))) w = (out, w1)"
  obtains srv where "out = Ret srv" "configErr srv = None" "unaryInterceptors srv = documented_unary E"
    "streamInterceptors srv = documented_streams E"
    "cfg_logger (defaultConfig w1) = l" "trustProxy (defaultConfig w1)" "\<forall>m. auth_required w1 m \<longleftrightarrow> m \<noteq> health_check"
    "authFunc (defaultConfig w1) = Some fn" "rateLimiter (defaultConfig w1) = Some (MemoryLimiter (length (mem_limiters w)))"
    "mem_limiters w1 = mem_limiters w @ [NewMemoryRateLimiter (Finite 100) 200 (10 * minute)]"
  using assms
  by (auto simp: at_start_def documented_server_settings_def New_def Default_def server_option_defs delegated_option_defs new_server_def
      comp_simps first_rate_limit initial_config_def initial_maps_def add_methods_eq auth_required_def cong: conj_cong)

text \<open>What guards a handler below these interceptors.\<close>

definition admitted :: "'md srv_env \<Rightarrow> 'md ctx \<Rightarrow> server_world \<Rightarrow> bool" where
  "admitted E c w \<longleftrightarrow> (case rateLimiter (defaultConfig w) of None \<Rightarrow> True
     | Some l \<Rightarrow> fst (allow_limiter E l c (peerKey E c (trustProxy (defaultConfig w))) w) = Ret (True, None))"

lemma RateLimit_admits:
  assumes "RateLimit E c req m h1 w \<noteq> RateLimit E c req m h2 w"
  shows "admitted E c w"
proof (cases "rateLimiter (defaultConfig w)")
  case (Some l)
  then show ?thesis
    using assms by (auto simp: admitted_def RateLimit_limited [OF Some] split: prod.splits outcome.splits if_splits)
qed (simp add: admitted_def)

lemma documented_unary_guards:
  fixes h1 h2 :: "'md ctx \<times> 'req \<Rightarrow> 'resp option fallible scomp"
  assumes "nest (map paired (documented_unary E)) (c, req) m h1 w \<noteq> nest (map paired (documented_unary E)) (c, req) m h2 w"
  shows "\<exists>c' w'. (if auth_required w m then auth_accepts E c w c' w' else c' = c \<and> w' = w) \<and> admitted E c' w'"
proof -
  let ?g = "\<lambda>h :: 'md ctx \<times> 'req \<Rightarrow> 'resp option fallible scomp. \<lambda>c req. RateLimit E c req m (\<lambda>c req. h (c, req))"
  have diff: "Auth E c req m (?g h1) w \<noteq> Auth E c req m (?g h2) w"
    using assms by (auto simp: documented_unary_def Recovery_apply Logging_apply)
  show ?thesis
  proof (cases "auth_required w m")
    case False
    then have "Auth E c req m h w = h c req w" for h :: "('md, 'req, 'resp) unary_handler"
      by (auto simp: Auth_def auth_required_def comp_simps split: option.splits)
    then show ?thesis using False diff RateLimit_admits [of E c req m _ w] by auto
  next
    case True
    obtain v where v: "verdict_ok E c w m v" "\<forall>h :: ('md, 'req, 'resp) unary_handler. Auth E c req m h w = after_auth c req w v h"
      by (rule exE [OF Auth_verdict [of E c w m req]], elim conjE, rule that)
    then obtain c' w' where "v = Accepted c' w'" using diff True by (cases v) auto
    then have "auth_accepts E c w c' w'" "admitted E c' w'" using diff v RateLimit_admits [of E c' req m _ w'] by auto
    then show ?thesis using True by auto
  qed
qed

lemma StreamRateLimit_admits:
  assumes "StreamRateLimit E srv ss m h1 w \<noteq> StreamRateLimit E srv ss m h2 w"
  shows "admitted E (Context ss) w"
proof (cases "rateLimiter (defaultConfig w)")
  case (Some l)
  then show ?thesis
    using assms by (auto simp: admitted_def RateLimit_limited [OF Some] split: prod.splits outcome.splits if_splits)
qed (simp add: admitted_def)

lemma StreamAuth_admits:
  assumes "StreamAuth E srv ss m h1 w \<noteq> StreamAuth E srv ss m h2 w"
  shows "\<exists>ss' w'. (if auth_required w m then auth_accepts E (Context ss) w (Context ss') w' else Context ss' = Context ss \<and> w' = w) \<and>
    h1 srv ss' w' \<noteq> h2 srv ss' w'"
proof (cases "auth_required w m")
  case False
  then have "StreamAuth E srv ss m h w = h srv ss w" for h by (auto simp: StreamAuth_def auth_required_def comp_simps split: option.splits)
  then show ?thesis using assms False by auto
next
  case True
  then obtain fn where fn: "authFunc (defaultConfig w) = Some fn" "m \<notin> method_maps w (excludedMethods (defaultConfig w))"
    by (auto simp: auth_required_def)
  note run = StreamAuth_def authenticateContext_def comp_simps fn
  obtain token where tok: "extractBearerToken E (Context ss) = Inr token" using assms by (cases "extractBearerToken E (Context ss)") (auto simp: run)
  obtain c' w' where "auth_impl E fn (Context ss) token w = (Ret (c', None), w')"
    using assms tok by (auto simp: run split: prod.splits outcome.splits option.splits)
  then have "auth_accepts E (Context ss) w c' w'" "h1 srv (WrappedServerStream ss c') w' \<noteq> h2 srv (WrappedServerStream ss c') w'"
    using assms tok fn by (auto simp: run auth_accepts_def)
  then show ?thesis using True by (intro exI [of _ "WrappedServerStream ss c'"] exI [of _ w']) simp
qed

lemma documented_stream_guards:
  fixes h1 h2 :: "'srv \<times> 'md server_stream \<Rightarrow> goerror option scomp"
  assumes "nest (map paired (documented_streams E)) (srv, ss) m h1 w \<noteq> nest (map paired (documented_streams E)) (srv, ss) m h2 w"
  shows "\<exists>c' w'. (if auth_required w m then auth_accepts E (Context ss) w c' w' else c' = Context ss \<and> w' = w) \<and> admitted E c' w'"
proof -
  let ?g = "\<lambda>h :: 'srv \<times> 'md server_stream \<Rightarrow> goerror option scomp. \<lambda>srv ss. StreamRateLimit E srv ss m (\<lambda>srv ss. h (srv, ss))"
  have "StreamAuth E srv ss m (?g h1) w \<noteq> StreamAuth E srv ss m (?g h2) w"
    using assms by (auto simp: documented_streams_def StreamRecovery_apply StreamLogging_apply)
  from StreamAuth_admits [OF this] obtain ss' w' where
    "if auth_required w m then auth_accepts E (Context ss) w (Context ss') w' else Context ss' = Context ss \<and> w' = w"
    "?g h1 srv ss' w' \<noteq> ?g h2 srv ss' w'" by blast
  then show ?thesis using StreamRateLimit_admits [of E srv ss' m _ w']
    by - (rule exI [of _ "Context ss'"], rule exI [of _ w'], auto)
qed

text \<open>A call or a stream with the context \<open>c\<close> may go on: a state and a context it can do so in.\<close>

definition may_pass :: "'md srv_env \<Rightarrow> nat \<Rightarrow> string \<Rightarrow> 'md ctx \<Rightarrow> server_world \<Rightarrow> bool" where
  "may_pass E fn m c w \<longleftrightarrow> (\<exists>c' w'. admitted E c' w' \<and>
     (if m = health_check then c' = c \<and> w' = w
      else \<exists>token. extractBearerToken E c = Inr token \<and> auth_impl E fn c token w = (Ret (c', None), w')))"

text \<open>C11. The server as documented is guarded. Built with the options of the package's example in a process
  that has configured nothing, it starts with a running limiter of its own and with authentication
  for every method but the health check; and if what a handler does can make any difference to a call or a stream
  that finds the process in this state, then its token was accepted, unless the method is the
  health check, and its peer was admitted, under the context and in the state the authentication left.\<close>

theorem documented_server_guarded:
  fixes out :: "(('md, 'req, 'resp) unary_interceptor, ('md, 'srv) stream_interceptor) server outcome"
  assumes "at_start w" "New (map (server_option_of H E) (documented_server_settings E l (Some fn))) w = (out, w1)"
  shows "\<exists>srv. out = Ret srv \<and> configErr srv = None \<and> cfg_logger (defaultConfig w1) = l \<and>
     mem_limiters w1 = mem_limiters w @ [NewMemoryRateLimiter (Finite 100) 200 (10 * minute)] \<and>
     rateLimiter (defaultConfig w1) = Some (MemoryLimiter (length (mem_limiters w))) \<and>
     (\<forall>c req m h1 h2. nest (map paired (unaryInterceptors srv)) (c, req) m h1 w1 \<noteq> nest (map paired (unaryInterceptors srv)) (c, req) m h2 w1 \<longrightarrow>
        may_pass E fn m c w1) \<and>
     (\<forall>impl ss m h1 h2. nest (map paired (streamInterceptors srv)) (impl, ss) m h1 w1 \<noteq> nest (map paired (streamInterceptors srv)) (impl, ss) m h2 w1 \<longrightarrow>
        may_pass E fn m (Context ss) w1)"
proof (rule documented_server_state [OF assms])
  fix srv assume srv: "out = Ret srv" "configErr srv = None" "unaryInterceptors srv = documented_unary E" "streamInterceptors srv = documented_streams E"
    "cfg_logger (defaultConfig w1) = l" "\<forall>m. auth_required w1 m \<longleftrightarrow> m \<noteq> health_check" "authFunc (defaultConfig w1) = Some fn"
    "rateLimiter (defaultConfig w1) = Some (MemoryLimiter (length (mem_limiters w)))"
    "mem_limiters w1 = mem_limiters w @ [NewMemoryRateLimiter (Finite 100) 200 (10 * minute)]"
  have pass: "may_pass E fn m c w1"
    if "\<exists>c' w'. (if auth_required w1 m then auth_accepts E c w1 c' w' else c' = c \<and> w' = w1) \<and> admitted E c' w'" for m c
    using that srv(6,7) by (cases "m = health_check") (auto simp: may_pass_def auth_accepts_def)
  have "\<forall>c req m h1 h2. nest (map paired (unaryInterceptors srv)) (c, req) m h1 w1 \<noteq> nest (map paired (unaryInterceptors srv)) (c, req) m h2 w1 \<longrightarrow>
      may_pass E fn m c w1"
    unfolding srv(3) by (intro allI impI) (rule pass, erule documented_unary_guards)
  moreover have "\<forall>impl ss m h1 h2. nest (map paired (streamInterceptors srv)) (impl, ss) m h1 w1 \<noteq> nest (map paired (streamInterceptors srv)) (impl, ss) m h2 w1 \<longrightarrow>
      may_pass E fn m (Context ss) w1"
    unfolding srv(4) by (intro allI impI) (rule pass, erule documented_stream_guards)
  ultimately show ?thesis using srv(1,2,5,8,9) by - (rule exI [of _ srv], intro conjI)
qed

theorem documented_server_guarded_witness:
  "\<exists>srv :: ((string \<Rightarrow> string list, unit, unit) unary_interceptor, (string \<Rightarrow> string list, unit) stream_interceptor) server. \<exists>w1.
     New (map (server_option_of \<lparr>load_key_pair = (\<lambda>c k. Inr 0), read_file = (\<lambda>f. Inr []), pem_has_certs = (\<lambda>p. True)\<rparr> sample_env)
       (documented_server_settings sample_env None (Some 0))) sample_world = (Ret srv, w1) \<and>
     rateLimiter (defaultConfig w1) = Some (MemoryLimiter 0) \<and>
     (\<forall>h1 h2. nest (map paired (unaryInterceptors srv)) (sample_ctx, ()) ''/a/B'' h1 w1 =
       nest (map paired (unaryInterceptors srv)) (sample_ctx, ()) ''/a/B'' h2 w1)"
proof -
  let ?H = "\<lparr>load_key_pair = (\<lambda>c k. Inr 0), read_file = (\<lambda>f. Inr []), pem_has_certs = (\<lambda>p. True)\<rparr> :: host_env"
  have start: "at_start sample_world" by (simp add: at_start_def sample_world_def)
  obtain out :: "((string \<Rightarrow> string list, unit, unit) unary_interceptor, (string \<Rightarrow> string list, unit) stream_interceptor) server outcome" and w1
    where run: "New (map (server_option_of ?H sample_env) (documented_server_settings sample_env None (Some 0))) sample_world = (out, w1)" by fastforce
  obtain srv where srv: "out = Ret srv" "rateLimiter (defaultConfig w1) = Some (MemoryLimiter 0)"
    "\<forall>c req m h1 h2. nest (map paired (unaryInterceptors srv)) (c, req) m h1 w1 \<noteq> nest (map paired (unaryInterceptors srv)) (c, req) m h2 w1 \<longrightarrow>
        may_pass sample_env 0 m c w1"
    using documented_server_guarded [OF start run] by (elim exE conjE) (simp add: sample_world_def)
  moreover have "\<not> may_pass sample_env 0 ''/a/B'' sample_ctx w1"
    by (simp add: may_pass_def extractBearerToken_def sample_ctx_def)
  ultimately show ?thesis using run by blast
qed

section \<open>The documented client\<close>

definition documented_calls :: "'md client_env \<Rightarrow> ('md, 'call) unary_client_interceptor list" where
  "documented_calls E = [Logging_client E, Timeout, Retry E, Auth_client E]"

definition documented_client_settings :: "'md client_env \<Rightarrow> log_handler option
    \<Rightarrow> (('md, 'call) unary_client_interceptor, ('md, 'call, 'cs) stream_client_interceptor) client_setting list" where
  \<comment> \<open>the example of the package \<^verbatim>\<open>client\<close>\<close>
  "documented_client_settings E l =
     [Cred Insecure, SetLoggerC l, DefaultTimeout (5 * second), RetryOf 3 second, CallChain (documented_calls E),
      StreamChain [StreamLogging_client E, StreamAuth_client E]]"

definition documented_client_package :: "log_handler option \<Rightarrow> unit ccomp list" where
  \<comment> \<open>the example of its \<^verbatim>\<open>interceptor\<close> package\<close>
  "documented_client_package l = [WithLogger_client l, WithDefaultTimeout (5 * second), WithRetry 3 second,
     WithRetryCodes [Unavailable, ResourceExhausted], WithTokenSource (Some (StaticToken ''my-token''))]"

text \<open>What they make of a process that has configured nothing: without a source the client's calls carry no
  token of its own, and the package's example adds a source and two codes, of which neither is Unauthenticated.\<close>

lemma documented_client_state:
  fixes E :: "'md client_env"
  assumes "clientConfig w = initial_client_config"
    and "client_New ''localhost:50051'' (map (client_option_of H) (documented_client_settings E l)) w =
      (out :: (('md, 'call) unary_client_interceptor, ('md, 'call, 'cs) stream_client_interceptor) client outcome, w1)"
  shows "\<exists>c. out = Ret c \<and> target c = ''localhost:50051'' \<and> insecureCreds c \<and> clientErr c = None \<and> unaryChain c = documented_calls E \<and>
    clientConfig w1 = \<lparr>clc_logger = l, defaultTimeout = 5 * second, retryMax = 3, retryBackoff = second, retryCodes = defaultRetryCodes, tokenSource = None\<rparr>"
proof -
  define c :: "(('md, 'call) unary_client_interceptor, ('md, 'call, 'cs) stream_client_interceptor) client" where
    "c = (new_client ''localhost:50051'' (resolved l w))\<lparr>insecureCreds := True, unaryChain := documented_calls E,
       streamChain := [StreamLogging_client E, StreamAuth_client E]\<rparr>"
  have "out = Ret c \<and> w1 = w\<lparr>clientConfig := (clientConfig w)\<lparr>clc_logger := l, defaultTimeout := 5 * second, retryMax := 3, retryBackoff := second\<rparr>\<rparr>"
    using assms(2) by (simp add: client_New_def Default_def documented_client_settings_def client_opt_defs client_delegated_defs Configure_client_def
      client_option_defs new_client_def comp_simps c_def)
  then show ?thesis by (simp add: c_def new_client_def assms(1) initial_client_config_def)
qed

lemma documented_client_package_state:
  assumes "Configure_client (documented_client_package l) w = (out, w1)"
  shows "out = Ret () \<and> clientConfig w1 = \<lparr>clc_logger = l, defaultTimeout = 5 * second, retryMax = 3, retryBackoff = second,
      retryCodes = [Unavailable, ResourceExhausted], tokenSource = Some (StaticToken ''my-token'')\<rparr> \<and>
    0 < retryMax (clientConfig w1) \<and> retryMax (clientConfig w1) < max_int64 \<and> Unauthenticated \<notin> set (retryCodes (clientConfig w1))"
proof -
  have "out = Ret () \<and> clientConfig w1 = \<lparr>clc_logger = l, defaultTimeout = 5 * second, retryMax = 3, retryBackoff = second,
      retryCodes = [Unavailable, ResourceExhausted], tokenSource = Some (StaticToken ''my-token'')\<rparr>"
    using assms by (cases "clientConfig w") (auto simp: documented_client_package_def Configure_client_def client_option_defs comp_simps)
  then show ?thesis by (simp add: max_int64_def)
qed

text \<open>A call with a token: the token the source gave is what the invoker is called with.\<close>

definition sent_with_token :: "'md client_env \<Rightarrow> token_source \<Rightarrow> 'md ctx \<Rightarrow> client_world \<Rightarrow> 'md ctx \<Rightarrow> client_world \<Rightarrow> bool" where
  "sent_with_token E s c w c2 w1 \<longleftrightarrow>
     (\<exists>c1 token md. call_source E s c w = (Ret (c1, None), w1) \<and> string_value c1 TokenKey = Some token \<and> token \<noteq> [] \<and>
        c2 = c1\<lparr>outgoing_md := Some md\<rparr> \<and> md_get E md ''authorization'' = [''Bearer '' @ token])"

lemma Auth_client_cases:
  assumes "md_laws E" "tokenSource (clientConfig w) = Some s"
  obtains (sent) c2 w1 where "sent_with_token E s c w c2 w1" "\<forall>h. Auth_client E c call m h w = h c2 call w1"
  | (refused) w1 where "\<forall>h. Auth_client E c call m h w = (Ret (Some auth_failed), w1)"
  | (panicked) p w1 where "\<forall>h. Auth_client E c call m h w = (Panic p, w1)"
proof -
  let ?l = "resolved (clc_logger (clientConfig w)) w"
  obtain out w1 where src: "call_source E s c w = (out, w1)" by fastforce
  show thesis
  proof (cases "\<exists>c1 token. out = Ret (c1, None) \<and> string_value c1 TokenKey = Some token \<and> token \<noteq> []")
    case True
    then obtain c1 token where tok: "out = Ret (c1, None)" "string_value c1 TokenKey = Some token" "token \<noteq> []" by blast
    obtain md where "injectToken E c (Some s) ?l w = (Ret (c1\<lparr>outgoing_md := Some md\<rparr>, None), w1)"
      "md_get E md ''authorization'' = [''Bearer '' @ token]"
      using injectToken_ok [OF assms(1) src [unfolded tok(1)] tok(2,3)] by blast
    then show thesis using src tok
      by (intro sent [of "c1\<lparr>outgoing_md := Some md\<rparr>" w1]) (auto simp: sent_with_token_def Auth_client_apply assms(2))
  next
    case False
    have "(\<exists>c' w2. injectToken E c (Some s) ?l w = (Ret (c', Some auth_failed), w2)) \<or> (\<exists>p w2. injectToken E c (Some s) ?l w = (Panic p, w2))"
      using src False by (auto simp: injectToken_def comp_simps split: outcome.splits option.splits)
    then show thesis using refused panicked by (auto simp: Auth_client_apply assms(2))
  qed
qed

lemma documented_calls_run:
  "nest (map paired (documented_calls E)) (c, call) m h w =
     (case Retry E (deadlined (defaultTimeout (clientConfig w)) (now w) c) call m
        (\<lambda>c call. Auth_client E c call m (\<lambda>c call. h (c, call))) w of
        (Ret err, w') \<Rightarrow> (Ret err, w'\<lparr>log_trace := log_trace w' @ [call_record E w m err w']\<rparr>)
      | (Panic p, w') \<Rightarrow> (Panic p, w'))"
  by (simp add: documented_calls_def Logging_client_apply Timeout_apply)

lemma retried_is_sent:
  assumes "md_laws E" "status_laws E" "Unauthenticated \<notin> set (retryCodes cfg)" "tokenSource (clientConfig v) = Some s"
    and "retried E cfg c call m (\<lambda>c call. Auth_client E c call m (\<lambda>c call. h (c, call))) k v e v'"
  shows "\<exists>c2 v1 v2. sent_with_token E s c v c2 v1 \<and> h (c2, call) v1 = (Ret (Some e), v2)"
proof -
  obtain v2 code msg where run: "Auth_client E c call m (\<lambda>c call. h (c, call)) v = (Ret (Some e), v2)"
    "from_error E (Some e) = ((code, msg), True)" "isRetryable code (retryCodes cfg)"
    using assms(5) unfolding retried_def by blast
  have "e \<noteq> auth_failed" using run(2,3) assms(2,3) by (auto simp: auth_failed_def status_laws_def isRetryable_def)
  then show ?thesis
    using run(1) by (cases rule: Auth_client_cases [OF assms(1,4), of c call m]) auto
qed

lemma Auth_client_outcome:
  assumes "md_laws E" "tokenSource (clientConfig w) = Some s" "Auth_client E c call m (\<lambda>c call. h (c, call)) w = (out, w')"
  shows "out = Ret (Some auth_failed) \<or> (\<exists>p. out = Panic p) \<or> (\<exists>c2 w1. sent_with_token E s c w c2 w1 \<and> out = fst (h (c2, call) w1))"
proof (rule Auth_client_cases [OF assms(1,2), of c call m])
  fix c2 w1 assume sent: "sent_with_token E s c w c2 w1" "\<forall>h. Auth_client E c call m h w = h c2 call w1"
  then have "out = fst (h (c2, call) w1)" using assms(3) by simp
  then show ?thesis using sent(1) by blast
qed (use assms(3) in auto)



end
