(* ===== verification/Test_Util.thy ===== *)
theory Test_Util
  imports Setups
begin

text \<open>
  \<^verbatim>\<open>internal/testutil/grpctest.go\<close>: the in-memory connections of the repository's tests. The library's
  \<^verbatim>\<open>bufconn\<close> listener and \<^verbatim>\<open>grpc.NewClient\<close> are parameters. There are two ways to make a test client, with
  \<^verbatim>\<open>DialBufNet\<close> and with the package \<^verbatim>\<open>client\<close> and a \<^verbatim>\<open>BufDialer\<close>; what is shown is that they dial alike.
\<close>

section \<open>The helpers\<close>

definition bufSize :: int where
  "bufSize = 1024 * 1024"

text \<open>The package \<^verbatim>\<open>bufconn\<close>: listening with a buffer size, and dialling a listener.\<close>

record ('md, 'lis, 'nc) bufconn =
  buf_Listen :: "int \<Rightarrow> 'lis ccomp"
  buf_DialContext :: "'lis \<Rightarrow> 'md ctx \<Rightarrow> 'nc option fallible ccomp"

type_synonym ('md, 'nc) dialer = "'md ctx \<Rightarrow> string \<Rightarrow> 'nc option fallible ccomp"

definition NewBufListener :: "('md, 'lis, 'nc) bufconn \<Rightarrow> 'lis ccomp" where
  "NewBufListener B = buf_Listen B bufSize"

definition BufDialer :: "('md, 'lis, 'nc) bufconn \<Rightarrow> 'lis \<Rightarrow> ('md, 'nc) dialer" where
  "BufDialer B lis = (\<lambda>c addr. buf_DialContext B lis c)"

text \<open>\<open>ctx_dialer\<close> is \<^verbatim>\<open>grpc.WithContextDialer\<close>, a raw dial option; \<open>grpc_new\<close> is \<^verbatim>\<open>grpc.NewClient\<close>.\<close>

definition DialBufNet :: "(string \<Rightarrow> ('ui, 'si) dial_option list \<Rightarrow> 'conn option fallible ccomp) \<Rightarrow> (('md, 'nc) dialer \<Rightarrow> nat)
    \<Rightarrow> ('md, 'lis, 'nc) bufconn \<Rightarrow> 'md ctx \<Rightarrow> 'lis \<Rightarrow> 'conn option fallible ccomp" where
  "DialBufNet grpc_new ctx_dialer B c lis =
     grpc_new ''passthrough:///bufconn''
       [RawDialOption (ctx_dialer (\<lambda>c addr. buf_DialContext B lis c)), TransportInsecure]"

text \<open>The client the documentation of \<^verbatim>\<open>BufDialer\<close> makes.\<close>

definition buf_client_options :: "(('md, 'nc) dialer \<Rightarrow> nat) \<Rightarrow> ('md, 'lis, 'nc) bufconn \<Rightarrow> 'lis \<Rightarrow> ('ui, 'si) client_setting list" where
  "buf_client_options ctx_dialer B lis =
     [DialOptions [RawDialOption (ctx_dialer (BufDialer B lis)), TransportInsecure]]"

section \<open>What dial options come to\<close>

text \<open>\<^verbatim>\<open>grpc\<close> applies dial options in order, so of several credentials or dialers the last counts;
  \<open>dialer_of\<close> says which raw options are dialers.\<close>

fun creds_of :: "('ui, 'si) dial_option \<Rightarrow> client_tls option option" where
  "creds_of (TransportTLS t) = Some (Some t)"
| "creds_of TransportInsecure = Some None"
| "creds_of _ = None"

fun raw_dialer :: "(nat \<Rightarrow> 'd option) \<Rightarrow> ('ui, 'si) dial_option \<Rightarrow> 'd option" where
  "raw_dialer dialer_of (RawDialOption n) = dialer_of n"
| "raw_dialer dialer_of _ = None"

fun last_given :: "('o \<Rightarrow> 'v option) \<Rightarrow> 'o list \<Rightarrow> 'v option" where
  "last_given f [] = None"
| "last_given f (opt # opts) = (case last_given f opts of None \<Rightarrow> f opt | Some v \<Rightarrow> Some v)"

lemma last_given_append [simp]:
  "last_given f (xs @ ys) = (case last_given f ys of None \<Rightarrow> last_given f xs | Some v \<Rightarrow> Some v)"
  by (induction xs) (auto split: option.splits)

definition dialled :: "(nat \<Rightarrow> 'd option) \<Rightarrow> ('ui, 'si) dial_option list \<Rightarrow> client_tls option option \<times> 'd option" where
  "dialled dialer_of opts = (last_given creds_of opts, last_given (raw_dialer dialer_of) opts)"

text \<open>No option of the package but \<^verbatim>\<open>WithDialOptions\<close> adds to what \<open>dialled\<close> reads of the raw options.\<close>

fun no_dial_options :: "('ui, 'si) client_setting \<Rightarrow> bool" where
  "no_dial_options (DialOptions os) = False"
| "no_dial_options _ = True"

lemma option_keeps_dialled:
  assumes "no_dial_options s" "client_option_of H s c w = (Ret c', w')"
  shows "dialled d (dialOpts c') = dialled d (dialOpts c)" "target c' = target c"
proof -
  have "dialled d (dialOpts c') = dialled d (dialOpts c) \<and> target c' = target c"
  proof (cases s)
    case (Cred k)
    then show ?thesis using assms(2)
      by (cases k) (auto simp: client_opt_defs client_tls_failed_def dialled_def comp_simps split: sum.splits if_splits option.splits)
  qed (use assms in \<open>auto simp: client_opt_defs client_delegated_defs Configure_client_def client_option_defs dialled_def comp_simps
      split: option.splits\<close>)
  then show "dialled d (dialOpts c') = dialled d (dialOpts c)" "target c' = target c" by simp_all
qed

lemma options_keep_dialled:
  "list_all no_dial_options ss \<Longrightarrow> run_opts (map (client_option_of H) ss) c w = (Ret c', w') \<Longrightarrow>
     dialled d (dialOpts c') = dialled d (dialOpts c) \<and> target c' = target c"
proof (induction ss arbitrary: c w)
  case (Cons s ss)
  then obtain c1 w1 where "client_option_of H s c w = (Ret c1, w1)" "run_opts (map (client_option_of H) ss) c1 w1 = (Ret c', w')"
    by (auto simp: bindc_apply split: prod.splits outcome.splits)
  then show ?case using Cons.IH [of c1 w1] Cons.prems(1) option_keeps_dialled(1) [of s H c w c1 w1 d] option_keeps_dialled(2) [of s H c w c1 w1] by simp
qed (simp add: ret_apply)

lemma built_dialled:
  assumes "buildDialOpts c w = (Ret opts, w')" "dialled d (dialOpts c) = (Some k, Some f)"
  shows "dialled d opts = (Some k, Some f)"
  using assms buildDialOpts_run [of c w] by (auto simp: dialled_def)

text \<open>Test clients dial alike. A client made as the documentation of \<^verbatim>\<open>BufDialer\<close> says, with any further options
  of the package after it, even TLS ones, dials the target of \<^verbatim>\<open>DialBufNet\<close> with the credentials and the dialer of
  \<^verbatim>\<open>DialBufNet\<close>: plaintext, and the listener, whatever the address.\<close>

theorem test_clients_dial_alike:
  fixes c :: "('ui, 'si) client" and B :: "('md, 'lis, 'nc) bufconn"
  assumes "dialer_of (ctx_dialer (BufDialer B lis)) = Some (BufDialer B lis)" "list_all no_dial_options others"
    and "client_New ''passthrough:///bufconn'' (map (client_option_of H) (buf_client_options ctx_dialer B lis @ others)) w = (Ret c, w1)"
    and "buildDialOpts c w1 = (Ret opts, w2)"
  shows "DialBufNet (\<lambda>t (os :: ('ui, 'si) dial_option list) w. (Ret (Some (t, dialled dialer_of os), None), w)) ctx_dialer B ctx lis w =
           (Ret (Some (target c, dialled dialer_of opts), None), w) \<and>
         dialled dialer_of opts = (Some None, Some (\<lambda>c addr. buf_DialContext B lis c))"
proof -
  let ?own = "[RawDialOption (ctx_dialer (BufDialer B lis)), TransportInsecure] :: ('ui, 'si) dial_option list"
  have own: "dialled dialer_of ?own = (Some None, Some (BufDialer B lis))" by (simp add: dialled_def assms(1))
  define c0 :: "('ui, 'si) client" where "c0 = (new_client ''passthrough:///bufconn'' (default_handler w))\<lparr>dialOpts := ?own\<rparr>"
  have c0: "dialOpts c0 = ?own" "target c0 = ''passthrough:///bufconn''" by (simp_all add: c0_def new_client_def)
  have run: "run_opts (map (client_option_of H) others) c0 w = (Ret c, w1)"
    using assms(3) by (simp add: client_New_def Default_def buf_client_options_def client_opt_defs c0_def new_client_def comp_simps)
  have "dialled dialer_of (dialOpts c) = (Some None, Some (BufDialer B lis))" "target c = ''passthrough:///bufconn''"
    using options_keep_dialled [OF assms(2) run, of dialer_of] own c0 by simp_all
  then have "dialled dialer_of opts = (Some None, Some (BufDialer B lis))" "target c = ''passthrough:///bufconn''"
    using built_dialled [OF assms(4), of dialer_of None "BufDialer B lis"] by simp_all
  then show ?thesis using own by (simp add: DialBufNet_def BufDialer_def)
qed

theorem test_clients_dial_alike_witness:
  "\<exists>(c :: (unit, unit) client) w1 opts w2.
     client_New ''passthrough:///bufconn'' (map (client_option_of sample_client_host)
       (buf_client_options (\<lambda>d. 5) (\<lparr>buf_Listen = (\<lambda>n. ret 0), buf_DialContext = (\<lambda>lis c. ret (Some lis, None))\<rparr> :: (unit, nat, nat) bufconn) 3 @ [WatchHealth, Cred (LoadBalancing ''round_robin'')]))
       sample_client = (Ret c, w1) \<and> buildDialOpts c w1 = (Ret opts, w2) \<and> target c = ''passthrough:///bufconn'' \<and>
     dialled (\<lambda>n. if n = 5 then Some (\<lambda>(c :: unit ctx) (addr :: string). ret (Some 3, None) :: nat option fallible ccomp) else None) opts =
       (Some None, Some (\<lambda>c addr. ret (Some 3, None)))"
proof -
  let ?B = "\<lparr>buf_Listen = (\<lambda>n. ret 0), buf_DialContext = (\<lambda>lis c. ret (Some lis, None))\<rparr> :: (unit, nat, nat) bufconn"
  let ?others = "[WatchHealth, Cred (LoadBalancing ''round_robin'')] :: (unit, unit) client_setting list"
  let ?d = "\<lambda>n. if n = 5 then Some (\<lambda>(c :: unit ctx) (addr :: string). ret (Some 3, None) :: nat option fallible ccomp) else None"
  have d: "?d ((\<lambda>d. 5) (BufDialer ?B 3)) = Some (BufDialer ?B 3)" by (simp add: BufDialer_def)
  have others: "list_all no_dial_options ?others" by simp
  obtain c :: "(unit, unit) client" and w1 where run: "client_New ''passthrough:///bufconn''
      (map (client_option_of sample_client_host) (buf_client_options (\<lambda>d. 5) ?B 3 @ ?others)) sample_client = (Ret c, w1)"
    by (simp add: client_New_def Default_def buf_client_options_def client_opt_defs sample_client_host_def comp_simps)
  obtain opts w2 where built: "buildDialOpts c w1 = (Ret opts, w2)" using buildDialOpts_run by blast
  from test_clients_dial_alike [where dialer_of = ?d and ctx_dialer = "\<lambda>d. 5" and B = ?B and lis = 3, OF d others run built, of undefined]
  have "target c = ''passthrough:///bufconn''" "dialled ?d opts = (Some None, Some (\<lambda>c addr. ret (Some 3, None)))"
    by (auto simp: DialBufNet_def)
  with run built show ?thesis
    by - (rule exI [of _ c], rule exI [of _ w1], rule exI [of _ opts], rule exI [of _ w2], intro conjI)
qed

end
