(* ===== verification/Console.thy ===== *)
theory Console
  imports Server_Logging
begin

text \<open>
  What the programs print. Each of the three \<^verbatim>\<open>main\<close> functions begins by installing a text handler of
  \<^verbatim>\<open>log/slog\<close> with a minimum level; the slog-backed handler of the logging package writes through it,
  so a record below that level does not appear, though the call has been made and is in the trace.
\<close>

record text_handler =
  min_level :: level

definition server_slog :: text_handler where
  \<comment> \<open>\<^verbatim>\<open>cmd/server\<close>\<close>
  "server_slog = \<lparr>min_level = LevelDebug\<rparr>"

definition client_slog :: text_handler where
  \<comment> \<open>\<^verbatim>\<open>cmd/client\<close>\<close>
  "client_slog = \<lparr>min_level = LevelDebug\<rparr>"

definition lb_slog :: text_handler where
  \<comment> \<open>\<^verbatim>\<open>examples/loadbalancing\<close>\<close>
  "lb_slog = \<lparr>min_level = LevelInfo\<rparr>"

definition printed :: "text_handler \<Rightarrow> log_record list \<Rightarrow> log_record list" where
  \<comment> \<open>the documented effect of \<^verbatim>\<open>HandlerOptions.Level\<close>\<close>
  "printed h t = filter (\<lambda>r. log_sink r = ToSlog \<and> min_level h \<le> log_level r) t"

lemma level_bottom [simp]: "LevelDebug \<le> lv"
  by (cases lv) (simp_all add: less_eq_level_def)

lemma printed_debug:
  "printed server_slog t = filter (\<lambda>r. log_sink r = ToSlog) t" "printed client_slog t = filter (\<lambda>r. log_sink r = ToSlog) t"
  by (simp_all add: printed_def server_slog_def client_slog_def)

lemma printed_append [simp]: "printed h (t @ u) = printed h t @ printed h u"
  by (simp add: printed_def)

text \<open>Every call that returns through the logging interceptor prints one line in the server program. In
  the load-balancing example it does too, but for the cancellation of a demoted method, such as the
  health watch, which prints nothing there.\<close>

definition quiet_call :: "'md srv_env \<Rightarrow> server_world \<Rightarrow> server_world \<Rightarrow> string \<Rightarrow> goerror option \<Rightarrow> bool" where
  "quiet_call E w w' m err \<longleftrightarrow>
     err \<noteq> None \<and> status_code E err = Canceled \<and> m \<in> method_maps w' (demotedMethods (defaultConfig w))"

lemma completion_printed:
  assumes "resolved (cfg_logger (defaultConfig w)) w = SlogHandler"
  shows "printed server_slog [completion_record E w c m kind err w'] = [completion_record E w c m kind err w']"
    and "printed lb_slog [completion_record E w c m kind err w'] =
      (if quiet_call E w w' m err then [] else [completion_record E w c m kind err w'])"
  using assms by (cases err; auto simp: printed_def server_slog_def lb_slog_def completion_record_def completion_level_def
      quiet_call_def Let_def less_eq_level_def)+

lemma logged_call_prints:
  fixes req :: 'req and srv :: 'srv
  shows "h c req w = (Ret (resp, err), w') \<Longrightarrow> resolved (cfg_logger (defaultConfig w)) w = SlogHandler \<Longrightarrow>
      \<exists>r. printed server_slog (log_trace (snd (Logging E c req m h w))) = printed server_slog (log_trace w') @ [r] \<and>
        printed lb_slog (log_trace (snd (Logging E c req m h w))) =
          printed lb_slog (log_trace w') @ (if quiet_call E w w' m err then [] else [r])"
    and "hs srv ss w = (Ret err, w') \<Longrightarrow> resolved (cfg_logger (defaultConfig w)) w = SlogHandler \<Longrightarrow>
      \<exists>r. printed server_slog (log_trace (snd (StreamLogging E srv ss m hs w))) = printed server_slog (log_trace w') @ [r] \<and>
        printed lb_slog (log_trace (snd (StreamLogging E srv ss m hs w))) =
          printed lb_slog (log_trace w') @ (if quiet_call E w w' m err then [] else [r])"
  by (simp_all add: Logging_apply StreamLogging_apply add_record_def completion_printed)

end
