(* ===== verification/Spec2Isabelle.thy ===== *)
theory Spec2Isabelle
  imports Server_Lifecycle Config_Concurrency Registration Client_Watchers Load_Balancing_Main Balancers
    Client_Deadline Greeting Test_Util Console
begin

text \<open>
  A verification development for \<^verbatim>\<open>grpc-template\<close>, a Go template for gRPC services: a server and a
  client package with functional options and life cycles (\<^verbatim>\<open>internal/server\<close>, \<^verbatim>\<open>internal/client\<close>), a
  package of interceptors for each, a logging package, a greeter service and the programs that
  put them together (\<^verbatim>\<open>cmd\<close>, \<^verbatim>\<open>examples\<close>).

  \<^bold>\<open>How the parts interact.\<close> A program makes a \<^verbatim>\<open>Server\<close> from options; some options configure the server,
  some the package-level configuration of the interceptors. \<^verbatim>\<open>Run\<close> creates the library's server
  with the interceptors chained in the order given and serves until its context is cancelled.
  Each interceptor takes a snapshot of the configuration when a call comes in and calls the next
  one at most once. The client mirrors this: options, a package-level configuration, a chain of
  interceptors around the invoker of a call, and \<^verbatim>\<open>Connect\<close> and \<^verbatim>\<open>Close\<close> around a connection and a
  health watcher.

  \<^bold>\<open>Theories.\<close>
  \<^item> \<open>Go_Runtime\<close>, \<open>Go_Strings\<close>, \<open>Go_Json\<close>: the language and what the code uses of its standard library:
    computations that return or panic on a state, 64-bit wrap-around, \<^verbatim>\<open>strings\<close>,
    \<^verbatim>\<open>net.SplitHostPort\<close>, \<^verbatim>\<open>json.Valid\<close>.
  \<^item> \<open>Grpc_Types\<close>: status codes, errors, contexts, streams, and the record of library functions.
  \<^item> \<open>Fair_Runs\<close>: infinite runs and fairness; the locale \<open>progress\<close> of a goroutine whose remaining moves
    are bounded, interpreted for the stages of a shutdown and for the watchers.
  \<^item> \<open>Logging_Pkg\<close>: \<^verbatim>\<open>internal/logging\<close> and the process state (clock, scheduler, entropy, log).
  \<^item> \<open>Middleware\<close>, \<open>Keyed_Service\<close>: the contracts of interceptors and of per-key services, as locales,
    interpreted on every interceptor and on the rate limiter.
  \<^item> \<open>Rate_Limiter\<close>, \<open>Rate_Limiter_Concurrency\<close>: the in-memory rate limiter of \<^verbatim>\<open>rate_limit.go\<close>, one call
    at a time and with concurrent callers and its cleanup goroutine.
  \<^item> \<open>Server_Config\<close>: \<^verbatim>\<open>config.go\<close>, with the method sets as references, as Go maps are.
  \<^item> \<open>Peer_Key\<close>, \<open>Server_Gates\<close>, \<open>Server_Auth\<close>, \<open>Server_Recovery\<close>, \<open>Server_Logging\<close>, \<open>Request_Id\<close>: the server
    interceptors and their helpers, for unary and stream calls.
  \<^item> \<open>Server_State\<close>, \<open>Config_Concurrency\<close>: the invariant of the server process's state, which options and
    calls keep; \<^verbatim>\<open>Configure\<close> against requests in flight, as steps of its critical section.
  \<^item> \<open>Server\<close>, \<open>Server_Run\<close>: \<^verbatim>\<open>option.go\<close> and \<^verbatim>\<open>server.go\<close>; \<^verbatim>\<open>Run\<close> is a sequential beginning and a step
    relation of its two goroutines.
  \<^item> \<open>Server_Lifecycle\<close>: the abstract server that \<^verbatim>\<open>Run\<close> implements (running, draining, ended), the
    simulation, and fair runs. \<open>Registration\<close>: \<^verbatim>\<open>RegisterService\<close> from many goroutines against the copying
    \<^verbatim>\<open>Run\<close>, with every access of the shared slice a step of its own.
  \<^item> \<open>Server_Chains\<close>: stream interceptors as the unary ones of the same file, the locale
    \<open>stream_twin\<close>; the unary and the stream chain of the server program and the documented chain.
  \<^item> \<open>Client_Config\<close>, \<open>Client_Auth\<close>, \<open>Client_Calls\<close>, \<open>Retry\<close>: the client interceptors.
  \<^item> \<open>Client_Chain\<close>, \<open>Client_Deadline\<close>: logging, timeout and retries as one chain, in the client program's
    order, and how long a call through it takes.
  \<^item> \<open>End_To_End\<close>: a call or a stream from the client's interceptors through the transport to the server's and back;
    the record \<open>wire\<close> is the transport, and the server's state at each attempt is arbitrary.
  \<^item> \<open>Client\<close>, \<open>Client_Lifecycle\<close>, \<open>Health_Watch\<close>: \<^verbatim>\<open>option.go\<close> and \<^verbatim>\<open>client.go\<close>, sequentially, under
    concurrent calls, and the watcher goroutine; \<open>Client_Watchers\<close> puts the calls and the goroutines
    they start together. \<open>Balancers\<close>: the policies \<^verbatim>\<open>balancer/register.go\<close> registers.
  \<^item> \<open>Greeter\<close>, \<open>Programs\<close>: the service and its caller, the server program, the options of the client
    program.
  \<^item> \<open>Client_Program\<close>: \<^verbatim>\<open>main\<close> of \<^verbatim>\<open>cmd/client\<close> from construction to its exits.
  \<^item> \<open>Load_Balancing\<close>, \<open>Load_Balancing_Main\<close>: \<^verbatim>\<open>examples/loadbalancing\<close>, its servers, tags and demos, and
    its \<^verbatim>\<open>main\<close>. \<open>Console\<close>: the level each program gives to \<^verbatim>\<open>slog\<close>, and what is printed of the records.
  \<^item> \<open>Stubs\<close>: the code generated for the greeter service, its stubs and handlers. \<open>Greeting\<close>: the client program
    against the server program, with these between their interceptors and the service; unary calls,
    the messages of a stream, and the programs as wholes.
  \<^item> \<open>Setups\<close>: every option of a server and a client as a value, what a sequence of them means for the
    interceptor packages, and the set-ups of the packages' documentation. \<open>Test_Util\<close>: \<^verbatim>\<open>internal/testutil\<close>.
  \<^item> This theory: properties across components.
  Functions carry their source names; where two packages use one name the client's, or the
  \<^verbatim>\<open>Server\<close> and \<^verbatim>\<open>Client\<close> option that delegates, has a prefix or suffix saying so.

  \<^bold>\<open>What the lemmas show.\<close> Whatever its handler does a call through the server's chain returns, is
  logged once and carries a well-formed request id; authentication and rate limiting stand
  before the handler; peers do not affect each other, concurrently and across evictions;
  tokens get from client to server; retries and waits are bounded; shutdown terminates with
  both goroutines joined, and under fairness it comes; connections do not leak
  and a closed client's watchers end. A stream meets
  the gates a unary call meets and gets from the chain what a call gets; a snapshot is never a
  configuration half applied; the server's state stays well formed and its code does not panic
  in it; the attempts of a client's call share one deadline and leave one record; the client
  program ends in one of four ways, and a fatal exit leaves its connection open; concurrent
  registrations are as if made one after the other; the server's authentication function sees the
  client's token and nothing else; a retried call runs its handler at most once unless an answer
  was lost, under one request id, and is over soon after its deadline; the client program run against
  the server program logs the greetings of its name and completes, and over a transport that fails
  a reply is still the right greeting and a stream that ends well is whole; options say to the
  interceptors what \<^verbatim>\<open>Configure\<close> would; the documented server is guarded and the documented client
  asks for a token for each attempt; the example's tag reaches the client and its summary counts right. Lemmas beside the properties
  state where the code falls short: options that forget a TLS failure, a watcher leaked by a
  race, backoffs that wrap around, a limiter stopped while in force, a lookup of a method set
  that can meet its writer.

  \<^bold>\<open>Parameters.\<close> The grpc library's functions, the token bucket, oauth2, authentication functions,
  user limiters, validators, handlers and files are parameters; what is relied on of the
  library is in \<open>status_laws\<close> and \<open>md_laws\<close>, of the transport in \<open>wire_laws\<close> (metadata, success and
  status errors arrive as they were sent), \<open>errors_arrive\<close> (any error arrives as one, and not as \<^verbatim>\<open>io.EOF\<close>) and \<open>prompt\<close> (an invoker returns when its context is done), of
  the policies' packages in \<open>imports_balancers\<close>. The scheduler's choices, the entropy and the instants at which
  contexts finish are part of the state, and the theorems hold for all of them.

  \<^bold>\<open>Bounds and fuel.\<close> \<^verbatim>\<open>int64\<close> and \<^verbatim>\<open>time.Duration\<close> are integers with \<open>i64\<close> applied where the code multiplies,
  shifts or adds at run-time magnitudes; the clock itself is unbounded. Loops are structural
  recursions, except \<open>wait_loop\<close>, \<open>recv_loop\<close> and \<open>drainStream\<close>, which are partial functions because what
  they wait for may never come (\<^const>\<open>None\<close> is not returning), and the JSON recogniser,
  whose fuel is twice the length of its input plus two (each value and each of its siblings
  consumes a byte and takes two calls).

  \<^bold>\<open>Not modelled.\<close> The generated code of the messages (tables of the protobuf runtime; a message is
  the string it carries); the text \<^verbatim>\<open>slog\<close> makes of a record, and what
  \<^verbatim>\<open>log.Fatal\<close> prints; the registration
  of the manual resolver (its addresses are kept); the memory model: critical sections are
  single steps, except in \<open>Registration\<close> and in \<open>Config_Concurrency\<close>, where options are applied one by
  one and lookups of a shared map are intervals; the
  contents of stack traces; panics of user log handlers; \<^verbatim>\<open>time.Since\<close> saturating after 292 years.

  \<^bold>\<open>What is left.\<close> A client that reconnects while its calls are retried; flow control, that is a \<^verbatim>\<open>Send\<close> that
  waits for its reader: here it accepts a message or fails, and a stream is the messages it accepted.
\<close>

section \<open>The chains the repository builds\<close>



text \<open>In the order of the package's own usage example the records carry no request id: when
  logging stands outside the request-id interceptor, the completion record of every call that
  came in without an id in its context is the record without one, although the call got an id.\<close>

theorem documented_order_loses_request_id:
  assumes "RequestIDFromContext c = []"
    and "nest (tl (tl (doc_chain E V))) (c, req) method h w = (Ret (resp, err), w1)"
  shows "nest (tl (doc_chain E V)) (c, req) method h w
           = (Ret (resp, err), add_record (completion_record E w c method [] err w1) w1) \<and>
         log_args (completion_record E w c method [] err w1) =
           [ArgString ''method'', ArgString method, ArgString ''duration'', ArgDuration (now w1 - now w),
            ArgString ''code'', ArgString (code_text E (status_code E err))] @
           (let key = peerKey E c (trustProxy (defaultConfig w))
            in if key \<noteq> ''unknown'' then [ArgString ''peer'', ArgString key] else []) @
           (case err of None \<Rightarrow> [] | Some e \<Rightarrow> [ArgString ''error'', ArgString (error_text E e)])"
  using assms by (simp add: doc_chain_def Logging_apply completion_record_def buildLogArgs_def Let_def)

theorem documented_order_loses_request_id_witness:
  "\<exists>w1. nest (tl (doc_chain sample_env (\<lambda>req. None))) (sample_ctx, ()) ''/a/B'' (\<lambda>a. ret (Some (), None)) sample_world
     = (Ret (Some (), None), add_record (completion_record sample_env sample_world sample_ctx ''/a/B'' [] None w1) w1)"
proof -
  have "authFunc (defaultConfig sample_world) = None" "rateLimiter (defaultConfig sample_world) = None"
    by (simp_all add: sample_world_def initial_config_def)
  then have inner: "nest (tl (tl (doc_chain sample_env (\<lambda>req. None)))) (sample_ctx, ()) ''/a/B'' (\<lambda>a. ret (Some (), None)) sample_world
      = (Ret (Some (), None), announced sample_env sample_ctx sample_world)"
    by (simp add: doc_chain_def RequestID_apply Auth_def Validation_def RateLimit_def comp_simps announced_def)
  have "RequestIDFromContext sample_ctx = []"
    by (simp add: RequestIDFromContext_def string_value_def sample_ctx_def)
  from documented_order_loses_request_id [OF this inner] show ?thesis by blast
qed

text \<open>C3. The documented chain of all six interceptors treats the handler as one would hope whatever
  it is, for any authentication function, validator and limiter, even ones that panic: in a
  given state the call either is answered without the handler, or runs it exactly once with
  arguments and a state that do not depend on it; and the call always returns.\<close>

theorem documented_chain_at_most_once:
  fixes E :: "'md srv_env" and V :: "'req validator"
  defines "chain \<equiv> (doc_chain E V :: ('md ctx \<times> 'req \<Rightarrow> string
    \<Rightarrow> ('md ctx \<times> 'req \<Rightarrow> 'resp option fallible scomp) \<Rightarrow> 'resp option fallible scomp) list)"
  shows "((\<exists>answer. \<forall>h. nest chain a method h w = answer) \<or>
          (\<exists>a' w' post. \<forall>h. nest chain a method h w = post (h a' w'))) \<and>
         (\<exists>r. fst (nest chain a method h w) = Ret r)"
proof
  have "middleware I" if "I \<in> set chain" for I
    using that recovery.middleware_axioms logging.middleware_axioms request_id.middleware_axioms
      auth.middleware_axioms validation.middleware_axioms rate_limit.middleware_axioms
    by (auto simp: chain_def doc_chain_def)
  then have "middleware (nest chain)" by (rule middleware_nest)
  then show "(\<exists>answer. \<forall>h. nest chain a method h w = answer) \<or> (\<exists>a' w' post. \<forall>h. nest chain a method h w = post (h a' w'))"
    by (rule middleware.at_most_once)
  show "\<exists>r. fst (nest chain a method h w) = Ret r"
    by (cases a) (auto simp: chain_def doc_chain_def Recovery_apply split: prod.splits outcome.splits)
qed

section \<open>Client and server\<close>

text \<open>C9. A token gets across: whatever non-empty token the client's source yields, even one that
  itself begins with \<^verbatim>\<open>Bearer\<close>, a server that receives the authorization metadata the client sent
  extracts exactly that token.\<close>

theorem token_round_trip:
  assumes "md_laws C" "tokenSource (clientConfig w) = Some s"
    and "call_source C s c w = (Ret (c1, None), w1)" "string_value c1 TokenKey = Some token" "token \<noteq> []"
  shows "\<exists>md. (\<forall>h. Auth_client C c call path h w = h (c1\<lparr>outgoing_md := Some md\<rparr>) call w1) \<and>
           (\<forall>(S :: 'smd srv_env) cs md'. incoming_md cs = Some md' \<and> md_get S md' ''authorization'' = md_get C md ''authorization''
              \<longrightarrow> extractBearerToken S cs = Inr token)"
proof -
  obtain md where inj: "injectToken C c (Some s) (resolved (clc_logger (clientConfig w)) w) w = (Ret (c1\<lparr>outgoing_md := Some md\<rparr>, None), w1)"
    "md_get C md ''authorization'' = [''Bearer '' @ token]"
    using injectToken_ok [OF assms(1,3-5)] by blast
  have "extractBearerToken S cs = Inr token"
    if "incoming_md cs = Some md'" "md_get S md' ''authorization'' = [''Bearer '' @ token]"
    for S :: "'smd srv_env" and cs md'
    using that assms(5) scheme_folds(1) by (simp add: extractBearerToken_def)
  then show ?thesis using inj assms(2) by (intro exI [of _ md]) (simp add: Auth_client_apply)
qed

theorem token_round_trip_witness:
  "\<exists>md. extractBearerToken sample_env (sample_ctx\<lparr>incoming_md := Some md\<rparr>) = Inr ''abc''"
proof -
  let ?w = "snd (WithTokenSource (Some (StaticToken ''abc'')) sample_client)"
  have src: "call_source sample_client_env (StaticToken ''abc'') sample_ctx ?w
      = (Ret (with_value sample_ctx TokenKey (StringValue ''abc''), None), ?w)"
    by (simp add: ret_apply)
  have tok: "string_value (with_value sample_ctx TokenKey (StringValue ''abc'')) TokenKey = Some ''abc''" "''abc'' \<noteq> []"
    by simp_all
  have same: "md_get sample_env md k = md_get sample_client_env md k" for md k
    by (simp add: sample_env_def sample_client_env_def)
  obtain md where md: "\<forall>(S :: (string \<Rightarrow> string list) srv_env) cs md'. incoming_md cs = Some md' \<and>
      md_get S md' ''authorization'' = md_get sample_client_env md ''authorization''
        \<longrightarrow> extractBearerToken S cs = Inr ''abc''"
    by (rule exE [OF token_round_trip [where call = "()" and path = "[]" and 'smd = "string \<Rightarrow> string list",
        OF sample_client_env_laws(2) sample_static src tok]]) (elim conjE, rule that)
  then have "extractBearerToken sample_env (sample_ctx\<lparr>incoming_md := Some md\<rparr>) = Inr ''abc''"
    using same by simp
  then show ?thesis by (rule exI [of _ md])
qed

end
